(* ===== verification/GoPrelude.thy ===== *)
theory GoPrelude
  imports Main "HOL-Library.Word"
begin

text \<open>
  The shared vocabulary of the development: Go's fixed-width integers and byte slices,
  the \<open>encoding/binary\<close> conversions between them, \<open>bytes.Compare\<close>, array stores and the
  integer conversions of the Go language specification that the components use.

  \<^item> \<open>byte\<close>, \<open>u16\<close>, \<open>u32\<close>, \<open>u64\<close> are Go's \<open>uint8\<close>\<dots>\<open>uint64\<close>; \<open>bytes\<close> is a
    byte slice seen as its contents.
  \<^item> \<open>put_be\<close>/\<open>get_be\<close> and \<open>put_le\<close>/\<open>get_le\<close> are the big and little endian
    conversions for a given number of bytes; \<open>put_be32\<close> and the like are the named
    routines of \<open>encoding/binary\<close>.
  \<^item> \<open>slice i j b\<close> is the Go slice expression \<open>b[i:j]\<close> for bounds inside the slice.
  \<^item> \<open>wrap64\<close> reads an integer as a two's complement \<open>int64\<close>, the value that Go's
    \<open>int64\<close> arithmetic leaves.

  The collections \<open>go_simps\<close> and \<open>go_len\<close> carry the rewriting of the component proofs.
\<close>

unbundle bit_operations_syntax

named_theorems go_simps \<open>rewriting rules of the Go primitives\<close>

named_theorems go_len \<open>lengths of the byte strings an operation produces\<close>

type_synonym byte = "8 word"

type_synonym u16 = "16 word"

type_synonym u32 = "32 word"

type_synonym u64 = "64 word"

type_synonym bytes = "byte list"

lemma unat_of_nat_id: "v < 2 ^ LENGTH('a) \<Longrightarrow> unat (of_nat v :: 'a :: len word) = v"
  by (simp add: unat_of_nat take_bit_nat_eq_self)

subsection \<open>Slices\<close>

definition slice :: "nat \<Rightarrow> nat \<Rightarrow> 'a list \<Rightarrow> 'a list" where
  "slice i j xs = take (j - i) (drop i xs)"

lemma length_slice [simp, go_len]: "length (slice i j xs) = min (j - i) (length xs - i)"
  by (simp add: slice_def min.commute)

lemma slice_append_left: "j \<le> length xs \<Longrightarrow> slice i j (xs @ ys) = slice i j xs"
  by (auto simp: slice_def)

lemma slice_append_right:
  "length xs \<le> i \<Longrightarrow> slice i j (xs @ ys) = slice (i - length xs) (j - length xs) ys"
  by (auto simp: slice_def)

lemma slice_full [simp]: "length xs \<le> j \<Longrightarrow> slice 0 j xs = xs"
  by (simp add: slice_def)

lemma slice_same [simp]: "slice i i xs = []"
  by (simp add: slice_def)

lemma take_slice_drop: "i \<le> j \<Longrightarrow> j \<le> length xs \<Longrightarrow> take i xs @ slice i j xs @ drop j xs = xs"
  by (simp add: slice_def) (metis append.assoc append_take_drop_id le_add_diff_inverse take_add)

text \<open>\<open>copy(dst[i:], src)\<close>: as many bytes as fit, the rest of \<open>dst\<close> kept.\<close>

definition copy_at :: "nat \<Rightarrow> 'a list \<Rightarrow> 'a list \<Rightarrow> 'a list" where
  "copy_at i src dst =
     (let n = min (length src) (length dst - i)
      in take i dst @ take n src @ drop (i + n) dst)"

lemma length_copy_at [simp, go_len]: "i \<le> length dst \<Longrightarrow> length (copy_at i src dst) = length dst"
  by (simp add: copy_at_def Let_def)

lemma copy_at_fits:
  "i + length src \<le> length dst \<Longrightarrow>
     copy_at i src dst = take i dst @ src @ drop (i + length src) dst"
  by (simp add: copy_at_def Let_def)

subsection \<open>Integers to and from byte strings\<close>

primrec put_le :: "nat \<Rightarrow> nat \<Rightarrow> bytes" where
  "put_le 0 v = []"
| "put_le (Suc n) v = of_nat v # put_le n (v div 256)"

fun get_le :: "bytes \<Rightarrow> nat" where
  "get_le [] = 0"
| "get_le (b # bs) = unat b + 256 * get_le bs"

definition put_be :: "nat \<Rightarrow> nat \<Rightarrow> bytes" where
  "put_be n v = rev (put_le n v)"

definition get_be :: "bytes \<Rightarrow> nat" where
  "get_be bs = get_le (rev bs)"

lemma length_put_le [simp, go_len]: "length (put_le n v) = n"
  by (induction n arbitrary: v) auto

lemma length_put_be [simp, go_len]: "length (put_be n v) = n"
  by (simp add: put_be_def)

lemma unat_of_nat_byte [simp]: "unat (of_nat v :: byte) = v mod 256"
  by (simp add: unat_of_nat take_bit_eq_mod)

lemma unat_byte_less: "unat (b :: byte) < 256"
  using unsigned_less [of b] by simp

lemma get_put_le [go_simps]: "get_le (put_le n v) = v mod 256 ^ n"
proof (induction n arbitrary: v)
  case 0
  then show ?case by simp
next
  case (Suc n)
  have "v mod 256 + 256 * (v div 256 mod 256 ^ n) = v mod (256 * 256 ^ n)"
    by (metis add.commute mod_mult2_eq)
  with Suc show ?case by simp
qed

lemma get_put_be [go_simps]: "get_be (put_be n v) = v mod 256 ^ n"
  by (simp add: get_be_def put_be_def get_put_le)

lemma get_le_less: "get_le bs < 256 ^ length bs"
proof (induction bs)
  case Nil
  then show ?case by simp
next
  case (Cons b bs)
  have "unat b < 256" by (rule unat_byte_less)
  with Cons have "unat b + 256 * get_le bs < 256 + 256 * (256 ^ length bs - 1)"
    by (simp add: add_less_le_mono)
  also have "\<dots> = 256 ^ length (b # bs)"
    by (simp add: algebra_simps)
  finally show ?case by simp
qed

lemma get_be_less: "get_be bs < 256 ^ length bs"
  using get_le_less [of "rev bs"] by (simp add: get_be_def)

lemma put_get_le: "put_le (length bs) (get_le bs) = bs"
proof (induction bs)
  case Nil
  then show ?case by simp
next
  case (Cons b bs)
  have "(of_nat (unat b + 256 * get_le bs) :: byte) = b"
    by (simp only: word_unat_eq_iff unat_of_nat_byte) (simp add: unat_byte_less)
  moreover have "(unat b + 256 * get_le bs) div 256 = get_le bs"
    by (simp add: unat_byte_less)
  ultimately show ?case using Cons by simp
qed

lemma put_get_be: "put_be (length bs) (get_be bs) = bs"
  using put_get_le [of "rev bs"] by (simp add: put_be_def get_be_def)

lemma get_be_inject: "length as = length bs \<Longrightarrow> get_be as = get_be bs \<longleftrightarrow> as = bs"
  by (metis put_get_be)

subsection \<open>The named conversions of encoding/binary\<close>

definition put_be16 :: "u16 \<Rightarrow> bytes" where
  "put_be16 w = put_be 2 (unat w)"

definition put_be32 :: "u32 \<Rightarrow> bytes" where
  "put_be32 w = put_be 4 (unat w)"

definition put_be64 :: "u64 \<Rightarrow> bytes" where
  "put_be64 w = put_be 8 (unat w)"

definition get_be16 :: "bytes \<Rightarrow> u16" where
  "get_be16 bs = of_nat (get_be (take 2 bs))"

definition get_be32 :: "bytes \<Rightarrow> u32" where
  "get_be32 bs = of_nat (get_be (take 4 bs))"

definition get_be64 :: "bytes \<Rightarrow> u64" where
  "get_be64 bs = of_nat (get_be (take 8 bs))"

definition put_le32 :: "u32 \<Rightarrow> bytes" where
  "put_le32 w = put_le 4 (unat w)"

definition put_le64 :: "u64 \<Rightarrow> bytes" where
  "put_le64 w = put_le 8 (unat w)"

definition get_le32 :: "bytes \<Rightarrow> u32" where
  "get_le32 bs = of_nat (get_le (take 4 bs))"

definition get_le64 :: "bytes \<Rightarrow> u64" where
  "get_le64 bs = of_nat (get_le (take 8 bs))"

lemmas binary_defs =
  put_be16_def put_be32_def put_be64_def get_be16_def get_be32_def get_be64_def
  put_le32_def put_le64_def get_le32_def get_le64_def

lemma length_binary [simp, go_len]:
  "length (put_be16 a) = 2" "length (put_be32 b) = 4" "length (put_be64 c) = 8"
  "length (put_le32 b) = 4" "length (put_le64 c) = 8"
  by (simp_all add: binary_defs)

lemma unat_word_bounds:
  "unat (a :: u16) < 256 ^ 2" "unat (b :: u32) < 256 ^ 4" "unat (c :: u64) < 256 ^ 8"
  using unsigned_less [of a] unsigned_less [of b] unsigned_less [of c] by simp_all

lemma unat_u64_less: "unat (x :: u64) < 2 ^ 64"
  using unat_word_bounds(3) [of x] by simp

lemma unat_u32_less: "unat (x :: u32) < 2 ^ 32"
  using unat_word_bounds(2) [of x] by simp

lemma unat_u16_less: "unat (x :: u16) < 2 ^ 16"
  using unat_word_bounds(1) [of x] by simp

lemma get_put_binary [simp, go_simps]:
  "get_be16 (put_be16 a @ r) = a" "get_be32 (put_be32 b @ r) = b" "get_be64 (put_be64 c @ r) = c"
  "get_le32 (put_le32 b @ r) = b" "get_le64 (put_le64 c @ r) = c"
  using unat_word_bounds(1) [of a] unat_word_bounds(2) [of b] unat_word_bounds(3) [of c]
  by (simp_all add: binary_defs get_put_be get_put_le)

lemma get_put_binary' [simp, go_simps]:
  "get_be16 (put_be16 a) = a" "get_be32 (put_be32 b) = b" "get_be64 (put_be64 c) = c"
  "get_le32 (put_le32 b) = b" "get_le64 (put_le64 c) = c"
  using get_put_binary(1) [of a "[]"] get_put_binary(2) [of b "[]"] get_put_binary(3) [of c "[]"]
    get_put_binary(4) [of b "[]"] get_put_binary(5) [of c "[]"]
  by simp_all

subsection \<open>Lexicographic comparison\<close>

text \<open>\<open>bytes.Compare\<close>: \<open>-1\<close>, \<open>0\<close> or \<open>1\<close>.\<close>

fun bytes_compare :: "bytes \<Rightarrow> bytes \<Rightarrow> int" where
  "bytes_compare [] [] = 0"
| "bytes_compare [] (_ # _) = - 1"
| "bytes_compare (_ # _) [] = 1"
| "bytes_compare (a # as) (b # bs) =
     (if a < b then - 1 else if b < a then 1 else bytes_compare as bs)"

lemma get_be_Cons: "get_be (b # bs) = unat b * 256 ^ length bs + get_be bs"
proof -
  have "get_le (as @ [b]) = get_le as + 256 ^ length as * unat b" for as
    by (induction as) (auto simp: algebra_simps)
  then show ?thesis by (simp add: get_be_def algebra_simps)
qed

lemma get_be_Nil [simp]: "get_be [] = 0"
  by (simp add: get_be_def)

lemma get_be_append: "get_be (as @ bs) = get_be as * 256 ^ length bs + get_be bs"
  by (induction as) (auto simp: get_be_Cons power_add algebra_simps)

lemma get_be_Cons_less:
  assumes "length as = length bs" and "a < b"
  shows "get_be (a # as) < get_be (b # bs)"
proof -
  have "unat a * 256 ^ length as + get_be as < (unat a + 1) * 256 ^ length as"
    using get_be_less [of as] by simp
  also have "\<dots> \<le> unat b * 256 ^ length bs"
  proof -
    have "unat a + 1 \<le> unat b" using assms(2) by (simp add: word_less_nat_alt)
    then have "(unat a + 1) * 256 ^ length bs \<le> unat b * 256 ^ length bs"
      by (rule mult_le_mono1)
    with assms(1) show ?thesis by simp
  qed
  finally show ?thesis using assms(1) by (simp add: get_be_Cons)
qed

lemma bytes_compare_get_be:
  assumes "length as = length bs"
  shows "bytes_compare as bs =
    (if get_be as < get_be bs then - 1 else if get_be bs < get_be as then 1 else 0)"
  using assms
proof (induction as bs rule: list_induct2)
  case Nil
  then show ?case by simp
next
  case (Cons a as b bs)
  consider "a < b" | "b < a" | "a = b" by fastforce
  then show ?case
  proof cases
    case 1
    with Cons.hyps have "get_be (a # as) < get_be (b # bs)" by (rule get_be_Cons_less)
    with 1 show ?thesis by simp
  next
    case 2
    with Cons.hyps have "get_be (b # bs) < get_be (a # as)"
      by (intro get_be_Cons_less) simp_all
    with 2 show ?thesis by (auto simp: not_less_iff_gr_or_eq)
  next
    case 3
    with Cons show ?thesis by (simp add: get_be_Cons)
  qed
qed

subsection \<open>Signed 64-bit integers\<close>

definition wrap64 :: "int \<Rightarrow> int" where
  "wrap64 x = signed_take_bit 63 x"

lemma wrap64_id [simp]: "- (2 ^ 63) \<le> x \<Longrightarrow> x < 2 ^ 63 \<Longrightarrow> wrap64 x = x"
  by (simp add: wrap64_def signed_take_bit_int_eq_self_iff)

subsection \<open>Time\<close>

text \<open>
  A \<open>time.Time\<close> is the number of nanoseconds since the Unix epoch, a \<open>time.Duration\<close> a number of
  nanoseconds. \<open>time.Time.Sub\<close> saturates at the bounds of \<open>int64\<close>; the zero \<open>Time\<close> is the start of
  the year 1.
\<close>

definition time_sub :: "int \<Rightarrow> int \<Rightarrow> int" where
  "time_sub t u = max (- (2 ^ 63)) (min (2 ^ 63 - 1) (t - u))"

definition second :: int where
  "second = 10 ^ 9"

definition zero_time :: int where
  "zero_time = - 62135596800 * 10 ^ 9"

lemma time_sub_le [simp]: "u \<le> t \<Longrightarrow> 0 \<le> time_sub t u"
  by (simp add: time_sub_def)

lemma time_sub_mono: "t \<le> t' \<Longrightarrow> time_sub t u \<le> time_sub t' u"
  by (auto simp: time_sub_def)

lemma time_sub_self [simp]: "time_sub t t = 0"
  by (simp add: time_sub_def)

subsection \<open>Random bytes\<close>

text \<open>\<open>rand.Read\<close> into a buffer of \<open>n\<close> bytes, \<open>b\<close> what the source delivers.\<close>

definition fill :: "nat \<Rightarrow> bytes \<Rightarrow> bytes" where
  "fill n b = take n (b @ replicate n 0)"

lemma length_fill [simp, go_len]: "length (fill n b) = n"
  by (simp add: fill_def)

lemma fill_exact [simp]: "length b = n \<Longrightarrow> fill n b = b"
  by (simp add: fill_def)

subsection \<open>Results\<close>

text \<open>
  A fallible Go function \<open>(T, error)\<close> returns a sum, the error on the left; \<open>bindE\<close> is the
  sequence \<open>if err != nil \<close>\<open>{ return err }\<close>.
\<close>

definition bindE :: "'e + 'a \<Rightarrow> ('a \<Rightarrow> 'e + 'b) \<Rightarrow> 'e + 'b" where
  "bindE r f = (case r of Inl e \<Rightarrow> Inl e | Inr x \<Rightarrow> f x)"

lemma bindE_simps [simp]: "bindE (Inl e) f = Inl e" "bindE (Inr x) f = f x"
  by (simp_all add: bindE_def)

lemma bindE_Inr_iff: "bindE r f = Inr y \<longleftrightarrow> (\<exists>x. r = Inr x \<and> f x = Inr y)"
  by (cases r) auto

lemma bindE_cong [fundef_cong]:
  "r = r' \<Longrightarrow> (\<And>x. r' = Inr x \<Longrightarrow> f x = f' x) \<Longrightarrow> bindE r f = bindE r' f'"
  by (cases r') auto

end
