(* ===== verification/Runs.thy ===== *)
theory Runs
  imports GoPrelude
begin

text \<open>
  Sequences of calls. A component with a mutex serialises its calls, so what its clients see
  is a run: the list of the results of a list of calls, the state threaded from one to the
  next. \<open>run_calls\<close> is that run for any step function.

  Two interfaces are stated once here and interpreted by the components that provide them:

  \<^item> \<open>step_invariant\<close>: a step that keeps an invariant, so that every run keeps it;
  \<^item> \<open>guarded_refinement\<close> and, without a guard, \<open>step_refinement\<close>: a step of the code that an abstract step simulates with the same
    result, so that the results of every run are those of the specification.
\<close>

primrec run_calls :: "('s \<Rightarrow> 'i \<Rightarrow> 's \<times> 'o) \<Rightarrow> 's \<Rightarrow> 'i list \<Rightarrow> 's \<times> 'o list" where
  "run_calls step s [] = (s, [])"
| "run_calls step s (x # xs) =
     (let (s', y) = step s x; (s'', ys) = run_calls step s' xs in (s'', y # ys))"

lemma run_calls_simps [simp]:
  "fst (run_calls step s []) = s" "snd (run_calls step s []) = []"
  "fst (run_calls step s (x # xs)) = fst (run_calls step (fst (step s x)) xs)"
  "snd (run_calls step s (x # xs)) = snd (step s x) # snd (run_calls step (fst (step s x)) xs)"
  by (simp_all add: split_beta)

lemmas run_calls_unfold = run_calls.simps(2)

declare run_calls.simps(2) [simp del]

lemma length_run_calls [simp, go_len]: "length (snd (run_calls step s xs)) = length xs"
  by (induction xs arbitrary: s) simp_all

lemma fst_run_calls_append:
  "fst (run_calls step s (xs @ ys)) = fst (run_calls step (fst (run_calls step s xs)) ys)"
  by (induction xs arbitrary: s) simp_all

lemma snd_run_calls_append:
  "snd (run_calls step s (xs @ ys)) =
     snd (run_calls step s xs) @ snd (run_calls step (fst (run_calls step s xs)) ys)"
  by (induction xs arbitrary: s) simp_all

lemma snd_run_calls_nth:
  "i < length xs \<Longrightarrow>
     snd (run_calls step s xs) ! i = snd (step (fst (run_calls step s (take i xs))) (xs ! i))"
proof (induction xs arbitrary: s i)
  case (Cons x xs)
  then show ?case by (cases i) simp_all
qed simp

locale step_invariant =
  fixes step :: "'s \<Rightarrow> 'i \<Rightarrow> 's \<times> 'o"
    and inv :: "'s \<Rightarrow> bool"
  assumes keeps: "inv s \<Longrightarrow> inv (fst (step s x))"
begin

lemma run_keeps: "inv s \<Longrightarrow> inv (fst (run_calls step s xs))"
  by (induction xs arbitrary: s) (simp_all add: keeps)

end

text \<open>
  A refinement whose steps are related only under a condition \<open>pre\<close> on the abstract state
  and the call; \<open>run_ok\<close> asks the condition of every call of a run.
\<close>

primrec run_ok :: "('s \<Rightarrow> 'i \<Rightarrow> 's \<times> 'o) \<Rightarrow> ('s \<Rightarrow> 'i \<Rightarrow> bool) \<Rightarrow> 's \<Rightarrow> 'i list \<Rightarrow> bool" where
  "run_ok step pre s [] = True"
| "run_ok step pre s (x # xs) = (pre s x \<and> run_ok step pre (fst (step s x)) xs)"

locale guarded_refinement =
  fixes cstep :: "'c \<Rightarrow> 'i \<Rightarrow> 'c \<times> 'o"
    and astep :: "'a \<Rightarrow> 'i \<Rightarrow> 'a \<times> 'o"
    and rel :: "'c \<Rightarrow> 'a \<Rightarrow> bool"
    and pre :: "'a \<Rightarrow> 'i \<Rightarrow> bool"
  assumes guarded_sim: "rel c a \<Longrightarrow> pre a x \<Longrightarrow> rel (fst (cstep c x)) (fst (astep a x))"
    and guarded_result: "rel c a \<Longrightarrow> pre a x \<Longrightarrow> snd (cstep c x) = snd (astep a x)"
begin

lemma run_sim:
  "rel c a \<Longrightarrow> run_ok astep pre a xs \<Longrightarrow>
     rel (fst (run_calls cstep c xs)) (fst (run_calls astep a xs))"
  by (induction xs arbitrary: c a) (simp_all add: guarded_sim)

lemma run_results:
  "rel c a \<Longrightarrow> run_ok astep pre a xs \<Longrightarrow>
     snd (run_calls cstep c xs) = snd (run_calls astep a xs)"
  by (induction xs arbitrary: c a) (simp_all add: guarded_sim guarded_result)

end

locale step_refinement =
  fixes cstep :: "'c \<Rightarrow> 'i \<Rightarrow> 'c \<times> 'o"
    and astep :: "'a \<Rightarrow> 'i \<Rightarrow> 'a \<times> 'o"
    and rel :: "'c \<Rightarrow> 'a \<Rightarrow> bool"
  assumes sim: "rel c a \<Longrightarrow> rel (fst (cstep c x)) (fst (astep a x))"
    and result: "rel c a \<Longrightarrow> snd (cstep c x) = snd (astep a x)"

sublocale step_refinement \<subseteq> guarded_refinement cstep astep rel "\<lambda>_ _. True"
  by unfold_locales (simp_all add: sim result)

context step_refinement
begin

lemma run_ok_True: "run_ok astep (\<lambda>_ _. True) a xs"
  by (induction xs arbitrary: a) simp_all

lemmas all_sim = run_sim [OF _ run_ok_True]

lemmas all_results = run_results [OF _ run_ok_True]

lemma same_results:
  "rel c a \<Longrightarrow> rel c' a \<Longrightarrow> snd (run_calls cstep c xs) = snd (run_calls cstep c' xs)"
  by (simp add: all_results)

end

end
