(* ===== verification/Replay.thy ===== *)
theory Replay
  imports Runs
begin

text \<open>
  The anti-replay window of package \<open>replay\<close> (src/replay/replay.go, after RFC 6479): a
  ring of 128 blocks of 64 bits and the highest counter seen. The model keeps the words of
  the source; the specification is the set of counters accepted so far.

  \<open>filter_rel f S\<close> relates a filter to the set \<open>S\<close> of accepted counters; the lemmas show
  that every \<open>ValidateCounter\<close> call is one step of the specification (\<open>spec_step\<close>), so a
  run of the filter accepts exactly what the specification accepts.
\<close>

subsection \<open>The code\<close>

definition blockBitLog :: nat where
  "blockBitLog = 6"

definition blockBits :: u64 where
  "blockBits = push_bit blockBitLog 1"

definition ringBlocks :: u64 where
  "ringBlocks = push_bit 7 1"

definition windowSize :: u64 where
  "windowSize = (ringBlocks - 1) * blockBits"

definition blockMask :: u64 where
  "blockMask = ringBlocks - 1"

definition bitMask :: u64 where
  "bitMask = blockBits - 1"

lemmas replay_consts =
  blockBitLog_def blockBits_def ringBlocks_def windowSize_def blockMask_def bitMask_def

record Filter =
  f_last :: u64
  f_ring :: "u64 list"

text \<open>The zero value of the struct: an empty filter.\<close>

definition zero_filter :: Filter where
  "zero_filter = \<lparr>f_last = 0, f_ring = replicate 128 0\<rparr>"

definition Reset :: "Filter \<Rightarrow> Filter" where
  "Reset f = f\<lparr>f_last := 0, f_ring := (f_ring f)[0 := 0]\<rparr>"

text \<open>
  The loop \<open>for i := current + 1; i <= current+diff; i++ { f.ring[i&blockMask] = 0 }\<close> as
  its \<open>diff\<close> iterations (\<open>current + diff\<close> is far below \<open>2^64\<close>, so the comparison never
  wraps: \<open>clear_loop_no_wrap\<close>).
\<close>

primrec clear_blocks :: "nat \<Rightarrow> u64 \<Rightarrow> u64 list \<Rightarrow> u64 list" where
  "clear_blocks 0 i r = r"
| "clear_blocks (Suc n) i r = clear_blocks n (i + 1) (r[unat (i AND blockMask) := 0])"

definition check_and_set :: "Filter \<Rightarrow> u64 \<Rightarrow> Filter \<times> bool" where
  "check_and_set f counter =
     (let indexBlock = drop_bit blockBitLog counter AND blockMask;
          indexBit = counter AND bitMask;
          old = f_ring f ! unat indexBlock;
          new = old OR push_bit (unat indexBit) 1
      in (f\<lparr>f_ring := (f_ring f)[unat indexBlock := new]\<rparr>, old \<noteq> new))"

definition ValidateCounter :: "Filter \<Rightarrow> u64 \<Rightarrow> u64 \<Rightarrow> Filter \<times> bool" where
  "ValidateCounter f counter limit =
     (if counter \<ge> limit then (f, False)
      else
        let indexBlock = drop_bit blockBitLog counter
        in if counter > f_last f then
             let current = drop_bit blockBitLog (f_last f);
                 diff = indexBlock - current;
                 diff = (if diff > ringBlocks then ringBlocks else diff);
                 r = clear_blocks (unat diff) (current + 1) (f_ring f)
             in check_and_set (f\<lparr>f_last := counter, f_ring := r\<rparr>) counter
           else if f_last f - counter > windowSize then (f, False)
           else check_and_set f counter)"

text \<open>A sequence of calls, as the sequential receiver makes them.\<close>

definition validate_call :: "Filter \<Rightarrow> u64 \<times> u64 \<Rightarrow> Filter \<times> bool" where
  "validate_call f cl = ValidateCounter f (fst cl) (snd cl)"

subsection \<open>The specification\<close>

record spec_window =
  highest :: nat
  accepted :: "nat set"

definition spec_accepts :: "spec_window \<Rightarrow> nat \<Rightarrow> nat \<Rightarrow> bool" where
  "spec_accepts w c l \<longleftrightarrow>
     c < l \<and> (highest w < c \<or> (highest w - c \<le> 8128 \<and> c \<notin> accepted w))"

definition spec_step :: "spec_window \<Rightarrow> nat \<Rightarrow> nat \<Rightarrow> spec_window" where
  "spec_step w c l =
     (if spec_accepts w c l
      then w\<lparr>highest := max (highest w) c, accepted := insert c (accepted w)\<rparr> else w)"

definition spec_call :: "spec_window \<Rightarrow> u64 \<times> u64 \<Rightarrow> spec_window \<times> bool" where
  "spec_call w cl =
     (spec_step w (unat (fst cl)) (unat (snd cl)), spec_accepts w (unat (fst cl)) (unat (snd cl)))"

definition empty_window :: spec_window where
  "empty_window = \<lparr>highest = 0, accepted = {}\<rparr>"

text \<open>
  A counter whose block is one of the 128 the ring holds has its bit set exactly when it
  was accepted.
\<close>

definition filter_rel :: "Filter \<Rightarrow> spec_window \<Rightarrow> bool" where
  "filter_rel f w \<longleftrightarrow>
     length (f_ring f) = 128 \<and> highest w = unat (f_last f) \<and>
     (\<forall>c \<in> accepted w. c \<le> highest w) \<and>
     (\<forall>c. c div 64 \<le> highest w div 64 \<and> highest w div 64 \<le> c div 64 + 127 \<longrightarrow>
        bit (f_ring f ! (c div 64 mod 128)) (c mod 64) = (c \<in> accepted w))"

subsection \<open>Word arithmetic of the filter\<close>

lemma block_of_counter: "unat (drop_bit blockBitLog (c :: u64)) = unat c div 64"
  by (simp add: replay_consts drop_bit_eq_div unat_div)

lemma and_mask_mod:
  "unat (x AND blockMask) = unat x mod 128" "unat (x AND bitMask) = unat x mod 64"
proof -
  have "x AND blockMask = take_bit 7 x" "x AND bitMask = take_bit 6 x"
    by (simp_all add: replay_consts take_bit_eq_mask mask_eq_exp_minus_1)
  then show "unat (x AND blockMask) = unat x mod 128" "unat (x AND bitMask) = unat x mod 64"
    by (simp_all add: take_bit_eq_mod unat_mod)
qed

lemma unat_consts: "unat ringBlocks = 128" "unat windowSize = 8128"
  by (simp_all add: replay_consts)

lemma bit_set_word: "n < 64 \<Longrightarrow> m < 64 \<Longrightarrow> bit (w OR push_bit n 1 :: u64) m \<longleftrightarrow> bit w m \<or> m = n"
  by (auto simp: bit_simps)

lemma bit_set_pow: "n < 64 \<Longrightarrow> m < 64 \<Longrightarrow> bit (w OR 2 ^ n :: u64) m \<longleftrightarrow> bit w m \<or> m = n"
  using bit_set_word [of n m w] by simp

lemma set_bit_same: "n < 64 \<Longrightarrow> w OR push_bit n 1 = (w :: u64) \<longleftrightarrow> bit w n"
proof
  assume "w OR push_bit n 1 = w" and "n < 64"
  then show "bit w n" using bit_set_word [of n n w] by simp
next
  assume "bit w n" and "n < 64"
  then show "w OR push_bit n 1 = w"
    by (intro bit_word_eqI) (use bit_set_word [of n _ w] in auto)
qed

lemma ring_index_unique:
  assumes "a mod 128 = b mod 128" and "a \<le> h" "h \<le> a + 127" and "b \<le> h" "h \<le> b + (127 :: nat)"
  shows "a = b"
proof -
  have "a div 128 = b div 128 \<or> a div 128 = b div 128 + 1 \<or> b div 128 = a div 128 + 1"
    using assms(2-5) by linarith
  then show ?thesis
    using assms div_mult_mod_eq [of a 128] div_mult_mod_eq [of b 128] by (elim disjE) linarith+
qed

lemma clear_loop_no_wrap:
  "unat (drop_bit blockBitLog (x :: u64)) + 129 < 2 ^ 64"
  using unat_u64_less [of x] by (simp add: block_of_counter)

lemma length_clear_blocks [simp]: "length (clear_blocks n i r) = length r"
  by (induction n arbitrary: i r) auto

lemma clear_blocks_nth:
  assumes "length r = 128" and "unat i + n < 2 ^ 64" and "j < 128"
  shows "clear_blocks n i r ! j = (if \<exists>k < n. (unat i + k) mod 128 = j then 0 else r ! j)"
  using assms
proof (induction n arbitrary: i r)
  case 0
  then show ?case by simp
next
  case (Suc n)
  let ?r = "r[unat (i AND blockMask) := 0]"
  have next_i: "unat (i + 1) = unat i + 1"
    using Suc.prems(2) by (subst unat_add_lem [THEN iffD1]) (auto simp: unat_1)
  have "clear_blocks n (i + 1) ?r ! j =
      (if \<exists>k < n. (unat i + 1 + k) mod 128 = j then 0 else ?r ! j)"
    using Suc.IH [of ?r "i + 1"] Suc.prems by (simp add: next_i)
  moreover have "(\<exists>k < Suc n. (unat i + k) mod 128 = j) \<longleftrightarrow>
      unat i mod 128 = j \<or> (\<exists>k < n. (unat i + 1 + k) mod 128 = j)"
    by (auto simp: less_Suc_eq_0_disj)
  ultimately show ?case
    using Suc.prems by (auto simp: and_mask_mod nth_list_update)
qed

subsection \<open>One call is one step of the specification\<close>

lemma check_and_set_spec:
  assumes rel: "filter_rel f w" and le: "unat c \<le> highest w"
    and win: "highest w - unat c \<le> 8128"
  shows "snd (check_and_set f c) \<longleftrightarrow> unat c \<notin> accepted w"
    and "filter_rel (fst (check_and_set f c)) (w\<lparr>accepted := insert (unat c) (accepted w)\<rparr>)"
proof -
  let ?b = "unat c div 64 mod 128" and ?n = "unat c mod 64"
  let ?r = "f_ring f" and ?new = "f_ring f ! (unat c div 64 mod 128) OR push_bit (unat c mod 64) 1"
  have eq: "check_and_set f c = (f\<lparr>f_ring := ?r[?b := ?new]\<rparr>, ?r ! ?b \<noteq> ?new)"
    by (simp add: check_and_set_def Let_def and_mask_mod block_of_counter)
  have block: "unat c div 64 \<le> highest w div 64" "highest w div 64 \<le> unat c div 64 + 127"
    using le win by (auto simp: div_le_mono)
  have bitc: "bit (?r ! ?b) ?n \<longleftrightarrow> unat c \<in> accepted w"
    using rel block by (auto simp: filter_rel_def)
  show "snd (check_and_set f c) \<longleftrightarrow> unat c \<notin> accepted w"
    using bitc set_bit_same [of ?n "?r ! ?b"] by (auto simp: eq)
  have "bit (?r[?b := ?new] ! (x div 64 mod 128)) (x mod 64) \<longleftrightarrow>
      x = unat c \<or> x \<in> accepted w"
    if x: "x div 64 \<le> highest w div 64" "highest w div 64 \<le> x div 64 + 127" for x
  proof (cases "x div 64 mod 128 = ?b")
    case True
    have "x div 64 = unat c div 64"
      using ring_index_unique [OF True] x block by blast
    then have "x mod 64 = ?n \<longleftrightarrow> x = unat c"
      by (metis div_mult_mod_eq)
    then show ?thesis
      using True rel x by (auto simp: filter_rel_def bit_set_pow)
  next
    case False
    then have "x \<noteq> unat c" by auto
    with False show ?thesis using rel x by (auto simp: filter_rel_def)
  qed
  then show "filter_rel (fst (check_and_set f c)) (w\<lparr>accepted := insert (unat c) (accepted w)\<rparr>)"
    using rel le by (auto simp: filter_rel_def eq)
qed


lemma mod_hit: "j < 128 \<Longrightarrow> \<exists>k < 128. (a + k) mod 128 = j" for j :: nat
proof -
  assume j: "j < 128"
  let ?k = "(j + 128 - a mod 128) mod 128"
  have "(a + ?k) mod 128 = (a mod 128 + (j + 128 - a mod 128)) mod 128"
    by (simp only: mod_add_right_eq mod_add_left_eq)
  also have "a mod 128 + (j + 128 - a mod 128) = j + 128"
    using mod_less_divisor [of 128 a] by linarith
  finally show ?thesis using j by (intro exI [of _ ?k]) simp
qed

text \<open>Moving the window forward forgets the blocks it leaves and keeps the others.\<close>

lemma advance_window:
  assumes rel: "filter_rel f w" and gt: "highest w < unat c"
    and n: "n = min (unat c div 64 - highest w div 64) 128"
  shows "filter_rel
           (f\<lparr>f_last := c,
              f_ring := clear_blocks n (drop_bit blockBitLog (f_last f) + 1) (f_ring f)\<rparr>)
           (w\<lparr>highest := unat c\<rparr>)"
proof -
  let ?B = "highest w div 64" and ?i = "drop_bit blockBitLog (f_last f) + 1"
  have B: "unat (drop_bit blockBitLog (f_last f)) = ?B"
    using rel by (simp add: block_of_counter filter_rel_def)
  have small: "?B + 129 < 2 ^ 64"
    using clear_loop_no_wrap [of "f_last f"] B by simp
  then have i: "unat ?i = ?B + 1"
    using B by (subst unat_add_lem [THEN iffD1]) auto
  have nth: "clear_blocks n ?i (f_ring f) ! j =
      (if \<exists>k < n. (?B + 1 + k) mod 128 = j then 0 else f_ring f ! j)" if "j < 128" for j
  proof -
    have "n \<le> 128" by (simp add: n)
    then have "unat ?i + n < 2 ^ 64" unfolding i using small by linarith
    moreover have "length (f_ring f) = 128" using rel by (simp add: filter_rel_def)
    ultimately show ?thesis using clear_blocks_nth [of "f_ring f" ?i n j] that unfolding i by simp
  qed
  have "bit (clear_blocks n ?i (f_ring f) ! (x div 64 mod 128)) (x mod 64) = (x \<in> accepted w)"
    if x: "x div 64 \<le> unat c div 64" "unat c div 64 \<le> x div 64 + 127" for x
  proof (cases "x div 64 \<le> ?B")
    case True
    have "(?B + 1 + k) mod 128 \<noteq> x div 64 mod 128" if "k < n" for k
    proof
      assume eq: "(?B + 1 + k) mod 128 = x div 64 mod 128"
      have "?B + 1 + k = x div 64"
        using ring_index_unique [OF eq, of "unat c div 64"] that n True x by linarith
      with True show False by simp
    qed
    moreover have "?B \<le> x div 64 + 127"
      using x gt by (meson div_le_mono le_trans less_imp_le)
    ultimately show ?thesis
      using True rel by (auto simp: nth filter_rel_def)
  next
    case False
    have "x \<notin> accepted w"
      using False rel by (auto simp: filter_rel_def div_le_mono)
    moreover have "\<exists>k < n. (?B + 1 + k) mod 128 = x div 64 mod 128"
    proof (cases "n = 128")
      case True
      then show ?thesis using mod_hit [of "x div 64 mod 128" "?B + 1"] by simp
    next
      case False
      then have "n = unat c div 64 - ?B" using n by simp
      then show ?thesis
        using \<open>\<not> x div 64 \<le> ?B\<close> x by (intro exI [of _ "x div 64 - ?B - 1"] conjI) (linarith, simp)
    qed
    ultimately show ?thesis by (auto simp: nth)
  qed
  then show ?thesis
    using rel gt by (auto simp: filter_rel_def)
qed


lemma old_counter_not_later:
  "filter_rel f w \<Longrightarrow> highest w < c \<Longrightarrow> c \<notin> accepted w"
  by (auto simp: filter_rel_def)

text \<open>One call of the code is one step of the specification.\<close>

lemma ValidateCounter_step:
  assumes rel: "filter_rel f w"
  shows "filter_rel (fst (ValidateCounter f c l)) (spec_step w (unat c) (unat l))"
    and "snd (ValidateCounter f c l) = spec_accepts w (unat c) (unat l)"
proof -
  have hi: "highest w = unat (f_last f)" using rel by (simp add: filter_rel_def)
  consider (limit) "unat l \<le> unat c" | (ahead) "unat c < unat l" "highest w < unat c"
    | (stale) "unat c < unat l" "unat c \<le> highest w" "8128 < highest w - unat c"
    | (inside) "unat c < unat l" "unat c \<le> highest w" "highest w - unat c \<le> 8128"
    by linarith
  then have "filter_rel (fst (ValidateCounter f c l)) (spec_step w (unat c) (unat l)) \<and>
      snd (ValidateCounter f c l) = spec_accepts w (unat c) (unat l)"
  proof cases
    case limit
    then show ?thesis
      using rel by (simp add: ValidateCounter_def spec_step_def spec_accepts_def word_le_nat_alt)
  next
    case ahead
    let ?cur = "drop_bit blockBitLog (f_last f)" and ?d = "drop_bit blockBitLog c - drop_bit blockBitLog (f_last f)"
    let ?n = "unat (if ?d > ringBlocks then ringBlocks else ?d)"
    let ?f = "f\<lparr>f_last := c, f_ring := clear_blocks ?n (?cur + 1) (f_ring f)\<rparr>"
    have "?cur \<le> drop_bit blockBitLog c"
      using ahead hi by (simp add: word_le_nat_alt block_of_counter div_le_mono)
    then have "unat ?d = unat c div 64 - highest w div 64"
      using hi by (simp add: unat_sub block_of_counter)
    then have "?n = min (unat c div 64 - highest w div 64) 128"
      by (simp add: word_less_nat_alt unat_consts min_def)
    from advance_window [OF rel ahead(2) this]
    have "filter_rel ?f (w\<lparr>highest := unat c\<rparr>)" .
    from check_and_set_spec [OF this, of c] old_counter_not_later [OF rel ahead(2)]
    show ?thesis using ahead hi
      by (simp add: ValidateCounter_def Let_def word_le_nat_alt word_less_nat_alt spec_step_def
          spec_accepts_def max_def)
  next
    case stale
    then show ?thesis
      using rel hi by (simp add: ValidateCounter_def spec_step_def spec_accepts_def
          word_le_nat_alt word_less_nat_alt unat_sub unat_consts)
  next
    case inside
    have "w\<lparr>highest := unat (f_last f)\<rparr> = w"
      using hi by (cases w) simp
    then have upd: "w\<lparr>highest := unat (f_last f), accepted := X\<rparr> = w\<lparr>accepted := X\<rparr>" for X
      by (metis spec_window.surjective spec_window.update_convs)
    with check_and_set_spec [OF rel inside(2,3)] inside rel hi show ?thesis
      by (auto simp: ValidateCounter_def word_le_nat_alt word_less_nat_alt unat_sub unat_consts
          spec_step_def spec_accepts_def max_def insert_absorb upd)
  qed
  then show "filter_rel (fst (ValidateCounter f c l)) (spec_step w (unat c) (unat l))"
    and "snd (ValidateCounter f c l) = spec_accepts w (unat c) (unat l)" by simp_all
qed


lemma zero_filter_rel: "filter_rel zero_filter empty_window"
  by (simp add: filter_rel_def zero_filter_def empty_window_def)

lemma Reset_rel: "length (f_ring f) = 128 \<Longrightarrow> filter_rel (Reset f) empty_window"
  by (simp add: filter_rel_def Reset_def empty_window_def)

interpretation replay: step_refinement validate_call spec_call filter_rel
  by unfold_locales (simp_all add: validate_call_def spec_call_def ValidateCounter_step)

text \<open>The specification never accepts a counter twice.\<close>

definition window_inv :: "spec_window \<Rightarrow> bool" where
  "window_inv w \<longleftrightarrow> (\<forall>x \<in> accepted w. x \<le> highest w)"

interpretation window: step_invariant spec_call window_inv
  by unfold_locales (auto simp: window_inv_def spec_call_def spec_step_def le_max_iff_disj)

lemma accepted_grows:
  "x \<in> accepted w \<Longrightarrow> x \<in> accepted (fst (run_calls spec_call w cs))"
  by (induction cs arbitrary: w) (simp_all add: spec_call_def spec_step_def)

lemma spec_no_duplicates:
  assumes "window_inv w" "i < j" "j < length cs" "fst (cs ! i) = fst (cs ! j)"
    "snd (run_calls spec_call w cs) ! i"
  shows "\<not> snd (run_calls spec_call w cs) ! j"
proof -
  let ?w = "\<lambda>k. fst (run_calls spec_call w (take k cs))"
  have "unat (fst (cs ! i)) \<in> accepted (?w (Suc i))"
    using assms by (simp add: snd_run_calls_nth take_Suc_conv_app_nth fst_run_calls_append
        spec_call_def spec_step_def)
  then have "unat (fst (cs ! i)) \<in> accepted (fst (run_calls spec_call (?w (Suc i)) (take (j - Suc i) (drop (Suc i) cs))))"
    by (rule accepted_grows)
  moreover have "take (Suc i) cs @ take (j - Suc i) (drop (Suc i) cs) = take j cs"
    using assms(2) by (metis Suc_leI le_add_diff_inverse take_add)
  ultimately have "unat (fst (cs ! j)) \<in> accepted (?w j)"
    using assms(4) by (simp flip: fst_run_calls_append)
  moreover have "window_inv (?w j)"
    by (rule window.run_keeps [OF assms(1)])
  ultimately have "\<not> spec_accepts (?w j) (unat (fst (cs ! j))) l" for l
    by (auto simp: spec_accepts_def window_inv_def)
  then show ?thesis using assms(3) by (simp add: snd_run_calls_nth spec_call_def)
qed

subsection \<open>Properties\<close>

text \<open>C6: From an empty filter, the verdicts of any sequence of \<open>ValidateCounter\<close> calls are
  exactly those of the sliding window of RFC 6479: a counter is accepted when it is below the
  limit and either above every counter accepted so far, or at most 8128 (127 blocks of 64
  bits) below the highest one and not accepted before. The shifts, masks and the
  block-clearing loop of the ring buffer lose nothing and never accept a stale bit.\<close>

theorem ValidateCounter_refines_window:
  "snd (run_calls validate_call zero_filter cs) = snd (run_calls spec_call empty_window cs)"
  by (rule replay.all_results [OF zero_filter_rel])

text \<open>C24: No counter is accepted twice: of two calls with the same counter in any run from an
  empty filter, if the first is accepted the second is refused, whatever calls are in
  between.\<close>

theorem ValidateCounter_no_replay:
  assumes "i < j" and "j < length cs" and "fst (cs ! i) = fst (cs ! j)"
    and "snd (run_calls validate_call zero_filter cs) ! i"
  shows "\<not> snd (run_calls validate_call zero_filter cs) ! j"
  using assms spec_no_duplicates [of empty_window i j cs]
  by (simp add: replay.all_results [OF zero_filter_rel] window_inv_def empty_window_def)

theorem ValidateCounter_no_replay_witness:
  "\<not> snd (run_calls validate_call zero_filter [(5, 100), (70, 100), (5, 100)]) ! 2"
proof -
  have "snd (run_calls validate_call zero_filter [(5, 100), (70, 100), (5, 100)]) ! 0"
    by (simp add: validate_call_def ValidateCounter_def check_and_set_def zero_filter_def
        replay_consts Let_def)
  then show ?thesis
    using ValidateCounter_no_replay [of 0 2 "[(5, 100), (70, 100), (5, 100)]"] by simp
qed

text \<open>Property: \<open>Reset\<close> clears one block only, yet the filter it leaves answers every later
  sequence of calls as a new one would.\<close>

theorem Reset_as_new:
  assumes "length (f_ring f) = 128"
  shows "snd (run_calls validate_call (Reset f) cs) = snd (run_calls validate_call zero_filter cs)"
  using replay.same_results [OF Reset_rel [OF assms] zero_filter_rel] .

theorem Reset_as_new_witness:
  "snd (run_calls validate_call (Reset \<lparr>f_last = 700, f_ring = replicate 128 9\<rparr>) [(3, 8), (3, 8)]) =
     snd (run_calls validate_call zero_filter [(3, 8), (3, 8)])"
  by (rule Reset_as_new) simp

end
