(* ===== verification/Ratelimiter.thy ===== *)
theory Ratelimiter
  imports Runs "HOL-Library.AList"
begin

text \<open>
  The per-address rate limiter of handshake messages (src/ratelimiter/ratelimiter.go): a table
  of token buckets and the garbage collector that drops the idle ones.

  The state is the struct with its channel and ticker; times are nanoseconds of the clock
  \<open>timeNow\<close>, passed to each call. A Go panic (a nil map, a closed channel) is the result
  \<open>None\<close>. Calls are atomic: the two critical sections of \<open>Allow\<close> are one step.

  The specification is one bucket per address, full at the start and refilled by one token a
  nanosecond (\<open>spec_event\<close>); \<open>level\<close> reads it off the table. The collector is not part of
  it, so the refinement also shows that collecting an entry is never observable.
\<close>

subsection \<open>The code\<close>

definition packetsPerSecond :: int where
  "packetsPerSecond = 20"

definition packetsBurstable :: int where
  "packetsBurstable = 5"

definition garbageCollectTime :: int where
  "garbageCollectTime = 1000000000"

definition packetCost :: int where
  "packetCost = 1000000000 div packetsPerSecond"

definition maxTokens :: int where
  "maxTokens = packetCost * packetsBurstable"

lemmas rate_consts =
  packetsPerSecond_def packetsBurstable_def garbageCollectTime_def packetCost_def maxTokens_def

record RatelimiterEntry =
  lastTime :: int
  tokens :: int

datatype chan_state = NilChan | OpenChan | ClosedChan

text \<open>\<open>ticker\<close> says whether the collector's ticker runs; \<open>table\<close> is \<open>None\<close> before \<open>Init\<close>.\<close>

record 'ip Ratelimiter =
  stopReset :: chan_state
  ticker :: bool
  table :: "('ip \<times> RatelimiterEntry) list option"

definition zero_ratelimiter :: "'ip Ratelimiter" where
  "zero_ratelimiter = \<lparr>stopReset = NilChan, ticker = False, table = None\<rparr>"

definition Close :: "'ip Ratelimiter \<Rightarrow> 'ip Ratelimiter option" where
  "Close rate =
     (case stopReset rate of
        NilChan \<Rightarrow> Some rate
      | OpenChan \<Rightarrow> Some (rate\<lparr>stopReset := ClosedChan, ticker := False\<rparr>)
      | ClosedChan \<Rightarrow> None)"

definition Init :: "'ip Ratelimiter \<Rightarrow> 'ip Ratelimiter option" where
  "Init rate =
     (if stopReset rate = ClosedChan then None
      else Some (rate\<lparr>stopReset := OpenChan, ticker := False, table := Some []\<rparr>))"

definition cleanup :: "int \<Rightarrow> 'ip Ratelimiter \<Rightarrow> 'ip Ratelimiter \<times> bool" where
  "cleanup now rate =
     (let t = map_option (filter (\<lambda>(_, e). \<not> time_sub now (lastTime e) > garbageCollectTime))
                (table rate)
      in (rate\<lparr>table := t\<rparr>, t = None \<or> t = Some []))"

text \<open>The collector's \<open>case <-ticker.C\<close>: it fires only while the ticker runs.\<close>

definition gc_tick :: "int \<Rightarrow> 'ip Ratelimiter \<Rightarrow> 'ip Ratelimiter" where
  "gc_tick now rate =
     (if ticker rate
      then let (rate', empty) = cleanup now rate
           in (if empty then rate'\<lparr>ticker := False\<rparr> else rate')
      else rate)"

text \<open>The send on \<open>stopReset\<close>, which the collector answers by restarting its ticker.\<close>

definition send_reset :: "'ip Ratelimiter \<Rightarrow> 'ip Ratelimiter option" where
  "send_reset rate = (if stopReset rate = OpenChan then Some (rate\<lparr>ticker := True\<rparr>) else None)"

definition refill :: "int \<Rightarrow> RatelimiterEntry \<Rightarrow> RatelimiterEntry" where
  "refill now entry =
     (let t = wrap64 (tokens entry + time_sub now (lastTime entry))
      in entry\<lparr>tokens := (if t > maxTokens then maxTokens else t), lastTime := now\<rparr>)"

definition Allow :: "'ip \<Rightarrow> int \<Rightarrow> 'ip Ratelimiter \<Rightarrow> ('ip Ratelimiter \<times> bool) option" where
  "Allow ip now rate =
     (case Option.bind (table rate) (\<lambda>t. map_of t ip) of
        None \<Rightarrow>
          (case table rate of
             None \<Rightarrow> None
           | Some t \<Rightarrow>
               let t' = AList.update ip \<lparr>lastTime = now, tokens = maxTokens - packetCost\<rparr> t;
                   rate' = rate\<lparr>table := Some t'\<rparr>
               in if length t' = 1
                  then map_option (\<lambda>r. (r, True)) (send_reset rate')
                  else Some (rate', True))
      | Some entry \<Rightarrow>
          let e = refill now entry;
              put = (\<lambda>e. rate\<lparr>table := map_option (AList.update ip e) (table rate)\<rparr>)
          in if tokens e > packetCost
             then Some (put (e\<lparr>tokens := tokens e - packetCost\<rparr>), True)
             else Some (put e, False))"

text \<open>
  What happens to a limiter: time passes, the ticker fires, a packet of an address is judged.
\<close>

datatype 'ip rate_event = Wait nat | Tick | Packet 'ip

datatype rate_result = Quiet | Verdict bool | Panicked

fun rate_step :: "int \<times> 'ip Ratelimiter \<Rightarrow> 'ip rate_event \<Rightarrow> (int \<times> 'ip Ratelimiter) \<times> rate_result" where
  "rate_step (now, rate) (Wait d) = ((now + int d, rate), Quiet)"
| "rate_step (now, rate) Tick = ((now, gc_tick now rate), Quiet)"
| "rate_step (now, rate) (Packet ip) =
     (case Allow ip now rate of
        None \<Rightarrow> ((now, rate), Panicked)
      | Some (rate', ok) \<Rightarrow> ((now, rate'), Verdict ok))"

fun total_wait :: "'ip rate_event list \<Rightarrow> nat" where
  "total_wait [] = 0"
| "total_wait (Wait d # es) = d + total_wait es"
| "total_wait (_ # es) = total_wait es"

subsection \<open>The specification: one token bucket per address\<close>

fun spec_event :: "int \<times> ('ip \<Rightarrow> int) \<Rightarrow> 'ip rate_event \<Rightarrow> (int \<times> ('ip \<Rightarrow> int)) \<times> rate_result" where
  "spec_event (now, l) (Wait d) = ((now + int d, \<lambda>ip. min maxTokens (l ip + int d)), Quiet)"
| "spec_event (now, l) Tick = ((now, l), Quiet)"
| "spec_event (now, l) (Packet ip) =
     (if l ip > packetCost then ((now, l(ip := l ip - packetCost)), Verdict True)
      else ((now, l), Verdict False))"

definition full_buckets :: "int \<times> ('ip \<Rightarrow> int)" where
  "full_buckets = (0, \<lambda>_. maxTokens)"

definition level :: "int \<Rightarrow> 'ip Ratelimiter \<Rightarrow> 'ip \<Rightarrow> int" where
  "level now rate ip =
     (case map_of (the (table rate)) ip of
        None \<Rightarrow> maxTokens
      | Some e \<Rightarrow> min maxTokens (tokens e + (now - lastTime e)))"

definition entry_ok :: "int \<Rightarrow> RatelimiterEntry \<Rightarrow> bool" where
  "entry_ok now e \<longleftrightarrow> 0 \<le> tokens e \<and> tokens e \<le> maxTokens \<and> 0 \<le> lastTime e \<and> lastTime e \<le> now"

definition rate_inv :: "int \<Rightarrow> 'ip Ratelimiter \<Rightarrow> bool" where
  "rate_inv now rate \<longleftrightarrow> now < 2 ^ 62 \<and> stopReset rate = OpenChan \<and>
     (\<exists>t. table rate = Some t \<and> distinct (map fst t) \<and> (ticker rate \<longleftrightarrow> t \<noteq> []) \<and>
          (\<forall>(ip, e) \<in> set t. entry_ok now e))"

fun rate_rel :: "int \<times> 'ip Ratelimiter \<Rightarrow> int \<times> ('ip \<Rightarrow> int) \<Rightarrow> bool" where
  "rate_rel (now, rate) (now', l) \<longleftrightarrow> now' = now \<and> 0 \<le> now \<and> rate_inv now rate \<and> l = level now rate"

fun clock_ok :: "int \<times> ('ip \<Rightarrow> int) \<Rightarrow> 'ip rate_event \<Rightarrow> bool" where
  "clock_ok (now, l) (Wait d) \<longleftrightarrow> now + int d < 2 ^ 62"
| "clock_ok (now, l) _ \<longleftrightarrow> True"

subsection \<open>Simulation\<close>

lemma time_sub_exact: "0 \<le> u \<Longrightarrow> u \<le> t \<Longrightarrow> t < 2 ^ 62 \<Longrightarrow> time_sub t u = t - u"
  by (simp add: time_sub_def)

lemma refill_spec:
  assumes "entry_ok now e" "now < 2 ^ 62"
  shows "refill now e = \<lparr>lastTime = now, tokens = min maxTokens (tokens e + (now - lastTime e))\<rparr>"
proof -
  have "time_sub now (lastTime e) = now - lastTime e"
    using assms by (intro time_sub_exact) (auto simp: entry_ok_def)
  moreover have "wrap64 (tokens e + (now - lastTime e)) = tokens e + (now - lastTime e)"
    using assms by (intro wrap64_id) (auto simp: entry_ok_def rate_consts)
  ultimately show ?thesis by (cases e) (simp add: refill_def min_def Let_def)
qed

lemma wait_sim: "rate_inv now rate \<Longrightarrow> now + int d < 2 ^ 62 \<Longrightarrow> rate_inv (now + int d) rate"
  by (fastforce simp: rate_inv_def entry_ok_def)

lemma wait_level:
  "level (now + int d) rate ip = min maxTokens (level now rate ip + int d)"
  by (auto simp: level_def split: option.splits)

lemma gc_tick_inv: "rate_inv now rate \<Longrightarrow> rate_inv now (gc_tick now rate)"
  by (auto simp: rate_inv_def gc_tick_def cleanup_def Let_def distinct_map_filter split: if_splits)

lemma gc_tick_level:
  assumes "rate_inv now rate"
  shows "level now (gc_tick now rate) = level now rate"
proof (cases "ticker rate")
  case True
  obtain t where t: "table rate = Some t" "distinct (map fst t)" "\<forall>(ip, e) \<in> set t. entry_ok now e"
    using assms by (auto simp: rate_inv_def)
  let ?P = "\<lambda>(ip, e). \<not> time_sub now (lastTime e) > garbageCollectTime"
  have tab: "table (gc_tick now rate) = Some (filter ?P t)"
    using True t by (simp add: gc_tick_def cleanup_def Let_def split_beta)
  have gone: "maxTokens \<le> tokens e + (now - lastTime e)"
    if "map_of t ip = Some e" "map_of (filter ?P t) ip = None" for ip e
  proof -
    have mem: "(ip, e) \<in> set t" using that(1) by (rule map_of_SomeD)
    with that(2) have "time_sub now (lastTime e) > garbageCollectTime"
      by (auto simp: map_of_eq_None_iff image_iff)
    moreover have ok: "entry_ok now e" using t(3) mem by auto
    ultimately show ?thesis
      using assms by (simp add: time_sub_exact entry_ok_def rate_inv_def rate_consts)
  qed
  have kept: "map_of t ip = Some e" if "map_of (filter ?P t) ip = Some e" for ip e
    using that t(2) by (auto dest!: map_of_SomeD intro!: map_of_is_SomeI)
  show ?thesis
  proof
    fix ip
    show "level now (gc_tick now rate) ip = level now rate ip"
      using gone [of ip] kept [of ip]
      by (auto simp: level_def tab t(1) min_def split: option.splits)
  qed
qed (simp add: gc_tick_def)

lemma update_nil [simp]: "AList.update k v t \<noteq> []"
  by (cases t) auto

lemma length_update_one: "map_of t ip = None \<Longrightarrow> length (AList.update ip e t) = Suc (length t)"
  by (induction t) (auto split: if_splits)

lemma entry_ok_update:
  "\<forall>(ip, e) \<in> set t. entry_ok now e \<Longrightarrow> entry_ok now e' \<Longrightarrow>
     \<forall>(ip, e) \<in> set (AList.update k e' t). entry_ok now e"
  by (induction t) auto

lemma Allow_new:
  assumes inv: "rate_inv now rate" "0 \<le> now" and none: "map_of (the (table rate)) ip = None"
  shows "\<exists>rate'. Allow ip now rate = Some (rate', True) \<and> rate_inv now rate' \<and>
    level now rate' = (level now rate)(ip := level now rate ip - packetCost) \<and>
    level now rate ip > packetCost"
proof -
  obtain t where t: "table rate = Some t" "distinct (map fst t)" "ticker rate \<longleftrightarrow> t \<noteq> []"
      "\<forall>(ip, e) \<in> set t. entry_ok now e" "stopReset rate = OpenChan" "now < 2 ^ 62"
    using inv by (auto simp: rate_inv_def)
  let ?e = "\<lparr>lastTime = now, tokens = maxTokens - packetCost\<rparr>"
  let ?r = "rate\<lparr>table := Some (AList.update ip ?e t), ticker := True\<rparr>"
  have "Allow ip now rate = Some (?r, True)"
    using none t
    by (cases t) (auto simp: Allow_def send_reset_def Let_def length_update_one split: option.splits)
  moreover have "entry_ok now ?e" using inv(2) by (simp add: entry_ok_def rate_consts)
  then have "rate_inv now ?r"
    using t by (simp add: rate_inv_def entry_ok_update distinct_update)
  moreover have "level now ?r = (level now rate)(ip := level now rate ip - packetCost)"
    using none t(1) by (auto simp: level_def update_conv' rate_consts fun_eq_iff)
  moreover have "level now rate ip > packetCost" using none by (simp add: level_def rate_consts)
  ultimately show ?thesis by blast
qed

lemma Allow_known:
  assumes inv: "rate_inv now rate" and some: "map_of (the (table rate)) ip = Some e"
  shows "\<exists>rate'. Allow ip now rate = Some (rate', level now rate ip > packetCost) \<and>
    rate_inv now rate' \<and>
    level now rate' = (if level now rate ip > packetCost
      then (level now rate)(ip := level now rate ip - packetCost) else level now rate)"
proof -
  obtain t where t: "table rate = Some t" "distinct (map fst t)" "ticker rate \<longleftrightarrow> t \<noteq> []"
      "\<forall>(ip, e) \<in> set t. entry_ok now e" "stopReset rate = OpenChan" "now < 2 ^ 62"
    using inv by (auto simp: rate_inv_def)
  have mem: "(ip, e) \<in> set t" using some t(1) by (auto dest: map_of_SomeD)
  with t have ok: "entry_ok now e" by auto
  have lev: "level now rate ip = min maxTokens (tokens e + (now - lastTime e))"
    using some by (simp add: level_def)
  define e' where "e' = \<lparr>lastTime = now, tokens =
    (if level now rate ip > packetCost then level now rate ip - packetCost else level now rate ip)\<rparr>"
  let ?r = "rate\<lparr>table := Some (AList.update ip e' t)\<rparr>"
  have "Allow ip now rate = Some (?r, level now rate ip > packetCost)"
    using some t(1) lev refill_spec [OF ok t(6)] by (auto simp: Allow_def e'_def Let_def)
  moreover have "entry_ok now e'"
    using ok by (auto simp: entry_ok_def e'_def lev rate_consts)
  then have "rate_inv now ?r"
    using t mem by (auto simp: rate_inv_def entry_ok_update distinct_update)
  moreover have "level now ?r = (if level now rate ip > packetCost
      then (level now rate)(ip := level now rate ip - packetCost) else level now rate)"
    using some t(1) lev
    by (auto simp: level_def update_conv' e'_def rate_consts fun_eq_iff)
  ultimately show ?thesis by blast
qed

lemma rate_step_sim:
  assumes "rate_rel s a" "clock_ok a x"
  shows "rate_rel (fst (rate_step s x)) (fst (spec_event a x)) \<and>
    snd (rate_step s x) = snd (spec_event a x)"
proof -
  obtain now rate where s: "s = (now, rate)" by force
  have a: "a = (now, level now rate)" and now: "0 \<le> now" and inv: "rate_inv now rate"
    using assms(1) by (cases a; simp add: s)+
  show ?thesis
  proof (cases x)
    case (Wait d)
    then show ?thesis using assms(2) now inv by (simp add: s a wait_sim wait_level fun_eq_iff)
  next
    case Tick
    then show ?thesis using now inv by (simp add: s a gc_tick_inv gc_tick_level)
  next
    case (Packet ip)
    show ?thesis
    proof (cases "map_of (the (table rate)) ip")
      case None
      from Allow_new [OF inv now this] show ?thesis using Packet now by (auto simp: s a)
    next
      case (Some e)
      from Allow_known [OF inv this] show ?thesis using Packet now by (auto simp: s a)
    qed
  qed
qed

interpretation limiter: guarded_refinement rate_step spec_event rate_rel clock_ok
  by unfold_locales (simp_all add: rate_step_sim)

lemma clock_run_ok:
  "0 \<le> now \<Longrightarrow> now + int (total_wait es) < 2 ^ 62 \<Longrightarrow> run_ok spec_event clock_ok (now, l) es"
proof (induction es arbitrary: now l)
  case (Cons x es)
  then show ?case by (cases x) (auto split: if_splits)
qed simp

lemma started_rel: "Init zero_ratelimiter = Some rate \<Longrightarrow> rate_rel (0, rate) full_buckets"
  by (auto simp: Init_def zero_ratelimiter_def full_buckets_def rate_inv_def level_def)

lemmas started_results =
  limiter.run_results [OF started_rel, unfolded full_buckets_def, OF _ clock_run_ok,
    folded full_buckets_def]

subsection \<open>What the buckets bound\<close>

definition allowed :: "'ip \<Rightarrow> 'ip rate_event list \<Rightarrow> rate_result list \<Rightarrow> nat" where
  "allowed ip es rs = length (filter (\<lambda>(e, r). e = Packet ip \<and> r = Verdict True) (zip es rs))"

lemma allowed_simps [simp]:
  "allowed ip [] rs = 0"
  "allowed ip (e # es) (r # rs) =
     (if e = Packet ip \<and> r = Verdict True then 1 else 0) + allowed ip es rs"
  by (auto simp: allowed_def)

lemma bucket_accounting:
  "packetCost * int (allowed ip es (snd (run_calls spec_event (now, l) es))) +
     snd (fst (run_calls spec_event (now, l) es)) ip \<le> l ip + int (total_wait es)"
proof (induction es arbitrary: now l)
  case (Cons x es)
  show ?case
  proof (cases x)
    case (Wait d)
    then show ?thesis
      using Cons.IH [of "now + int d" "\<lambda>ip. min maxTokens (l ip + int d)"] by simp
  next
    case Tick
    then show ?thesis using Cons.IH [of now l] by simp
  next
    case (Packet ip')
    define l' where "l' = l(ip' := l ip' - packetCost)"
    have l': "l' ip = (if ip = ip' then l ip - packetCost else l ip)" by (simp add: l'_def)
    show ?thesis
    proof (cases "packetCost < l ip'")
      case True
      then have "spec_event (now, l) x = ((now, l'), Verdict True)"
        by (simp add: Packet l'_def)
      then show ?thesis
        using Cons.IH [of now l'] l' by (auto simp: Packet algebra_simps rate_consts split: if_splits)
    next
      case False
      then show ?thesis using Cons.IH [of now l] by (simp add: Packet)
    qed
  qed
qed simp

definition bucket_inv :: "int \<times> ('ip \<Rightarrow> int) \<Rightarrow> bool" where
  "bucket_inv a \<longleftrightarrow> (\<forall>ip. 0 < snd a ip \<and> snd a ip \<le> maxTokens)"

interpretation bucket: step_invariant spec_event bucket_inv
proof
  fix s :: "int \<times> ('a \<Rightarrow> int)" and x :: "'a rate_event"
  assume "bucket_inv s"
  then have pos: "0 < snd s ip" and top: "snd s ip \<le> maxTokens" for ip
    by (simp_all add: bucket_inv_def)
  show "bucket_inv (fst (spec_event s x))"
  proof (cases x)
    case (Packet ip)
    have "snd s ip \<le> 300000000" using top [of ip] by (simp add: rate_consts)
    with Packet show ?thesis
      using pos top by (cases s) (auto simp: bucket_inv_def rate_consts)
  qed (use pos top in \<open>cases s; auto simp: bucket_inv_def add_pos_nonneg rate_consts\<close>)+
qed

lemma full_bucket_inv: "bucket_inv full_buckets"
  by (simp add: bucket_inv_def full_buckets_def rate_consts)

subsection \<open>Properties\<close>

text \<open>C11: The rate limiter is a token bucket per address. After \<open>Init\<close>, for any sequence of
  packets, pauses and garbage collections spanning less than \<open>2^62\<close> nanoseconds, \<open>Allow\<close>
  never panics and gives the verdicts of buckets that start full, gain a token a nanosecond
  up to \<open>maxTokens\<close> and pay \<open>packetCost\<close> a packet; the collection of idle entries is not
  observable.\<close>

theorem Allow_refines_token_bucket:
  assumes "Init zero_ratelimiter = Some rate" and "int (total_wait es) < 2 ^ 62"
  shows "snd (run_calls rate_step (0, rate) es) = snd (run_calls spec_event full_buckets es)"
  using assms by (simp add: started_results)

theorem Allow_refines_token_bucket_witness:
  "snd (run_calls rate_step (0, the (Init zero_ratelimiter)) [Packet (7::nat), Wait 5, Tick, Packet 7]) =
     snd (run_calls spec_event full_buckets [Packet (7::nat), Wait 5, Tick, Packet 7])"
  by (rule Allow_refines_token_bucket) (simp_all add: Init_def zero_ratelimiter_def)

text \<open>C25: An address is never granted more than its burst plus its rate: over any run, the
  packets allowed for it cost strictly less than \<open>maxTokens\<close> plus the time that passed, so
  at most 4 at one instant and 20 more a second.\<close>

theorem Allow_rate_bound:
  assumes "Init zero_ratelimiter = Some rate" and "int (total_wait es) < 2 ^ 62"
  shows "packetCost * int (allowed ip es (snd (run_calls rate_step (0, rate) es)))
    < maxTokens + int (total_wait es)"
proof -
  have "0 < snd (fst (run_calls spec_event full_buckets es)) ip"
    using bucket.run_keeps [OF full_bucket_inv, of es] by (simp add: bucket_inv_def)
  then show ?thesis
    using bucket_accounting [of ip es 0 "\<lambda>_. maxTokens"] assms
    by (simp add: started_results flip: full_buckets_def)
qed

theorem Allow_rate_bound_witness:
  "packetCost * int (allowed 7 [Packet (7::nat), Packet 7, Wait 3]
     (snd (run_calls rate_step (0, the (Init zero_ratelimiter)) [Packet (7::nat), Packet 7, Wait 3])))
     < maxTokens + int (total_wait [Packet (7::nat), Packet 7, Wait 3])"
  by (rule Allow_rate_bound) (simp_all add: Init_def zero_ratelimiter_def)

text \<open>C26: No address starves: whatever happened before, a packet of an address is allowed once
  \<open>packetCost\<close> nanoseconds (50 ms) passed since the last event.\<close>

theorem Allow_after_pause:
  assumes "Init zero_ratelimiter = Some rate" and "packetCost \<le> int d"
    and "int (total_wait (es @ [Wait d])) < 2 ^ 62"
  shows "last (snd (run_calls rate_step (0, rate) (es @ [Wait d, Packet ip]))) = Verdict True"
proof -
  let ?a = "fst (run_calls spec_event full_buckets es)"
  have tw: "total_wait (es @ [Wait d, Packet ip]) = total_wait (es @ [Wait d])"
    by (induction es rule: total_wait.induct) auto
  have "0 < snd ?a ip"
    using bucket.run_keeps [OF full_bucket_inv, of es] by (simp add: bucket_inv_def)
  then have "min maxTokens (snd ?a ip + int d) > packetCost"
    using assms(2) by (simp add: rate_consts)
  then show ?thesis
    using started_results [OF assms(1), of "es @ [Wait d, Packet ip]"] assms(3)
    by (cases ?a) (auto simp: snd_run_calls_append tw)
qed

theorem Allow_after_pause_witness:
  "last (snd (run_calls rate_step (0, the (Init zero_ratelimiter))
     ([Packet (7::nat), Packet 7] @ [Wait 50000000, Packet 7]))) = Verdict True"
  by (rule Allow_after_pause) (simp_all add: Init_def zero_ratelimiter_def rate_consts)

end
