(* ===== verification/Tai64n.thy ===== *)
theory Tai64n
  imports GoPrelude
begin

text \<open>
  The TAI64N timestamps of the handshake initiation (src/tai64n/tai64n.go). A time is its Unix
  seconds and its nanoseconds within the second; a stamp is the twelve bytes of the wire. The
  lemmas show that comparing stamps as byte strings compares the times, up to the 24 low bits
  of the nanoseconds that the whitener hides.
\<close>

record time =
  unix :: int
  nanosecond :: nat

definition time_ok :: "time \<Rightarrow> bool" where
  "time_ok t \<longleftrightarrow> 0 \<le> unix t \<and> unix t < 2 ^ 62 \<and> nanosecond t < 1000000000"

definition base :: u64 where
  "base = 0x400000000000000a"

definition whitenerMask :: u32 where
  "whitenerMask = 0x1000000 - 1"

definition stamp :: "time \<Rightarrow> bytes" where
  "stamp t =
     (let secs = base + of_int (unix t);
          nano = of_nat (nanosecond t) AND NOT whitenerMask
      in put_be64 secs @ put_be32 nano)"

definition After :: "bytes \<Rightarrow> bytes \<Rightarrow> bool" where
  "After t1 t2 \<longleftrightarrow> bytes_compare t1 t2 > 0"

text \<open>The time that \<open>String\<close> prints: \<open>time.Unix\<close> of the two fields.\<close>

definition stamp_time :: "bytes \<Rightarrow> time" where
  "stamp_time b =
     \<lparr>unix = sint (get_be64 b - base), nanosecond = unat (get_be32 (drop 8 b))\<rparr>"

lemma length_stamp [simp, go_len]: "length (stamp t) = 12"
  by (simp add: stamp_def Let_def)

lemma whitened: "unat (n AND NOT whitenerMask) = unat n div 2 ^ 24 * 2 ^ 24"
proof -
  have "n AND NOT whitenerMask = n AND NOT (mask 24)"
    by (simp add: whitenerMask_def mask_eq_exp_minus_1)
  also have "\<dots> = push_bit 24 (drop_bit 24 n)"
    by (rule bit_word_eqI) (auto simp: bit_simps)
  also have "\<dots> = n div 2 ^ 24 * 2 ^ 24"
    by (simp add: push_bit_eq_mult drop_bit_eq_div)
  finally have "n AND NOT whitenerMask = n div 2 ^ 24 * 2 ^ 24" .
  moreover have "unat n div 2 ^ 24 * 2 ^ 24 < 2 ^ 32"
    using div_times_less_eq_dividend [of "unat n" "2 ^ 24"] unat_u32_less [of n] by linarith
  ultimately show ?thesis
    by (simp add: unat_div unat_mult_lem [THEN iffD1])
qed

lemma secs_field:
  assumes "time_ok t"
  shows "unat (base + of_int (unix t) :: u64) = 4611686018427387914 + nat (unix t)"
proof -
  have "(of_int (unix t) :: u64) = of_nat (nat (unix t))"
    using assms by (simp add: time_ok_def)
  moreover have "unat (of_nat (nat (unix t)) :: u64) = nat (unix t)"
    using assms by (intro unat_of_nat_id) (simp add: time_ok_def nat_less_iff)
  ultimately show ?thesis
    using assms by (subst unat_add_lem [THEN iffD1]) (auto simp: base_def time_ok_def nat_less_iff)
qed

lemma nano_field:
  "time_ok t \<Longrightarrow> unat (of_nat (nanosecond t) AND NOT whitenerMask :: u32) = nanosecond t div 2 ^ 24 * 2 ^ 24"
  by (simp add: whitened time_ok_def unat_of_nat_id)

lemma get_be_stamp:
  "time_ok t \<Longrightarrow> get_be (stamp t) =
     (4611686018427387914 + nat (unix t)) * 2 ^ 32 + nanosecond t div 2 ^ 24 * 2 ^ 24"
  using unat_u64_less [of "base + of_int (unix t)"]
    unat_u32_less [of "of_nat (nanosecond t) AND NOT whitenerMask"]
  by (simp add: stamp_def Let_def get_be_append binary_defs get_put_be secs_field nano_field)

lemma stamp_order:
  assumes "time_ok t" "time_ok u"
  shows "get_be (stamp u) < get_be (stamp t) \<longleftrightarrow>
    unix u < unix t \<or> unix u = unix t \<and> nanosecond u div 2 ^ 24 < nanosecond t div 2 ^ 24"
proof -
  have small: "nanosecond x div 2 ^ 24 * 2 ^ 24 < 2 ^ 32" if "time_ok x" for x
  proof -
    have "nanosecond x < 1000000000" using that by (simp add: time_ok_def)
    also have "\<dots> < (2 ^ 32 :: nat)" by simp
    finally show ?thesis using div_times_less_eq_dividend le_less_trans by blast
  qed
  have "0 \<le> unix t" "0 \<le> unix u" using assms by (simp_all add: time_ok_def)
  then show ?thesis
    using small [OF assms(1)] small [OF assms(2)] by (simp add: get_be_stamp assms) linarith
qed

subsection \<open>Properties\<close>

text \<open>C27: For times between 1970 and \<open>2^62\<close> seconds later, the byte comparison of
  \<open>After\<close> orders stamps as the times they stamp: one is after the other when its second is
  later, or the second is the same and the nanoseconds differ above the 24 whitened bits.
  A stamp is never after itself and never after the stamp of a later time.\<close>

theorem After_orders_times:
  assumes "time_ok t" and "time_ok u"
  shows "After (stamp t) (stamp u) \<longleftrightarrow>
    unix u < unix t \<or> unix u = unix t \<and> nanosecond u div 2 ^ 24 < nanosecond t div 2 ^ 24"
  unfolding stamp_order [OF assms, symmetric] by (simp add: After_def bytes_compare_get_be)

theorem After_orders_times_witness:
  "After (stamp \<lparr>unix = 1700000000, nanosecond = 20000000\<rparr>)
         (stamp \<lparr>unix = 1700000000, nanosecond = 3\<rparr>)"
  by (subst After_orders_times) (simp_all add: time_ok_def)

text \<open>Property: The time that \<open>String\<close> prints from a stamp is the stamped time with the whitened bits
  of its nanoseconds cleared.\<close>

theorem stamp_time_roundtrip:
  assumes "time_ok t"
  shows "stamp_time (stamp t) = t\<lparr>nanosecond := nanosecond t div 2 ^ 24 * 2 ^ 24\<rparr>"
proof -
  have "sint (of_int (unix t) :: u64) = unix t"
    using assms by (simp add: signed_of_int signed_take_bit_int_eq_self time_ok_def)
  then show ?thesis
    using assms by (simp add: stamp_time_def stamp_def Let_def nano_field)
qed

theorem stamp_time_roundtrip_witness:
  "stamp_time (stamp \<lparr>unix = 1700000000, nanosecond = 16777219\<rparr>) =
     \<lparr>unix = 1700000000, nanosecond = 16777216\<rparr>"
  by (subst stamp_time_roundtrip) (simp_all add: time_ok_def)

end
