(* ===== verification/Crypto.thy ===== *)
theory Crypto
  imports GoPrelude
begin

text \<open>
  The primitives of golang.org/x/crypto that the program calls are parameters of the model,
  the fields of one record. \<open>crypto_ok\<close> states what their documentation promises and the
  properties rely on: sizes, that opening undoes sealing, and that the two sides of a
  Diffie-Hellman exchange agree. \<open>hmac\<close> is \<open>crypto/hmac\<close> of the standard library over
  BLAKE2s. \<open>demo_crypto\<close> is an instance, insecure but lawful, at which witnesses evaluate.
\<close>

record Crypto =
  blake2s_256 :: "bytes \<Rightarrow> bytes"
  blake2s_128 :: "bytes \<Rightarrow> bytes \<Rightarrow> bytes"
  aead_seal :: "bytes \<Rightarrow> bytes \<Rightarrow> bytes \<Rightarrow> bytes \<Rightarrow> bytes"
  aead_open :: "bytes \<Rightarrow> bytes \<Rightarrow> bytes \<Rightarrow> bytes \<Rightarrow> bytes option"
  xaead_seal :: "bytes \<Rightarrow> bytes \<Rightarrow> bytes \<Rightarrow> bytes \<Rightarrow> bytes"
  xaead_open :: "bytes \<Rightarrow> bytes \<Rightarrow> bytes \<Rightarrow> bytes \<Rightarrow> bytes option"
  scalar_mult :: "bytes \<Rightarrow> bytes \<Rightarrow> bytes"
  scalar_base :: "bytes \<Rightarrow> bytes"
  chacha20_stream :: "bytes \<Rightarrow> bytes \<Rightarrow> nat \<Rightarrow> bytes"

text \<open>
  Arguments: \<open>blake2s_128 key data\<close>; \<open>aead_seal key nonce plaintext ad\<close> and
  \<open>aead_open key nonce ciphertext ad\<close> (ChaCha20-Poly1305, and XChaCha20-Poly1305 for the
  \<open>x\<close> forms); \<open>scalar_mult secret public\<close>; \<open>chacha20_stream key nonce n\<close>, the first \<open>n\<close>
  bytes of the key stream.
\<close>

definition hash_ok :: "Crypto \<Rightarrow> bool" where
  "hash_ok C \<longleftrightarrow> (\<forall>x. length (blake2s_256 C x) = 32) \<and> (\<forall>k x. length (blake2s_128 C k x) = 16)"

definition aead_ok :: "Crypto \<Rightarrow> bool" where
  "aead_ok C \<longleftrightarrow>
     (\<forall>k n p ad. length (aead_seal C k n p ad) = length p + 16) \<and>
     (\<forall>k n p ad. aead_open C k n (aead_seal C k n p ad) ad = Some p)"

definition xaead_ok :: "Crypto \<Rightarrow> bool" where
  "xaead_ok C \<longleftrightarrow>
     (\<forall>k n p ad. length (xaead_seal C k n p ad) = length p + 16) \<and>
     (\<forall>k n p ad. xaead_open C k n (xaead_seal C k n p ad) ad = Some p)"

definition dh_ok :: "Crypto \<Rightarrow> bool" where
  "dh_ok C \<longleftrightarrow>
     (\<forall>a. length (scalar_base C a) = 32) \<and> (\<forall>a b. length (scalar_mult C a b) = 32) \<and>
     (\<forall>a b. scalar_mult C a (scalar_base C b) = scalar_mult C b (scalar_base C a))"

definition stream_ok :: "Crypto \<Rightarrow> bool" where
  "stream_ok C \<longleftrightarrow>
     (\<forall>k n l. length (chacha20_stream C k n l) = l) \<and>
     (\<forall>k n l m. take m (chacha20_stream C k n (m + l)) = chacha20_stream C k n m)"

definition crypto_ok :: "Crypto \<Rightarrow> bool" where
  "crypto_ok C \<longleftrightarrow> hash_ok C \<and> aead_ok C \<and> xaead_ok C \<and> dh_ok C \<and> stream_ok C"

lemma crypto_laws:
  assumes "crypto_ok C"
  shows "length (blake2s_256 C x) = 32" "length (blake2s_128 C k x) = 16"
    "length (aead_seal C k n p ad) = length p + 16"
    "aead_open C k n (aead_seal C k n p ad) ad = Some p"
    "length (xaead_seal C k n p ad) = length p + 16"
    "xaead_open C k n (xaead_seal C k n p ad) ad = Some p"
    "length (scalar_base C a) = 32" "length (scalar_mult C a b) = 32"
    "length (chacha20_stream C k n l) = l"
    "take m (chacha20_stream C k n (m + l)) = chacha20_stream C k n m"
  using assms
  by (simp_all add: crypto_ok_def hash_ok_def aead_ok_def xaead_ok_def dh_ok_def stream_ok_def)

lemma dh_agree:
  "crypto_ok C \<Longrightarrow> scalar_mult C a (scalar_base C b) = scalar_mult C b (scalar_base C a)"
  by (simp add: crypto_ok_def dh_ok_def)

subsection \<open>HMAC\<close>

text \<open>\<open>hmac.New\<close>, \<open>Write\<close> and \<open>Sum\<close> with a hash of block size 64.\<close>

definition hmac :: "Crypto \<Rightarrow> bytes \<Rightarrow> bytes \<Rightarrow> bytes" where
  "hmac C key input =
     (let k = (if length key > 64 then blake2s_256 C key else key);
          k = k @ replicate (64 - length k) 0;
          inner = blake2s_256 C (map (\<lambda>b. b XOR 0x36) k @ input)
      in blake2s_256 C (map (\<lambda>b. b XOR 0x5c) k @ inner))"

lemma length_hmac: "crypto_ok C \<Longrightarrow> length (hmac C k x) = 32"
  by (simp add: hmac_def Let_def crypto_laws)

subsection \<open>A lawful instance\<close>

definition pad_to :: "nat \<Rightarrow> bytes \<Rightarrow> bytes" where
  "pad_to n b = take n (b @ replicate n 1)"

lemma length_pad_to [simp]: "length (pad_to n b) = n"
  by (simp add: pad_to_def)

definition demo_crypto :: Crypto where
  "demo_crypto =
     \<lparr>blake2s_256 = (\<lambda>x. pad_to 32 (rev x)),
      blake2s_128 = (\<lambda>k x. pad_to 16 (rev x @ k)),
      aead_seal = (\<lambda>k n p ad. p @ pad_to 16 (k @ n)),
      aead_open = (\<lambda>k n c ad. if length c < 16 then None
                     else if drop (length c - 16) c = pad_to 16 (k @ n)
                     then Some (take (length c - 16) c) else None),
      xaead_seal = (\<lambda>k n p ad. p @ pad_to 16 (k @ n)),
      xaead_open = (\<lambda>k n c ad. if length c < 16 then None
                     else if drop (length c - 16) c = pad_to 16 (k @ n)
                     then Some (take (length c - 16) c) else None),
      scalar_mult = (\<lambda>a b. map2 (OR) (pad_to 32 a) (pad_to 32 b)),
      scalar_base = (\<lambda>a. pad_to 32 a),
      chacha20_stream = (\<lambda>k n l. pad_to l (k @ n))\<rparr>"

lemma map2_or_commute: "map2 (OR) (xs :: bytes) ys = map2 (OR) ys xs"
  by (induction xs ys rule: list_induct2') (auto simp: or.commute)

lemma pad_to_idem [simp]: "pad_to n (pad_to n b) = pad_to n b"
  by (simp add: pad_to_def)

lemma pad_to_prefix: "take m (pad_to (m + l) b) = pad_to m b"
  by (simp add: pad_to_def take_replicate min_def)

lemma demo_crypto_ok: "crypto_ok demo_crypto"
  by (simp add: pad_to_prefix crypto_ok_def hash_ok_def aead_ok_def xaead_ok_def dh_ok_def stream_ok_def
      demo_crypto_def map2_or_commute)

end
