(* ===== verification/NoiseHelpers.thy ===== *)
theory NoiseHelpers
  imports Crypto
begin

text \<open>
  The key derivation and key helpers of the two handshakes: src/device/noise-helpers.go, and the
  standalone copies in src/orchestrate/control/kdf.go and keys.go. The last lemmas show that the
  copies compute what the originals do.
\<close>

subsection \<open>Package device\<close>

definition HMAC1 :: "Crypto \<Rightarrow> bytes \<Rightarrow> bytes \<Rightarrow> bytes" where
  "HMAC1 C key in0 = hmac C key in0"

definition HMAC2 :: "Crypto \<Rightarrow> bytes \<Rightarrow> bytes \<Rightarrow> bytes \<Rightarrow> bytes" where
  "HMAC2 C key in0 in1 = hmac C key (in0 @ in1)"

definition KDF1 :: "Crypto \<Rightarrow> bytes \<Rightarrow> bytes \<Rightarrow> bytes" where
  "KDF1 C key input = (let t0 = HMAC1 C key input in HMAC1 C t0 [0x1])"

definition KDF2 :: "Crypto \<Rightarrow> bytes \<Rightarrow> bytes \<Rightarrow> bytes \<times> bytes" where
  "KDF2 C key input =
     (let prk = HMAC1 C key input;
          t0 = HMAC1 C prk [0x1];
          t1 = HMAC2 C prk t0 [0x2]
      in (t0, t1))"

definition KDF3 :: "Crypto \<Rightarrow> bytes \<Rightarrow> bytes \<Rightarrow> bytes \<times> bytes \<times> bytes" where
  "KDF3 C key input =
     (let prk = HMAC1 C key input;
          t0 = HMAC1 C prk [0x1];
          t1 = HMAC2 C prk t0 [0x2];
          t2 = HMAC2 C prk t1 [0x3]
      in (t0, t1, t2))"

text \<open>\<open>subtle.ConstantTimeByteEq\<close> gives 1 or 0.\<close>

definition ConstantTimeByteEq :: "byte \<Rightarrow> byte \<Rightarrow> int" where
  "ConstantTimeByteEq a b = (if a = b then 1 else 0)"

definition isZero :: "bytes \<Rightarrow> bool" where
  "isZero val = (fold (\<lambda>b acc. acc AND ConstantTimeByteEq b 0) val 1 = 1)"

definition setZero :: "bytes \<Rightarrow> bytes" where
  "setZero arr = map (\<lambda>_. 0) arr"

definition clamp :: "bytes \<Rightarrow> bytes" where
  "clamp sk =
     (let sk = sk[0 := (sk ! 0) AND 248]
      in sk[31 := ((sk ! 31) AND 127) OR 64])"

text \<open>\<open>rnd\<close> is what \<open>rand.Read\<close> delivers, \<open>None\<close> its error.\<close>

definition newPrivateKey :: "bytes option \<Rightarrow> bytes option" where
  "newPrivateKey rnd = map_option clamp rnd"

definition publicKey :: "Crypto \<Rightarrow> bytes \<Rightarrow> bytes" where
  "publicKey C sk = scalar_base C sk"

definition sharedSecret :: "Crypto \<Rightarrow> bytes \<Rightarrow> bytes \<Rightarrow> bytes option" where
  "sharedSecret C sk pk = (let ss = scalar_mult C sk pk in if isZero ss then None else Some ss)"

subsection \<open>Package control\<close>

definition control_hmac1 :: "Crypto \<Rightarrow> bytes \<Rightarrow> bytes \<Rightarrow> bytes" where
  "control_hmac1 C key in0 = hmac C key in0"

definition control_hmac2 :: "Crypto \<Rightarrow> bytes \<Rightarrow> bytes \<Rightarrow> bytes \<Rightarrow> bytes" where
  "control_hmac2 C key in0 in1 = hmac C key (in0 @ in1)"

definition kdf2 :: "Crypto \<Rightarrow> bytes \<Rightarrow> bytes \<Rightarrow> bytes \<times> bytes" where
  "kdf2 C key input =
     (let prk = control_hmac1 C key input;
          t0 = control_hmac1 C prk [0x1];
          t1 = control_hmac2 C prk t0 [0x2]
      in (t0, t1))"

definition control_mixHash :: "Crypto \<Rightarrow> bytes \<Rightarrow> bytes \<Rightarrow> bytes" where
  "control_mixHash C h input = blake2s_256 C (h @ input)"

definition GeneratePrivateKey :: "bytes option \<Rightarrow> bytes option" where
  "GeneratePrivateKey rnd =
     map_option (\<lambda>sk. let sk = sk[0 := (sk ! 0) AND 248] in sk[31 := ((sk ! 31) AND 127) OR 64]) rnd"

definition control_PublicKey :: "Crypto \<Rightarrow> bytes \<Rightarrow> bytes" where
  "control_PublicKey C sk = scalar_base C sk"

definition control_isZero :: "bytes \<Rightarrow> bool" where
  "control_isZero b = (ConstantTimeByteEq (fold (\<lambda>v acc. acc OR v) b 0) 0 = 1)"

definition control_sharedSecret :: "Crypto \<Rightarrow> bytes \<Rightarrow> bytes \<Rightarrow> bytes option" where
  "control_sharedSecret C sk pk =
     (let ss = scalar_mult C sk pk in if control_isZero ss then None else Some ss)"

subsection \<open>What the helpers compute\<close>

lemma isZero_iff: "isZero b \<longleftrightarrow> (\<forall>x \<in> set b. x = 0)"
proof -
  have zero: "fold (\<lambda>b acc. acc AND ConstantTimeByteEq b 0) b 0 = 0" for b
    by (induction b) auto
  show ?thesis
    by (induction b) (auto simp: isZero_def ConstantTimeByteEq_def zero [unfolded ConstantTimeByteEq_def])
qed

lemma control_isZero_iff: "control_isZero b \<longleftrightarrow> (\<forall>x \<in> set b. x = 0)"
proof -
  have "fold (\<lambda>v acc. acc OR v) b a = 0 \<longleftrightarrow> a = 0 \<and> (\<forall>x \<in> set b. x = 0)" for a :: byte
    by (induction b arbitrary: a) (auto simp: or_eq_0_iff)
  then show ?thesis by (simp add: control_isZero_def ConstantTimeByteEq_def)
qed

lemma length_clamp [simp, go_len]: "length (clamp sk) = length sk"
  by (simp add: clamp_def Let_def)

lemma length_HMAC: "crypto_ok C \<Longrightarrow> length (HMAC1 C k x) = 32" "crypto_ok C \<Longrightarrow> length (HMAC2 C k x y) = 32"
  by (simp_all add: HMAC1_def HMAC2_def length_hmac)

lemma control_sharedSecret_eq: "control_sharedSecret = sharedSecret"
  by (simp add: fun_eq_iff control_sharedSecret_def sharedSecret_def isZero_iff control_isZero_iff)

lemma kdf2_eq: "kdf2 = KDF2"
  by (simp add: fun_eq_iff kdf2_def KDF2_def control_hmac1_def control_hmac2_def HMAC1_def HMAC2_def)

lemma GeneratePrivateKey_eq: "GeneratePrivateKey = newPrivateKey"
  by (simp add: GeneratePrivateKey_def [abs_def] newPrivateKey_def [abs_def] clamp_def [abs_def])

lemma sharedSecret_agree:
  "crypto_ok C \<Longrightarrow> sharedSecret C a (publicKey C b) = sharedSecret C b (publicKey C a)"
  by (simp add: sharedSecret_def publicKey_def dh_agree)

subsection \<open>Properties\<close>

text \<open>C31: The control channel's own copies of the key helpers compute what the device's helpers
  do: the same two-output KDF, the same clamping of fresh keys, and a shared secret refused
  in the same cases, although one tests for zero by accumulating \<open>OR\<close> and the other by
  accumulating \<open>AND\<close> of byte comparisons.\<close>

theorem control_helpers_mirror_device:
  "kdf2 = KDF2 \<and> control_sharedSecret = sharedSecret \<and> GeneratePrivateKey = newPrivateKey"
  by (simp add: kdf2_eq control_sharedSecret_eq GeneratePrivateKey_eq)
end
