(* ===== verification/GoNet.thy ===== *)
theory GoNet
  imports GoPrelude
begin

text \<open>
  Addresses as package \<open>net/netip\<close> of the Go standard library has them: the zero \<open>Addr\<close>, IPv4
  and IPv6 addresses (with a zone), and \<open>AddrPort\<close>. Arrays are byte lists whose length
  \<open>addr_ok\<close> fixes.
\<close>

datatype addr = ZeroAddr | V4 bytes | V6 bytes string

record addrport =
  ap_addr :: addr
  ap_port :: u16

fun addr_ok :: "addr \<Rightarrow> bool" where
  "addr_ok ZeroAddr \<longleftrightarrow> True"
| "addr_ok (V4 b) \<longleftrightarrow> length b = 4"
| "addr_ok (V6 b z) \<longleftrightarrow> length b = 16"

definition Is4 :: "addr \<Rightarrow> bool" where
  "Is4 a = (case a of V4 _ \<Rightarrow> True | _ \<Rightarrow> False)"

text \<open>The prefix \<open>::ffff:0:0/96\<close> of IPv4-mapped IPv6 addresses.\<close>

definition v4_mapped_prefix :: bytes where
  "v4_mapped_prefix = replicate 10 0 @ [0xff, 0xff]"

fun As16 :: "addr \<Rightarrow> bytes" where
  "As16 ZeroAddr = replicate 16 0"
| "As16 (V4 b) = v4_mapped_prefix @ b"
| "As16 (V6 b z) = b"

text \<open>\<open>As4\<close> panics on an IPv6 address that is not IPv4-mapped and on the zero \<open>Addr\<close>.\<close>

fun As4 :: "addr \<Rightarrow> bytes option" where
  "As4 ZeroAddr = None"
| "As4 (V4 b) = Some b"
| "As4 (V6 b z) = (if take 12 b = v4_mapped_prefix then Some (drop 12 b) else None)"

definition Is4In6 :: "addr \<Rightarrow> bool" where
  "Is4In6 a = (case a of V6 b z \<Rightarrow> take 12 b = v4_mapped_prefix | _ \<Rightarrow> False)"

text \<open>\<open>Unmap\<close> turns an IPv4-mapped address into the IPv4 address.\<close>

fun Unmap :: "addr \<Rightarrow> addr" where
  "Unmap (V6 b z) = (if take 12 b = v4_mapped_prefix then V4 (drop 12 b) else V6 b z)"
| "Unmap a = a"

text \<open>\<open>MarshalBinary\<close>: the bytes of the address and the zone, and for an \<open>AddrPort\<close> the port, low byte first.\<close>

fun addr_MarshalBinary :: "addr \<Rightarrow> bytes" where
  "addr_MarshalBinary ZeroAddr = []"
| "addr_MarshalBinary (V4 b) = b"
| "addr_MarshalBinary (V6 b z) = b @ map (of_nat \<circ> of_char) z"

definition ap_MarshalBinary :: "addrport \<Rightarrow> bytes" where
  "ap_MarshalBinary a = addr_MarshalBinary (ap_addr a) @ put_le 2 (unat (ap_port a))"

lemma addr_ok_Unmap: "addr_ok a \<Longrightarrow> addr_ok (Unmap a)"
  by (cases a) auto

lemma Unmap_idem [simp]: "Unmap (Unmap a) = Unmap a"
  by (cases a) auto

lemma length_As16 [simp, go_len]: "addr_ok a \<Longrightarrow> length (As16 a) = 16"
  by (cases a) (auto simp: v4_mapped_prefix_def)

end
