(* ===== verification/ControlMessages.thy ===== *)
theory ControlMessages
  imports GoNet
begin

text \<open>
  The messages of the control channel between the two ends of a dual-mode session and their
  binary codec (src/orchestrate/control/messages.go): one record per message struct, the
  encoding helpers, \<open>encodeBody\<close> and \<open>decodeBody\<close>. Reading helpers return the value and the
  rest of the buffer, or the error of the source.
\<close>

subsection \<open>Messages\<close>

type_synonym Role = byte

type_synonym Mode = byte

type_synonym SessionID = bytes

definition RoleX :: Role where
  "RoleX = 0"

definition RoleY :: Role where
  "RoleY = 1"

definition ModeUnknown :: Mode where
  "ModeUnknown = 0"

definition ModeNative :: Mode where
  "ModeNative = 1"

definition ModeCloaked :: Mode where
  "ModeCloaked = 2"

definition KeySize :: nat where
  "KeySize = 32"

record Hello =
  hello_Role :: Role
  WGPublicKey :: bytes
  ProtocolVersion :: byte

record XInfo =
  ProbePortA :: u16
  ProbePortB :: u16
  NativeListenPort :: u16
  CloakedListenPort :: u16

record NATProbeRequest =
  req_ProbeID :: u64
  req_Port :: u16

record NATProbeResponse =
  resp_ProbeID :: u64
  ObservedAddr :: addrport

record NativeEndpointReport =
  report_SessionID :: SessionID
  ExternalAddr :: addrport

record NativeFailed =
  failed_SessionID :: SessionID
  failed_Reason :: bytes

record ModeDecision =
  decision_SessionID :: SessionID
  decision_Mode :: Mode
  decision_Reason :: bytes

record CloakedParams =
  S1 :: u32
  S2 :: u32
  S3 :: u32
  S4 :: u32
  H1Lo :: u32
  H1Hi :: u32
  H2Lo :: u32
  H2Hi :: u32
  H3Lo :: u32
  H3Hi :: u32
  H4Lo :: u32
  H4Hi :: u32
  HeaderProtectionKey :: bytes
  HasHeaderProtection :: bool
  ListenEndpoint :: addrport

datatype Message =
    MHello Hello
  | MXInfo XInfo
  | MNATProbeRequest NATProbeRequest
  | MNATProbeResponse NATProbeResponse
  | MNativeEndpointReport NativeEndpointReport
  | MNativeReady SessionID
  | MNativeFailed NativeFailed
  | MModeDecision ModeDecision
  | MCloakedParams CloakedParams
  | MPing u64
  | MPong u64
  | MBye bytes

fun Type_of :: "Message \<Rightarrow> byte" where
  "Type_of (MHello _) = 1"
| "Type_of (MXInfo _) = 2"
| "Type_of (MNATProbeRequest _) = 3"
| "Type_of (MNATProbeResponse _) = 4"
| "Type_of (MNativeEndpointReport _) = 5"
| "Type_of (MNativeReady _) = 6"
| "Type_of (MNativeFailed _) = 7"
| "Type_of (MModeDecision _) = 8"
| "Type_of (MCloakedParams _) = 9"
| "Type_of (MPing _) = 10"
| "Type_of (MPong _) = 11"
| "Type_of (MBye _) = 12"

datatype control_error =
    Truncated string
  | UnknownFamily byte
  | UnknownType byte

subsection \<open>Encoding helpers\<close>

definition putU16 :: "bytes \<Rightarrow> u16 \<Rightarrow> bytes" where
  "putU16 buf v = buf @ put_be16 v"

definition putU32 :: "bytes \<Rightarrow> u32 \<Rightarrow> bytes" where
  "putU32 buf v = buf @ put_be32 v"

definition putU64 :: "bytes \<Rightarrow> u64 \<Rightarrow> bytes" where
  "putU64 buf v = buf @ put_be64 v"

definition putString :: "bytes \<Rightarrow> bytes \<Rightarrow> bytes" where
  "putString buf s = putU16 buf (of_nat (length s)) @ s"

definition putAddrPort :: "bytes \<Rightarrow> addrport \<Rightarrow> bytes" where
  "putAddrPort buf ap =
     (let addr = ap_addr ap;
          buf = (if Is4 addr then buf @ [4] @ the (As4 addr) else buf @ [6] @ As16 addr)
      in putU16 buf (ap_port ap))"

definition getU16 :: "bytes \<Rightarrow> control_error + u16 \<times> bytes" where
  "getU16 b = (if length b < 2 then Inl (Truncated ''u16'') else Inr (get_be16 b, drop 2 b))"

definition getU32 :: "bytes \<Rightarrow> control_error + u32 \<times> bytes" where
  "getU32 b = (if length b < 4 then Inl (Truncated ''u32'') else Inr (get_be32 b, drop 4 b))"

definition getU64 :: "bytes \<Rightarrow> control_error + u64 \<times> bytes" where
  "getU64 b = (if length b < 8 then Inl (Truncated ''u64'') else Inr (get_be64 b, drop 8 b))"

definition getString :: "bytes \<Rightarrow> control_error + bytes \<times> bytes" where
  "getString b =
     bindE (getU16 b) (\<lambda>(l, rest).
       if length rest < unat l then Inl (Truncated ''string'')
       else Inr (take (unat l) rest, drop (unat l) rest))"

definition getAddr :: "bytes \<Rightarrow> control_error + addr \<times> bytes" where
  "getAddr b =
     (case b of
        [] \<Rightarrow> Inl (Truncated ''addrport'')
      | family # rest \<Rightarrow>
          if family = 4 then
            if length rest < 4 then Inl (Truncated ''v4 addr'')
            else Inr (V4 (take 4 rest), drop 4 rest)
          else if family = 6 then
            if length rest < 16 then Inl (Truncated ''v6 addr'')
            else Inr (V6 (take 16 rest) [], drop 16 rest)
          else Inl (UnknownFamily family))"

definition getAddrPort :: "bytes \<Rightarrow> control_error + addrport \<times> bytes" where
  "getAddrPort b =
     bindE (getAddr b) (\<lambda>(a, rest).
       if length rest < 2 then Inl (Truncated ''port'')
       else Inr (\<lparr>ap_addr = a, ap_port = get_be16 rest\<rparr>, drop 2 rest))"

subsection \<open>Encoding\<close>

definition encode_Hello :: "Hello \<Rightarrow> bytes" where
  "encode_Hello m = [hello_Role m] @ WGPublicKey m @ [ProtocolVersion m]"

definition encode_XInfo :: "XInfo \<Rightarrow> bytes" where
  "encode_XInfo m =
     (let buf = putU16 [] (ProbePortA m);
          buf = putU16 buf (ProbePortB m);
          buf = putU16 buf (NativeListenPort m)
      in putU16 buf (CloakedListenPort m))"

definition encode_NATProbeRequest :: "NATProbeRequest \<Rightarrow> bytes" where
  "encode_NATProbeRequest m = putU16 (putU64 [] (req_ProbeID m)) (req_Port m)"

definition encode_NATProbeResponse :: "NATProbeResponse \<Rightarrow> bytes" where
  "encode_NATProbeResponse m = putAddrPort (putU64 [] (resp_ProbeID m)) (ObservedAddr m)"

definition encode_NativeEndpointReport :: "NativeEndpointReport \<Rightarrow> bytes" where
  "encode_NativeEndpointReport m = putAddrPort (report_SessionID m) (ExternalAddr m)"

definition encode_NativeFailed :: "NativeFailed \<Rightarrow> bytes" where
  "encode_NativeFailed m = putString (failed_SessionID m) (failed_Reason m)"

definition encode_ModeDecision :: "ModeDecision \<Rightarrow> bytes" where
  "encode_ModeDecision m =
     putString (decision_SessionID m @ [decision_Mode m]) (decision_Reason m)"

definition encode_CloakedParams :: "CloakedParams \<Rightarrow> bytes" where
  "encode_CloakedParams m =
     (let buf = putU32 [] (S1 m);
          buf = putU32 buf (S2 m);
          buf = putU32 buf (S3 m);
          buf = putU32 buf (S4 m);
          buf = putU32 buf (H1Lo m);
          buf = putU32 buf (H1Hi m);
          buf = putU32 buf (H2Lo m);
          buf = putU32 buf (H2Hi m);
          buf = putU32 buf (H3Lo m);
          buf = putU32 buf (H3Hi m);
          buf = putU32 buf (H4Lo m);
          buf = putU32 buf (H4Hi m);
          buf = buf @ [if HasHeaderProtection m then 1 else 0];
          buf = buf @ HeaderProtectionKey m
      in putAddrPort buf (ListenEndpoint m))"

fun encodeBody :: "Message \<Rightarrow> bytes" where
  "encodeBody (MHello m) = encode_Hello m"
| "encodeBody (MXInfo m) = encode_XInfo m"
| "encodeBody (MNATProbeRequest m) = encode_NATProbeRequest m"
| "encodeBody (MNATProbeResponse m) = encode_NATProbeResponse m"
| "encodeBody (MNativeEndpointReport m) = encode_NativeEndpointReport m"
| "encodeBody (MNativeReady s) = s"
| "encodeBody (MNativeFailed m) = encode_NativeFailed m"
| "encodeBody (MModeDecision m) = encode_ModeDecision m"
| "encodeBody (MCloakedParams m) = encode_CloakedParams m"
| "encodeBody (MPing v) = putU64 [] v"
| "encodeBody (MPong v) = putU64 [] v"
| "encodeBody (MBye s) = putString [] s"

lemmas encode_defs =
  encode_Hello_def encode_XInfo_def encode_NATProbeRequest_def encode_NATProbeResponse_def
  encode_NativeEndpointReport_def encode_NativeFailed_def encode_ModeDecision_def
  encode_CloakedParams_def Let_def

subsection \<open>Decoding\<close>

definition decode_Hello :: "bytes \<Rightarrow> control_error + Hello" where
  "decode_Hello body =
     (if length body < 1 + KeySize + 1 then Inl (Truncated ''Hello'')
      else Inr \<lparr>hello_Role = body ! 0, WGPublicKey = slice 1 (1 + KeySize) body,
                ProtocolVersion = body ! (1 + KeySize)\<rparr>)"

definition decode_XInfo :: "bytes \<Rightarrow> control_error + XInfo" where
  "decode_XInfo body =
     bindE (getU16 body) (\<lambda>(a, b). bindE (getU16 b) (\<lambda>(p, b).
     bindE (getU16 b) (\<lambda>(n, b). bindE (getU16 b) (\<lambda>(c, b).
       Inr \<lparr>ProbePortA = a, ProbePortB = p, NativeListenPort = n, CloakedListenPort = c\<rparr>))))"

definition decode_NATProbeRequest :: "bytes \<Rightarrow> control_error + NATProbeRequest" where
  "decode_NATProbeRequest body =
     bindE (getU64 body) (\<lambda>(i, b). bindE (getU16 b) (\<lambda>(p, b).
       Inr \<lparr>req_ProbeID = i, req_Port = p\<rparr>))"

definition decode_NATProbeResponse :: "bytes \<Rightarrow> control_error + NATProbeResponse" where
  "decode_NATProbeResponse body =
     bindE (getU64 body) (\<lambda>(i, b). bindE (getAddrPort b) (\<lambda>(a, b).
       Inr \<lparr>resp_ProbeID = i, ObservedAddr = a\<rparr>))"

definition decode_NativeEndpointReport :: "bytes \<Rightarrow> control_error + NativeEndpointReport" where
  "decode_NativeEndpointReport body =
     (if length body < 16 then Inl (Truncated ''NativeEndpointReport'')
      else bindE (getAddrPort (drop 16 body)) (\<lambda>(a, _).
        Inr \<lparr>report_SessionID = take 16 body, ExternalAddr = a\<rparr>))"

definition decode_NativeReady :: "bytes \<Rightarrow> control_error + SessionID" where
  "decode_NativeReady body =
     (if length body < 16 then Inl (Truncated ''NativeReady'') else Inr (take 16 body))"

definition decode_NativeFailed :: "bytes \<Rightarrow> control_error + NativeFailed" where
  "decode_NativeFailed body =
     (if length body < 16 then Inl (Truncated ''NativeFailed'')
      else bindE (getString (drop 16 body)) (\<lambda>(r, _).
        Inr \<lparr>failed_SessionID = take 16 body, failed_Reason = r\<rparr>))"

definition decode_ModeDecision :: "bytes \<Rightarrow> control_error + ModeDecision" where
  "decode_ModeDecision body =
     (if length body < 17 then Inl (Truncated ''ModeDecision'')
      else bindE (getString (drop 17 body)) (\<lambda>(r, _).
        Inr \<lparr>decision_SessionID = take 16 body, decision_Mode = body ! 16, decision_Reason = r\<rparr>))"

text \<open>The loop over the twelve \<open>*uint32\<close> destinations.\<close>

fun getU32s :: "nat \<Rightarrow> bytes \<Rightarrow> control_error + u32 list \<times> bytes" where
  "getU32s 0 b = Inr ([], b)"
| "getU32s (Suc n) b =
     bindE (getU32 b) (\<lambda>(v, b). bindE (getU32s n b) (\<lambda>(vs, b). Inr (v # vs, b)))"

definition decode_CloakedParams :: "bytes \<Rightarrow> control_error + CloakedParams" where
  "decode_CloakedParams body =
     bindE (getU32s 12 body) (\<lambda>(v, b).
       if length b < 1 + 32 then Inl (Truncated ''CloakedParams'')
       else bindE (getAddrPort (drop 33 b)) (\<lambda>(ap, _).
         Inr \<lparr>S1 = v ! 0, S2 = v ! 1, S3 = v ! 2, S4 = v ! 3,
              H1Lo = v ! 4, H1Hi = v ! 5, H2Lo = v ! 6, H2Hi = v ! 7,
              H3Lo = v ! 8, H3Hi = v ! 9, H4Lo = v ! 10, H4Hi = v ! 11,
              HeaderProtectionKey = slice 1 33 b, HasHeaderProtection = (b ! 0 = 1),
              ListenEndpoint = ap\<rparr>))"

definition decodeBody :: "byte \<Rightarrow> bytes \<Rightarrow> control_error + Message" where
  "decodeBody t body =
     (if t = 1 then bindE (decode_Hello body) (Inr \<circ> MHello)
      else if t = 2 then bindE (decode_XInfo body) (Inr \<circ> MXInfo)
      else if t = 3 then bindE (decode_NATProbeRequest body) (Inr \<circ> MNATProbeRequest)
      else if t = 4 then bindE (decode_NATProbeResponse body) (Inr \<circ> MNATProbeResponse)
      else if t = 5 then bindE (decode_NativeEndpointReport body) (Inr \<circ> MNativeEndpointReport)
      else if t = 6 then bindE (decode_NativeReady body) (Inr \<circ> MNativeReady)
      else if t = 7 then bindE (decode_NativeFailed body) (Inr \<circ> MNativeFailed)
      else if t = 8 then bindE (decode_ModeDecision body) (Inr \<circ> MModeDecision)
      else if t = 9 then bindE (decode_CloakedParams body) (Inr \<circ> MCloakedParams)
      else if t = 10 then bindE (getU64 body) (\<lambda>(v, _). Inr (MPing v))
      else if t = 11 then bindE (getU64 body) (\<lambda>(v, _). Inr (MPong v))
      else if t = 12 then bindE (getString body) (\<lambda>(s, _). Inr (MBye s))
      else Inl (UnknownType t))"

lemmas decode_defs =
  decode_Hello_def decode_XInfo_def decode_NATProbeRequest_def decode_NATProbeResponse_def
  decode_NativeEndpointReport_def decode_NativeReady_def decode_NativeFailed_def
  decode_ModeDecision_def decode_CloakedParams_def

subsection \<open>Reading back what was written\<close>

lemma put_nil:
  "putU16 buf a = buf @ put_be16 a" "putU32 buf b = buf @ put_be32 b" "putU64 buf c = buf @ put_be64 c"
  by (simp_all add: putU16_def putU32_def putU64_def)

lemma get_put_U [simp]:
  "getU16 (put_be16 a @ r) = Inr (a, r)" "getU32 (put_be32 b @ r) = Inr (b, r)"
  "getU64 (put_be64 c @ r) = Inr (c, r)"
  by (simp_all add: getU16_def getU32_def getU64_def)

lemma putString_append: "putString buf s = buf @ putString [] s"
  by (simp add: putString_def put_nil)

lemma putAddrPort_append: "putAddrPort buf ap = buf @ putAddrPort [] ap"
  by (simp add: putAddrPort_def put_nil Let_def)

text \<open>A string keeps its length modulo \<open>2^16\<close> only.\<close>

lemma get_putString:
  "getString (putString [] s @ r) =
     Inr (take (length s mod 65536) s, drop (length s mod 65536) s @ r)"
proof -
  have "unat (of_nat (length s) :: u16) = length s mod 65536"
    by (simp add: unat_of_nat take_bit_eq_mod)
  then show ?thesis by (simp add: getString_def putString_def put_nil)
qed

definition ap_ok :: "addrport \<Rightarrow> bool" where
  "ap_ok ap \<longleftrightarrow>
     (case ap_addr ap of ZeroAddr \<Rightarrow> False | V4 b \<Rightarrow> length b = 4 | V6 b z \<Rightarrow> length b = 16 \<and> z = [])"

lemma get_putAddrPort [simp]:
  "ap_ok ap \<Longrightarrow> getAddrPort (putAddrPort [] ap @ r) = Inr (ap, r)"
  by (cases ap; cases "ap_addr ap")
     (auto simp: ap_ok_def getAddrPort_def getAddr_def putAddrPort_def put_nil Let_def Is4_def)

lemma getAddrPort_ok: "getAddrPort b = Inr (ap, r) \<Longrightarrow> ap_ok ap"
  by (auto simp: getAddrPort_def getAddr_def ap_ok_def bindE_Inr_iff split: list.splits if_splits)

lemma encode_eqs:
  "encode_NATProbeResponse a = put_be64 (resp_ProbeID a) @ putAddrPort [] (ObservedAddr a)"
  "encode_NativeEndpointReport b = report_SessionID b @ putAddrPort [] (ExternalAddr b)"
  "encode_NativeFailed c = failed_SessionID c @ putString [] (failed_Reason c)"
  "encode_ModeDecision d = decision_SessionID d @ decision_Mode d # putString [] (decision_Reason d)"
  unfolding encode_NATProbeResponse_def encode_NativeEndpointReport_def encode_NativeFailed_def
    encode_ModeDecision_def
  by (simp_all add: put_nil putAddrPort_append [of "put_be64 _"] putAddrPort_append [of "report_SessionID _"]
      putString_append [of "failed_SessionID _"] putString_append [of "decision_SessionID _ @ _"])

text \<open>The messages the codec carries: arrays of their size, addresses and strings that fit.\<close>

fun message_ok :: "Message \<Rightarrow> bool" where
  "message_ok (MHello m) \<longleftrightarrow> length (WGPublicKey m) = KeySize"
| "message_ok (MNATProbeResponse m) \<longleftrightarrow> ap_ok (ObservedAddr m)"
| "message_ok (MNativeEndpointReport m) \<longleftrightarrow> length (report_SessionID m) = 16 \<and> ap_ok (ExternalAddr m)"
| "message_ok (MNativeReady s) \<longleftrightarrow> length s = 16"
| "message_ok (MNativeFailed m) \<longleftrightarrow> length (failed_SessionID m) = 16 \<and> length (failed_Reason m) < 65536"
| "message_ok (MModeDecision m) \<longleftrightarrow> length (decision_SessionID m) = 16 \<and> length (decision_Reason m) < 65536"
| "message_ok (MCloakedParams m) \<longleftrightarrow> length (HeaderProtectionKey m) = 32 \<and> ap_ok (ListenEndpoint m)"
| "message_ok (MBye s) \<longleftrightarrow> length s < 65536"
| "message_ok _ \<longleftrightarrow> True"

lemma getU32s_12:
  "getU32s 12 (put_be32 a @ put_be32 b @ put_be32 c @ put_be32 d @ put_be32 e @ put_be32 f @
     put_be32 g @ put_be32 h @ put_be32 i @ put_be32 j @ put_be32 k @ put_be32 l @ r) =
     Inr ([a, b, c, d, e, f, g, h, i, j, k, l], r)"
  by (simp add: numeral_eq_Suc)

lemma decode_encode_CloakedParams:
  assumes "length (HeaderProtectionKey m) = 32" "ap_ok (ListenEndpoint m)"
  shows "decode_CloakedParams (encode_CloakedParams m @ r) = Inr m"
proof -
  have "encode_CloakedParams m @ r =
      put_be32 (S1 m) @ put_be32 (S2 m) @ put_be32 (S3 m) @ put_be32 (S4 m) @
      put_be32 (H1Lo m) @ put_be32 (H1Hi m) @ put_be32 (H2Lo m) @ put_be32 (H2Hi m) @
      put_be32 (H3Lo m) @ put_be32 (H3Hi m) @ put_be32 (H4Lo m) @ put_be32 (H4Hi m) @
      [if HasHeaderProtection m then 1 else 0] @ HeaderProtectionKey m @
      putAddrPort [] (ListenEndpoint m) @ r"
    unfolding encode_CloakedParams_def Let_def put_nil
    by (subst putAddrPort_append) simp
  then show ?thesis
    using assms by (cases m) (simp add: decode_CloakedParams_def getU32s_12 slice_def)
qed

lemma decode_encode:
  assumes "message_ok m"
  shows "decodeBody (Type_of m) (encodeBody m @ r) = Inr m"
proof (cases m)
  case (MHello x)
  with assms show ?thesis
    by (cases x) (simp add: decodeBody_def decode_defs encode_defs slice_def KeySize_def nth_append)
next
  case (MXInfo x)
  with assms show ?thesis
    by (cases x) (simp add: decodeBody_def decode_defs encode_defs put_nil)
next
  case (MNATProbeRequest x)
  with assms show ?thesis
    by (cases x) (simp add: decodeBody_def decode_defs encode_defs put_nil)
next
  case (MNATProbeResponse x)
  with assms show ?thesis
    by (cases x) (simp add: decodeBody_def decode_defs encode_eqs get_putString nth_append)
next
  case (MNativeEndpointReport x)
  with assms show ?thesis
    by (cases x) (simp add: decodeBody_def decode_defs encode_eqs get_putString nth_append)
next
  case (MNativeFailed x)
  with assms show ?thesis
    by (cases x) (simp add: decodeBody_def decode_defs encode_eqs get_putString nth_append)
next
  case (MModeDecision x)
  with assms show ?thesis
    by (cases x) (simp add: decodeBody_def decode_defs encode_eqs get_putString nth_append)
next
  case (MCloakedParams x)
  with assms show ?thesis by (simp add: decodeBody_def decode_encode_CloakedParams)
qed (use assms in \<open>simp_all add: decodeBody_def decode_defs put_nil get_putString\<close>)

lemma decodeBody_ok:
  assumes "decodeBody t b = Inr m"
  shows "Type_of m = t \<and> message_ok m"
proof -
  have str: "getString x = Inr (s, r) \<Longrightarrow> length s < 65536" for x s r
    using unat_u16_less by (auto simp: getString_def bindE_Inr_iff min_less_iff_disj split: if_splits)
  show ?thesis
    using assms
    by (auto simp: decodeBody_def bindE_Inr_iff decode_defs KeySize_def split: if_splits
        dest: getAddrPort_ok str)
qed

subsection \<open>Properties\<close>

text \<open>C22: Every control message whose arrays have their size, whose addresses are real and whose
  strings are shorter than 65536 bytes survives the wire: decoding its encoding gives the
  message back, and bytes after the body are ignored.\<close>

theorem decodeBody_encodeBody:
  assumes "message_ok m"
  shows "decodeBody (Type_of m) (encodeBody m @ rest) = Inr m"
  using assms by (rule decode_encode)

theorem decodeBody_encodeBody_witness:
  "decodeBody (Type_of (MModeDecision \<lparr>decision_SessionID = replicate 16 7, decision_Mode = ModeCloaked,
       decision_Reason = [1, 2, 3]\<rparr>))
     (encodeBody (MModeDecision \<lparr>decision_SessionID = replicate 16 7, decision_Mode = ModeCloaked,
       decision_Reason = [1, 2, 3]\<rparr>) @ [9]) =
   Inr (MModeDecision \<lparr>decision_SessionID = replicate 16 7, decision_Mode = ModeCloaked,
       decision_Reason = [1, 2, 3]\<rparr>)"
  by (rule decodeBody_encodeBody) simp

text \<open>C28: Whatever bytes arrive, a body that decodes gives a message of the type of its tag,
  which encodes and decodes to itself: decoding yields only messages the codec carries.\<close>

theorem decodeBody_stable:
  assumes "decodeBody t body = Inr m"
  shows "Type_of m = t \<and> message_ok m \<and> decodeBody t (encodeBody m) = Inr m"
  using decodeBody_ok [OF assms] decode_encode [of m "[]"] by auto

theorem decodeBody_stable_witness:
  "decodeBody 10 [0, 0, 0, 0, 0, 0, 1, 2, 77] = Inr (MPing 258) \<and> Type_of (MPing 258) = 10"
proof -
  have m: "decodeBody 10 [0, 0, 0, 0, 0, 0, 1, 2, 77] = Inr (MPing 258)"
    by (simp add: decodeBody_def getU64_def get_be64_def get_be_def)
  then show ?thesis using decodeBody_stable [OF m] by blast
qed

text \<open>Property: A string longer than 65535 bytes is not refused but cut: its length is sent modulo
  \<open>2^16\<close>, so the reason of a \<open>Bye\<close> arrives as its first \<open>length mod 65536\<close> bytes.\<close>

theorem Bye_reason_truncated:
  "decodeBody (Type_of (MBye s)) (encodeBody (MBye s)) = Inr (MBye (take (length s mod 65536) s))"
  using get_putString [of s "[]"] by (simp add: decodeBody_def)

end
