(* ===== verification/ControlConn.thy ===== *)
theory ControlConn
  imports ControlMessages Crypto Runs
begin

text \<open>
  The encrypted framing of the control channel (src/orchestrate/control/codec.go). A
  connection is modelled with the TCP stream it owns: the bytes still to be read before the
  end of the stream, the bytes written, and how many more bytes the transport takes before a
  write fails. The AEAD instances are their keys.
\<close>

definition maxFrameSize :: u32 where
  "maxFrameSize = 64 * 1024"

datatype conn_error =
    ReadLength
  | FrameTooLarge
  | ReadFrame
  | AuthenticationFailed
  | EmptyFrame
  | BadMessage control_error
  | WriteLength
  | WriteFrame

record Conn =
  net_in :: bytes
  net_out :: bytes
  net_room :: nat
  sendAEAD :: bytes
  recvAEAD :: bytes
  sendCtr :: u64
  recvCtr :: u64
  RemoteStatic :: bytes

record handshakeResult =
  hr_RemoteStatic :: bytes
  SendKey :: bytes
  RecvKey :: bytes

text \<open>\<open>newConn\<close>: the keys are arrays of the cipher's key size, so \<open>chacha20poly1305.New\<close> cannot
  fail.\<close>

definition newConn :: "bytes \<Rightarrow> bytes \<Rightarrow> nat \<Rightarrow> handshakeResult \<Rightarrow> Conn" where
  "newConn inp out room hr =
     \<lparr>net_in = inp, net_out = out, net_room = room, sendAEAD = SendKey hr, recvAEAD = RecvKey hr,
      sendCtr = 0, recvCtr = 0, RemoteStatic = hr_RemoteStatic hr\<rparr>"

definition nonceFromCounter :: "u64 \<Rightarrow> bytes" where
  "nonceFromCounter ctr = replicate 4 0 @ put_be64 ctr"

text \<open>\<open>net.Conn.Write\<close> and \<open>io.ReadFull\<close> on the modelled stream.\<close>

definition nc_write :: "bytes \<Rightarrow> Conn \<Rightarrow> Conn \<times> bool" where
  "nc_write b c =
     (c\<lparr>net_out := net_out c @ take (net_room c) b, net_room := net_room c - length b\<rparr>,
      length b \<le> net_room c)"

definition nc_read :: "nat \<Rightarrow> Conn \<Rightarrow> Conn \<times> bytes option" where
  "nc_read n c =
     (c\<lparr>net_in := drop n (net_in c)\<rparr>,
      if n \<le> length (net_in c) then Some (take n (net_in c)) else None)"

definition Send :: "Crypto \<Rightarrow> Conn \<Rightarrow> Message \<Rightarrow> Conn \<times> (conn_error + unit)" where
  "Send C c m =
     (let body = encodeBody m;
          plain = Type_of m # body;
          nonce = nonceFromCounter (sendCtr c);
          c = c\<lparr>sendCtr := sendCtr c + 1\<rparr>;
          ct = aead_seal C (sendAEAD c) nonce plain [];
          (c, ok) = nc_write (put_be32 (of_nat (length ct))) c
      in if \<not> ok then (c, Inl WriteLength)
         else let (c, ok) = nc_write ct c
              in if \<not> ok then (c, Inl WriteFrame) else (c, Inr ()))"

definition Recv :: "Crypto \<Rightarrow> Conn \<Rightarrow> Conn \<times> (conn_error + Message)" where
  "Recv C c =
     (let (c, lenBuf) = nc_read 4 c
      in case lenBuf of
           None \<Rightarrow> (c, Inl ReadLength)
         | Some l \<Rightarrow>
             let n = get_be32 l
             in if n > maxFrameSize then (c, Inl FrameTooLarge)
                else let (c, ct) = nc_read (unat n) c
                     in case ct of
                          None \<Rightarrow> (c, Inl ReadFrame)
                        | Some ct \<Rightarrow>
                            let nonce = nonceFromCounter (recvCtr c);
                                c = c\<lparr>recvCtr := recvCtr c + 1\<rparr>
                            in case aead_open C (recvAEAD c) nonce ct [] of
                                 None \<Rightarrow> (c, Inl AuthenticationFailed)
                               | Some [] \<Rightarrow> (c, Inl EmptyFrame)
                               | Some (t # body) \<Rightarrow>
                                   (c, case decodeBody t body of
                                         Inl e \<Rightarrow> Inl (BadMessage e) | Inr m \<Rightarrow> Inr m))"

subsection \<open>One frame\<close>

definition frame :: "Crypto \<Rightarrow> bytes \<Rightarrow> u64 \<Rightarrow> Message \<Rightarrow> bytes" where
  "frame C k n m =
     (let ct = aead_seal C k (nonceFromCounter n) (Type_of m # encodeBody m) []
      in put_be32 (of_nat (length ct)) @ ct)"

text \<open>A message that fits in a frame: its type byte, its body and the tag of 16 bytes.\<close>

definition frame_ok :: "Message \<Rightarrow> bool" where
  "frame_ok m \<longleftrightarrow> message_ok m \<and> length (encodeBody m) + 17 \<le> 65536"

lemma Send_ok:
  assumes "crypto_ok C" "frame_ok m" "length (encodeBody m) + 21 \<le> net_room c"
  shows "Send C c m =
    (c\<lparr>sendCtr := sendCtr c + 1, net_out := net_out c @ frame C (sendAEAD c) (sendCtr c) m,
       net_room := net_room c - (length (encodeBody m) + 21)\<rparr>, Inr ())"
  using assms
  by (simp add: Send_def nc_write_def frame_def Let_def crypto_laws frame_ok_def)

lemma Recv_frame:
  assumes "crypto_ok C" "frame_ok m" "net_in c = frame C (recvAEAD c) (recvCtr c) m @ rest"
  shows "Recv C c = (c\<lparr>net_in := rest, recvCtr := recvCtr c + 1\<rparr>, Inr m)"
proof -
  let ?n = "of_nat (length (encodeBody m) + 17) :: u32"
  have n: "unat ?n = length (encodeBody m) + 17"
    using assms(2) by (intro unat_of_nat_id) (simp add: frame_ok_def)
  then have "\<not> ?n > maxFrameSize"
    using assms(2) by (simp add: word_less_nat_alt maxFrameSize_def frame_ok_def)
  then show ?thesis
    using assms n decode_encode [of m "[]"]
    by (simp add: Recv_def nc_read_def frame_def Let_def crypto_laws frame_ok_def add.commute)
qed

subsection \<open>Runs of a connection\<close>

primrec frames :: "Crypto \<Rightarrow> bytes \<Rightarrow> u64 \<Rightarrow> Message list \<Rightarrow> bytes" where
  "frames C k n [] = []"
| "frames C k n (m # ms) = frame C k n m @ frames C k (n + 1) ms"

definition room_for :: "Message list \<Rightarrow> nat" where
  "room_for ms = (\<Sum>m \<leftarrow> ms. length (encodeBody m) + 21)"

definition recv_call :: "Crypto \<Rightarrow> Conn \<Rightarrow> unit \<Rightarrow> Conn \<times> (conn_error + Message)" where
  "recv_call C c u = Recv C c"

lemma Send_run:
  "crypto_ok C \<Longrightarrow> list_all frame_ok ms \<Longrightarrow> room_for ms \<le> net_room c \<Longrightarrow>
     net_out (fst (run_calls (Send C) c ms)) = net_out c @ frames C (sendAEAD c) (sendCtr c) ms \<and>
     snd (run_calls (Send C) c ms) = map (\<lambda>_. Inr ()) ms"
proof (induction ms arbitrary: c)
  case (Cons m ms)
  have "length (encodeBody m) + 21 \<le> net_room c" using Cons.prems(3) by (simp add: room_for_def)
  then have "Send C c m = (c\<lparr>sendCtr := sendCtr c + 1, net_out := net_out c @ frame C (sendAEAD c) (sendCtr c) m,
       net_room := net_room c - (length (encodeBody m) + 21)\<rparr>, Inr ())"
    using Cons.prems by (intro Send_ok) simp_all
  then show ?case using Cons.prems Cons.IH [of "fst (Send C c m)"] by (simp add: room_for_def)
qed simp

lemma Recv_run:
  "crypto_ok C \<Longrightarrow> list_all frame_ok ms \<Longrightarrow> net_in c = frames C (recvAEAD c) (recvCtr c) ms @ rest \<Longrightarrow>
     snd (run_calls (recv_call C) c (map (\<lambda>_. ()) ms)) = map Inr ms"
proof (induction ms arbitrary: c)
  case (Cons m ms)
  then have "Recv C c = (c\<lparr>net_in := frames C (recvAEAD c) (recvCtr c + 1) ms @ rest,
      recvCtr := recvCtr c + 1\<rparr>, Inr m)"
    by (intro Recv_frame) simp_all
  then show ?case using Cons by (simp add: recv_call_def)
qed simp

lemma sendCtr_Send [simp]: "sendCtr (fst (Send C c m)) = sendCtr c + 1"
  by (simp add: Send_def nc_write_def Let_def)



subsection \<open>Properties\<close>

text \<open>C18: The control channel delivers: the messages that one end sends, in any number, arrive at
  the end that holds the matching receive key and counter, in order and unchanged, and no
  \<open>Send\<close> or \<open>Recv\<close> fails, as long as the transport takes the bytes and each message fits in a
  frame of \<open>maxFrameSize\<close>.\<close>

theorem control_channel_delivers:
  assumes "crypto_ok C" and "list_all frame_ok ms" and "room_for ms \<le> net_room a"
    and "net_out a = []" and "net_in b = net_out (fst (run_calls (Send C) a ms)) @ later"
    and "recvAEAD b = sendAEAD a" and "recvCtr b = sendCtr a"
  shows "snd (run_calls (Send C) a ms) = map (\<lambda>_. Inr ()) ms \<and>
    snd (run_calls (recv_call C) b (map (\<lambda>_. ()) ms)) = map Inr ms"
  using assms Send_run [of C ms a] Recv_run [of C ms b later] by simp

definition demo_conn :: "bytes \<Rightarrow> Conn" where
  "demo_conn inp = newConn inp [] 5000 \<lparr>hr_RemoteStatic = [], SendKey = [7], RecvKey = [7]\<rparr>"

theorem control_channel_delivers_witness:
  "snd (run_calls (recv_call demo_crypto)
     (demo_conn (net_out (fst (run_calls (Send demo_crypto) (demo_conn []) [MPing 3, MBye [1, 2]]))))
     [(), ()]) = [Inr (MPing 3), Inr (MBye [1, 2])]"
  using control_channel_delivers [OF demo_crypto_ok, of "[MPing 3, MBye [1, 2]]" "demo_conn []"
      "demo_conn (net_out (fst (run_calls (Send demo_crypto) (demo_conn []) [MPing 3, MBye [1, 2]])))" "[]"]
  by (simp add: demo_conn_def newConn_def frame_ok_def room_for_def put_nil putString_def)



text \<open>C30: \<open>Recv\<close> bounds what a peer can make it read: when the length prefix announces more than
  \<open>maxFrameSize\<close> bytes, it fails having consumed the prefix only, with the nonce counter
  unchanged.\<close>

theorem Recv_rejects_large_frame:
  assumes "net_in c = put_be32 n @ rest" and "n > maxFrameSize"
  shows "Recv C c = (c\<lparr>net_in := rest\<rparr>, Inl FrameTooLarge)"
  using assms by (simp add: Recv_def nc_read_def)

theorem Recv_rejects_large_frame_witness:
  "snd (Recv demo_crypto (demo_conn (put_be32 0x10001 @ [1, 2]))) = Inl FrameTooLarge"
  by (subst Recv_rejects_large_frame [of _ "0x10001" "[1, 2]"])
     (simp_all add: demo_conn_def newConn_def maxFrameSize_def)

end
