(* ===== verification/ControlNoise.thy ===== *)
theory ControlNoise
  imports NoiseHelpers ControlConn
begin

text \<open>
  The handshake of the control channel (src/orchestrate/control/noise.go) and the responder's
  \<open>Endpoint\<close> with its replay check (control.go). Each side is one function over what it reads;
  the random bytes of its ephemeral key, the clock and the success of its write are arguments.
  \<open>initiator_start\<close> is the part of \<open>initiatorHandshake\<close> before the write of message 1,
  \<open>initiator_finish\<close> the part after message 2 was read.
\<close>

subsection \<open>The code\<close>

definition protocolName :: bytes where
  "protocolName = map (of_nat \<circ> of_char) ''OrchestrateControl_IK_25519_ChaChaPoly_BLAKE2s_v1''"

definition initialChainKey :: "Crypto \<Rightarrow> bytes" where
  "initialChainKey C = blake2s_256 C protocolName"

definition initialHash :: "Crypto \<Rightarrow> bytes" where
  "initialHash C = blake2s_256 C (initialChainKey C)"

definition msg1Size :: nat where
  "msg1Size = KeySize + (KeySize + 16) + (8 + 16)"

definition msg2Size :: nat where
  "msg2Size = KeySize + 16"

definition zeroNonce :: bytes where
  "zeroNonce = replicate 12 0"

definition aeadSeal :: "Crypto \<Rightarrow> bytes \<Rightarrow> bytes \<Rightarrow> bytes \<Rightarrow> bytes" where
  "aeadSeal C key ad plaintext = aead_seal C key zeroNonce plaintext ad"

definition aeadOpen :: "Crypto \<Rightarrow> bytes \<Rightarrow> bytes \<Rightarrow> bytes \<Rightarrow> bytes option" where
  "aeadOpen C key ad ciphertext = aead_open C key zeroNonce ciphertext ad"

datatype noise_error =
    GenerateEphemeral | DHes | DHss | Msg1Size | WriteMsg1 | ReadMsg2 | DHee | DHse | Msg2Auth
  | ReadMsg1 | StaticDecrypt | UnknownPeer | TimestampDecrypt | Replayed | WriteMsg2
  | RemoteMismatch

definition opt_err :: "'e \<Rightarrow> 'a option \<Rightarrow> 'e + 'a" where
  "opt_err e x = (case x of None \<Rightarrow> Inl e | Some v \<Rightarrow> Inr v)"

record initiator_state =
  is_h :: bytes
  is_ck :: bytes
  is_ePriv :: bytes

definition initiator_start ::
  "Crypto \<Rightarrow> bytes option \<Rightarrow> u64 \<Rightarrow> bytes \<Rightarrow> bytes \<Rightarrow> bytes \<Rightarrow> noise_error + initiator_state \<times> bytes"
where
  "initiator_start C rnd unixNano localPriv localPub remoteStatic =
     (let h = initialHash C; ck = initialChainKey C; h = control_mixHash C h remoteStatic in
      bindE (opt_err GenerateEphemeral (GeneratePrivateKey rnd)) (\<lambda>ePriv.
      let ePub = control_PublicKey C ePriv; h = control_mixHash C h ePub in
      bindE (opt_err DHes (control_sharedSecret C ePriv remoteStatic)) (\<lambda>es.
      let (ck, key) = kdf2 C ck es;
          staticCipher = aeadSeal C key h localPub;
          h = control_mixHash C h staticCipher in
      bindE (opt_err DHss (control_sharedSecret C localPriv remoteStatic)) (\<lambda>ss.
      let (ck, key) = kdf2 C ck ss;
          timestampCipher = aeadSeal C key h (put_be64 unixNano);
          h = control_mixHash C h timestampCipher;
          msg1 = ePub @ staticCipher @ timestampCipher
      in if length msg1 \<noteq> msg1Size then Inl Msg1Size
         else Inr (\<lparr>is_h = h, is_ck = ck, is_ePriv = ePriv\<rparr>, msg1)))))"

definition initiator_finish ::
  "Crypto \<Rightarrow> initiator_state \<Rightarrow> bytes \<Rightarrow> bytes \<Rightarrow> bytes \<Rightarrow> noise_error + handshakeResult"
where
  "initiator_finish C st localPriv remoteStatic msg2 =
     (let reEphemeral = take KeySize msg2;
          emptyCipher = drop KeySize msg2;
          h = control_mixHash C (is_h st) reEphemeral in
      bindE (opt_err DHee (control_sharedSecret C (is_ePriv st) reEphemeral)) (\<lambda>ee.
      let (ck, key) = kdf2 C (is_ck st) ee in
      bindE (opt_err DHse (control_sharedSecret C localPriv reEphemeral)) (\<lambda>se.
      let (ck, key) = kdf2 C ck se in
      bindE (opt_err Msg2Auth (aeadOpen C key h emptyCipher)) (\<lambda>_.
      let (sendKey, recvKey) = kdf2 C ck []
      in Inr \<lparr>hr_RemoteStatic = remoteStatic, SendKey = sendKey, RecvKey = recvKey\<rparr>))))"

text \<open>\<open>reply\<close> is what can be read from the stream after message 1 was written.\<close>

definition initiatorHandshake ::
  "Crypto \<Rightarrow> bytes option \<Rightarrow> u64 \<Rightarrow> bool \<Rightarrow> bytes \<Rightarrow> bytes \<Rightarrow> bytes \<Rightarrow> bytes
     \<Rightarrow> noise_error + handshakeResult"
where
  "initiatorHandshake C rnd unixNano write_ok reply localPriv localPub remoteStatic =
     bindE (initiator_start C rnd unixNano localPriv localPub remoteStatic) (\<lambda>(st, msg1).
       if \<not> write_ok then Inl WriteMsg1
       else if length reply < msg2Size then Inl ReadMsg2
       else initiator_finish C st localPriv remoteStatic (take msg2Size reply))"

record Endpoint =
  localPriv :: bytes
  isKnown :: "bytes \<Rightarrow> bool"
  lastSeen :: "bytes \<rightharpoonup> int"

definition NewEndpoint :: "bytes \<Rightarrow> (bytes \<Rightarrow> bool) \<Rightarrow> Endpoint" where
  "NewEndpoint priv isKnownPeer = \<lparr>localPriv = priv, isKnown = isKnownPeer, lastSeen = Map.empty\<rparr>"

definition checkReplay :: "Endpoint \<Rightarrow> bytes \<Rightarrow> int \<Rightarrow> Endpoint \<times> bool" where
  "checkReplay e remote ts =
     (case lastSeen e remote of
        Some seen \<Rightarrow> if \<not> ts > seen then (e, False) else (e\<lparr>lastSeen := (lastSeen e)(remote \<mapsto> ts)\<rparr>, True)
      | None \<Rightarrow> (e\<lparr>lastSeen := (lastSeen e)(remote \<mapsto> ts)\<rparr>, True))"

text \<open>The responder up to its check of the timestamp, which is the only write to the endpoint.\<close>

record responder_state =
  rs_h :: bytes
  rs_ck :: bytes
  rs_ie :: bytes
  rs_remote :: bytes
  rs_ts :: int

definition responder_start :: "Crypto \<Rightarrow> Endpoint \<Rightarrow> bytes \<Rightarrow> noise_error + responder_state" where
  "responder_start C e input =
     (if length input < msg1Size then Inl ReadMsg1
      else
      let msg1 = take msg1Size input;
          ie = take KeySize msg1;
          staticCipher = slice KeySize (KeySize + KeySize + 16) msg1;
          timestampCipher = drop (KeySize + KeySize + 16) msg1;
          localPub = control_PublicKey C (localPriv e);
          h = initialHash C; ck = initialChainKey C;
          h = control_mixHash C h localPub;
          h = control_mixHash C h ie in
      bindE (opt_err DHes (control_sharedSecret C (localPriv e) ie)) (\<lambda>es.
      let (ck, key) = kdf2 C ck es in
      bindE (opt_err StaticDecrypt (aeadOpen C key h staticCipher)) (\<lambda>staticPlain.
      let remoteStatic = copy_at 0 staticPlain (replicate KeySize 0);
          h = control_mixHash C h staticCipher in
      if \<not> isKnown e remoteStatic then Inl UnknownPeer
      else
      bindE (opt_err DHss (control_sharedSecret C (localPriv e) remoteStatic)) (\<lambda>ss.
      let (ck, key) = kdf2 C ck ss in
      bindE (opt_err TimestampDecrypt (aeadOpen C key h timestampCipher)) (\<lambda>tsPlain.
      let h = control_mixHash C h timestampCipher;
          ts = sint (get_be64 tsPlain)
      in Inr \<lparr>rs_h = h, rs_ck = ck, rs_ie = ie, rs_remote = remoteStatic, rs_ts = ts\<rparr>)))))"

definition responder_finish ::
  "Crypto \<Rightarrow> bytes option \<Rightarrow> bool \<Rightarrow> responder_state \<Rightarrow> noise_error + bytes \<times> handshakeResult"
where
  "responder_finish C rnd write_ok st =
     bindE (opt_err GenerateEphemeral (GeneratePrivateKey rnd)) (\<lambda>rePriv.
     let rePub = control_PublicKey C rePriv; h = control_mixHash C (rs_h st) rePub in
     bindE (opt_err DHee (control_sharedSecret C rePriv (rs_ie st))) (\<lambda>ee.
     let (ck, key) = kdf2 C (rs_ck st) ee in
     bindE (opt_err DHse (control_sharedSecret C rePriv (rs_remote st))) (\<lambda>se.
     let (ck, key) = kdf2 C ck se;
         emptyCipher = aeadSeal C key h [];
         msg2 = rePub @ emptyCipher
     in if \<not> write_ok then Inl WriteMsg2
        else let (recvKey, sendKey) = kdf2 C ck []
             in Inr (msg2, \<lparr>hr_RemoteStatic = rs_remote st, SendKey = sendKey, RecvKey = recvKey\<rparr>))))"

text \<open>\<open>responderHandshake\<close> with the endpoint's \<open>checkReplay\<close>, as \<open>Accept\<close> calls it.\<close>

definition responderHandshake ::
  "Crypto \<Rightarrow> bytes option \<Rightarrow> bool \<Rightarrow> Endpoint \<Rightarrow> bytes \<Rightarrow> Endpoint \<times> (noise_error + bytes \<times> handshakeResult)"
where
  "responderHandshake C rnd write_ok e input =
     (case responder_start C e input of
        Inl err \<Rightarrow> (e, Inl err)
      | Inr st \<Rightarrow>
          let (e, fresh) = checkReplay e (rs_remote st) (rs_ts st)
          in if \<not> fresh then (e, Inl Replayed) else (e, responder_finish C rnd write_ok st))"

text \<open>
  The two ends as connections: the stream after the handshake is what is left of the input.
\<close>

definition Accept ::
  "Crypto \<Rightarrow> bytes option \<Rightarrow> bool \<Rightarrow> nat \<Rightarrow> Endpoint \<Rightarrow> bytes \<Rightarrow> Endpoint \<times> (noise_error + bytes \<times> Conn)"
where
  "Accept C rnd write_ok room e input =
     (let (e, r) = responderHandshake C rnd write_ok e input
      in (e, bindE r (\<lambda>(msg2, hr). Inr (msg2, newConn (drop msg1Size input) [] room hr))))"

definition handshakeOverConn ::
  "Crypto \<Rightarrow> bytes option \<Rightarrow> u64 \<Rightarrow> bool \<Rightarrow> nat \<Rightarrow> bytes \<Rightarrow> bytes \<Rightarrow> bytes \<Rightarrow> noise_error + Conn"
where
  "handshakeOverConn C rnd unixNano write_ok room reply priv remoteStatic =
     (let localPub = control_PublicKey C priv in
      bindE (initiatorHandshake C rnd unixNano write_ok reply priv localPub remoteStatic) (\<lambda>hr.
      if hr_RemoteStatic hr \<noteq> remoteStatic then Inl RemoteMismatch
      else Inr (newConn (drop msg2Size reply) [] room hr)))"

lemma opt_err_simps [simp]: "opt_err e None = Inl e" "opt_err e (Some v) = Inr v"
  by (simp_all add: opt_err_def)

subsection \<open>The two sides agree\<close>

lemma copy_static: "length pk = 32 \<Longrightarrow> copy_at 0 pk (replicate KeySize 0) = pk"
  by (simp add: copy_at_fits KeySize_def)

lemma msg1_parts:
  assumes "length p = 32" "length s = 48" "length t = 24"
  shows "take msg1Size (p @ s @ t @ r) = p @ s @ t" "take KeySize (p @ s @ t) = p"
    "slice KeySize (KeySize + KeySize + 16) (p @ s @ t) = s" "drop (KeySize + KeySize + 16) (p @ s @ t) = t"
    "\<not> length (p @ s @ t @ r) < msg1Size" "length (p @ s @ t) = msg1Size"
  using assms by (simp_all add: msg1Size_def KeySize_def slice_def)

text \<open>The responder, reading what the initiator wrote, reaches the initiator's transcript.\<close>

lemma start_agree:
  assumes C: "crypto_ok C" and e1: "GeneratePrivateKey rnd = Some e1"
    and es: "sharedSecret C e1 (publicKey C (localPriv e)) = Some es"
    and ss: "sharedSecret C priv (publicKey C (localPriv e)) = Some ss"
    and known: "isKnown e (publicKey C priv)"
  shows "\<exists>st msg1.
    initiator_start C rnd ts priv (publicKey C priv) (publicKey C (localPriv e)) = Inr (st, msg1) \<and>
    is_ePriv st = e1 \<and>
    responder_start C e (msg1 @ rest) =
      Inr \<lparr>rs_h = is_h st, rs_ck = is_ck st, rs_ie = publicKey C e1,
           rs_remote = publicKey C priv, rs_ts = sint ts\<rparr>"
proof -
  let ?B = "publicKey C (localPriv e)" and ?A = "publicKey C priv" and ?E = "publicKey C e1"
  define h1 where "h1 = control_mixHash C (control_mixHash C (initialHash C) ?B) ?E"
  obtain ck1 k1 where k1: "kdf2 C (initialChainKey C) es = (ck1, k1)" by force
  define S where "S = aeadSeal C k1 h1 ?A"
  define h2 where "h2 = control_mixHash C h1 S"
  obtain ck2 k2 where k2: "kdf2 C ck1 ss = (ck2, k2)" by force
  define T where "T = aeadSeal C k2 h2 (put_be64 ts)"
  have len: "length ?E = 32" "length S = 48" "length T = 24" "length ?A = 32"
    using C by (simp_all add: S_def T_def publicKey_def aeadSeal_def crypto_laws)
  have es': "sharedSecret C (localPriv e) ?E = Some es" and ss': "sharedSecret C (localPriv e) ?A = Some ss"
    using es ss C by (simp_all add: sharedSecret_agree)
  have opens: "aeadOpen C k1 h1 S = Some ?A" "aeadOpen C k2 h2 T = Some (put_be64 ts)"
    using C by (simp_all add: S_def T_def aeadOpen_def aeadSeal_def crypto_laws)
  note parts = msg1_parts [OF len(1-3)]
  have "initiator_start C rnd ts priv ?A ?B =
      Inr (\<lparr>is_h = control_mixHash C h2 T, is_ck = ck2, is_ePriv = e1\<rparr>, ?E @ S @ T)"
    using parts(6)
    by (simp add: initiator_start_def e1 es ss k1 k2 control_sharedSecret_eq control_PublicKey_def
        Let_def flip: publicKey_def h1_def S_def h2_def T_def)
  moreover have "responder_start C e ((?E @ S @ T) @ rest) =
      Inr \<lparr>rs_h = control_mixHash C h2 T, rs_ck = ck2, rs_ie = ?E, rs_remote = ?A, rs_ts = sint ts\<rparr>"
    using parts known
    by (simp add: responder_start_def es' ss' k1 k2 opens copy_static len control_sharedSecret_eq
        control_PublicKey_def Let_def flip: publicKey_def h1_def h2_def)
  ultimately show ?thesis by auto
qed

lemma finish_agree:
  assumes C: "crypto_ok C" and e2: "GeneratePrivateKey rnd = Some e2"
    and ee: "sharedSecret C e2 (publicKey C (is_ePriv st)) = Some ee"
    and se: "sharedSecret C e2 (publicKey C priv) = Some se"
    and rs: "rs_h rs = is_h st" "rs_ck rs = is_ck st" "rs_ie rs = publicKey C (is_ePriv st)"
      "rs_remote rs = publicKey C priv"
  shows "\<exists>msg2 k1 k2. length msg2 = msg2Size \<and>
    responder_finish C rnd True rs =
      Inr (msg2, \<lparr>hr_RemoteStatic = publicKey C priv, SendKey = k2, RecvKey = k1\<rparr>) \<and>
    initiator_finish C st priv remote msg2 =
      Inr \<lparr>hr_RemoteStatic = remote, SendKey = k1, RecvKey = k2\<rparr>"
proof -
  let ?E = "publicKey C e2"
  have ee': "sharedSecret C (is_ePriv st) ?E = Some ee" and se': "sharedSecret C priv ?E = Some se"
    using ee se C by (simp_all add: sharedSecret_agree)
  have lenE: "length ?E = KeySize" using C by (simp add: publicKey_def crypto_laws KeySize_def)
  obtain ck1 k1 where k1: "kdf2 C (is_ck st) ee = (ck1, k1)" by force
  obtain ck2 k2 where k2: "kdf2 C ck1 se = (ck2, k2)" by force
  obtain s r where k3: "kdf2 C ck2 [] = (s, r)" by force
  define h where "h = control_mixHash C (is_h st) ?E"
  define T where "T = aeadSeal C k2 h []"
  have T: "aeadOpen C k2 h T = Some []" "length (?E @ T) = msg2Size"
    using C lenE by (simp_all add: T_def aeadOpen_def aeadSeal_def crypto_laws msg2Size_def)
  have "responder_finish C rnd True rs =
      Inr (?E @ T, \<lparr>hr_RemoteStatic = publicKey C priv, SendKey = r, RecvKey = s\<rparr>)"
    using rs by (simp add: responder_finish_def e2 ee se k1 k2 k3 control_sharedSecret_eq
        control_PublicKey_def Let_def flip: publicKey_def h_def T_def)
  moreover have "initiator_finish C st priv remote (?E @ T) =
      Inr \<lparr>hr_RemoteStatic = remote, SendKey = s, RecvKey = r\<rparr>"
    by (simp add: initiator_finish_def ee' se' k1 k2 k3 T lenE control_sharedSecret_eq Let_def
        flip: h_def)
  ultimately show ?thesis using T by auto
qed

definition fresh_for :: "Endpoint \<Rightarrow> bytes \<Rightarrow> int \<Rightarrow> bool" where
  "fresh_for e pk ts \<longleftrightarrow> (case lastSeen e pk of None \<Rightarrow> True | Some t \<Rightarrow> t < ts)"

lemma checkReplay_fresh:
  "checkReplay e pk ts = (if fresh_for e pk ts then (e\<lparr>lastSeen := (lastSeen e)(pk \<mapsto> ts)\<rparr>, True) else (e, False))"
  by (auto simp: checkReplay_def fresh_for_def split: option.splits)

text \<open>The Diffie-Hellman results of an honest run, none of them the all-zero value.\<close>

definition dh_nonzero :: "Crypto \<Rightarrow> bytes \<Rightarrow> bytes \<Rightarrow> bytes \<Rightarrow> bytes \<Rightarrow> bool" where
  "dh_nonzero C priv e1 peer e2 \<longleftrightarrow>
     sharedSecret C e1 (publicKey C peer) \<noteq> None \<and> sharedSecret C priv (publicKey C peer) \<noteq> None \<and>
     sharedSecret C e2 (publicKey C e1) \<noteq> None \<and> sharedSecret C e2 (publicKey C priv) \<noteq> None"

lemma handshake_agree:
  assumes "crypto_ok C" "GeneratePrivateKey rnd1 = Some e1" "GeneratePrivateKey rnd2 = Some e2"
    "dh_nonzero C priv e1 (localPriv e) e2" "isKnown e (publicKey C priv)"
    "fresh_for e (publicKey C priv) (sint ts)"
  shows "\<exists>st msg1 msg2 k1 k2.
    initiator_start C rnd1 ts priv (publicKey C priv) (publicKey C (localPriv e)) = Inr (st, msg1) \<and>
    responderHandshake C rnd2 True e msg1 =
      (e\<lparr>lastSeen := (lastSeen e)(publicKey C priv \<mapsto> sint ts)\<rparr>,
       Inr (msg2, \<lparr>hr_RemoteStatic = publicKey C priv, SendKey = k2, RecvKey = k1\<rparr>)) \<and>
    initiatorHandshake C rnd1 ts True msg2 priv (publicKey C priv) (publicKey C (localPriv e)) =
      Inr \<lparr>hr_RemoteStatic = publicKey C (localPriv e), SendKey = k1, RecvKey = k2\<rparr>"
proof -
  from assms(4) obtain es ss ee se where dh:
    "sharedSecret C e1 (publicKey C (localPriv e)) = Some es"
    "sharedSecret C priv (publicKey C (localPriv e)) = Some ss"
    "sharedSecret C e2 (publicKey C e1) = Some ee" "sharedSecret C e2 (publicKey C priv) = Some se"
    by (auto simp: dh_nonzero_def)
  from start_agree [OF assms(1,2) dh(1,2) assms(5), of ts "[]"] obtain st msg1 where
    st: "initiator_start C rnd1 ts priv (publicKey C priv) (publicKey C (localPriv e)) = Inr (st, msg1)"
      "is_ePriv st = e1" "responder_start C e msg1 =
        Inr \<lparr>rs_h = is_h st, rs_ck = is_ck st, rs_ie = publicKey C e1,
             rs_remote = publicKey C priv, rs_ts = sint ts\<rparr>"
    by auto
  from finish_agree [OF assms(1,3), of st ee priv se, where remote = "publicKey C (localPriv e)" and
      rs = "\<lparr>rs_h = is_h st, rs_ck = is_ck st, rs_ie = publicKey C e1,
             rs_remote = publicKey C priv, rs_ts = sint ts\<rparr>"] dh st(2)
  obtain msg2 k1 k2 where fin: "length msg2 = msg2Size"
      "responder_finish C rnd2 True \<lparr>rs_h = is_h st, rs_ck = is_ck st, rs_ie = publicKey C e1,
             rs_remote = publicKey C priv, rs_ts = sint ts\<rparr> =
        Inr (msg2, \<lparr>hr_RemoteStatic = publicKey C priv, SendKey = k2, RecvKey = k1\<rparr>)"
      "initiator_finish C st priv (publicKey C (localPriv e)) msg2 =
        Inr \<lparr>hr_RemoteStatic = publicKey C (localPriv e), SendKey = k1, RecvKey = k2\<rparr>"
    by auto
  show ?thesis
    by (rule exI [of _ st], rule exI [of _ msg1], rule exI [of _ msg2], rule exI [of _ k1],
        rule exI [of _ k2])
       (simp add: st fin assms(6) responderHandshake_def initiatorHandshake_def checkReplay_fresh)
qed

subsection \<open>Replayed initiations\<close>

type_synonym accept_request = "bytes option \<times> bool \<times> bytes"

definition accept_call ::
  "Crypto \<Rightarrow> Endpoint \<Rightarrow> accept_request \<Rightarrow> Endpoint \<times> (noise_error + bytes \<times> handshakeResult)"
where
  "accept_call C e r = responderHandshake C (fst r) (fst (snd r)) e (snd (snd r))"

lemma responder_start_lastSeen [simp]:
  "responder_start C (e\<lparr>lastSeen := l\<rparr>) input = responder_start C e input"
proof -
  have "localPriv (e\<lparr>lastSeen := l\<rparr>) = localPriv e" "isKnown (e\<lparr>lastSeen := l\<rparr>) = isKnown e"
    by simp_all
  then show ?thesis by (simp only: responder_start_def)
qed

lemma accept_call_endpoint: "\<exists>l. fst (accept_call C e r) = e\<lparr>lastSeen := l\<rparr>"
proof -
  have "\<exists>l. e = e\<lparr>lastSeen := l\<rparr>" by (intro exI [of _ "lastSeen e"]) simp
  then show ?thesis
    by (auto simp: accept_call_def responderHandshake_def checkReplay_fresh split: sum.splits)
qed

definition seen_at_least :: "bytes \<Rightarrow> int \<Rightarrow> Endpoint \<Rightarrow> bool" where
  "seen_at_least pk t e \<longleftrightarrow> (\<exists>t'. lastSeen e pk = Some t' \<and> t \<le> t')"

interpretation seen: step_invariant "accept_call C" "seen_at_least pk t" for C pk t
proof
  fix e r
  assume "seen_at_least pk t e"
  then show "seen_at_least pk t (fst (accept_call C e r))"
    by (auto simp: seen_at_least_def accept_call_def responderHandshake_def checkReplay_fresh
        fresh_for_def split: sum.splits)
qed

lemma run_endpoint: "\<exists>l. fst (run_calls (accept_call C) e rs) = e\<lparr>lastSeen := l\<rparr>"
proof (induction rs arbitrary: e)
  case Nil
  show ?case by (intro exI [of _ "lastSeen e"]) simp
next
  case (Cons r rs)
  obtain l where "fst (accept_call C e r) = e\<lparr>lastSeen := l\<rparr>" using accept_call_endpoint by blast
  then show ?case using Cons [of "e\<lparr>lastSeen := l\<rparr>"] by auto
qed

lemma accepted_seen:
  assumes "snd (accept_call C e r) = Inr x"
  shows "\<exists>st. responder_start C e (snd (snd r)) = Inr st \<and>
    seen_at_least (rs_remote st) (rs_ts st) (fst (accept_call C e r))"
  using assms
  by (auto simp: accept_call_def responderHandshake_def checkReplay_fresh seen_at_least_def
      split: sum.splits if_splits)

lemma seen_refused:
  assumes "responder_start C e (snd (snd r)) = Inr st" "seen_at_least (rs_remote st) (rs_ts st) e"
  shows "snd (accept_call C e r) = Inl Replayed"
  using assms
  by (auto simp: accept_call_def responderHandshake_def checkReplay_fresh seen_at_least_def fresh_for_def)

subsection \<open>Properties\<close>

text \<open>C10: An honest control handshake succeeds and agrees. When the responder knows the initiator's
  key and its timestamp is newer than the last one seen from it, both functions return, each
  side's send key is the other's receive key, the responder learns the initiator's static
  key, and the timestamp is recorded. The random bytes, the clock and the keys are arbitrary.\<close>

theorem control_handshake_agrees:
  assumes "crypto_ok C" and "GeneratePrivateKey rnd1 = Some e1" and "GeneratePrivateKey rnd2 = Some e2"
    and "dh_nonzero C priv e1 (localPriv e) e2" and "isKnown e (publicKey C priv)"
    and "fresh_for e (publicKey C priv) (sint ts)"
  shows "\<exists>st msg1 msg2 k1 k2.
    initiator_start C rnd1 ts priv (publicKey C priv) (publicKey C (localPriv e)) = Inr (st, msg1) \<and>
    responderHandshake C rnd2 True e msg1 =
      (e\<lparr>lastSeen := (lastSeen e)(publicKey C priv \<mapsto> sint ts)\<rparr>,
       Inr (msg2, \<lparr>hr_RemoteStatic = publicKey C priv, SendKey = k2, RecvKey = k1\<rparr>)) \<and>
    initiatorHandshake C rnd1 ts True msg2 priv (publicKey C priv) (publicKey C (localPriv e)) =
      Inr \<lparr>hr_RemoteStatic = publicKey C (localPriv e), SendKey = k1, RecvKey = k2\<rparr>"
  by (rule handshake_agree [OF assms])

definition demo_endpoint :: Endpoint where
  "demo_endpoint = NewEndpoint (replicate 32 2) (\<lambda>pk. pk = publicKey demo_crypto (replicate 32 1))"

lemma demo_nonzero:
  assumes "as \<noteq> []" "hd as \<noteq> 0"
  shows "sharedSecret demo_crypto as (publicKey demo_crypto bs) \<noteq> None"
proof -
  obtain x xs where x: "pad_to 32 as = x # xs" "x \<noteq> 0" using assms by (cases as) (auto simp: pad_to_def)
  obtain y ys where y: "pad_to 32 (pad_to 32 bs) = y # ys"
    using length_pad_to [of 32 "pad_to 32 bs"]
    by (cases "pad_to 32 (pad_to 32 bs)") (auto simp del: pad_to_idem)
  have "x OR y \<in> set (scalar_mult demo_crypto as (publicKey demo_crypto bs))"
    by (simp add: demo_crypto_def publicKey_def x y del: pad_to_idem)
  moreover have "x OR y \<noteq> 0" using x(2) by (simp add: or_eq_0_iff)
  ultimately show ?thesis by (auto simp: sharedSecret_def isZero_iff Let_def)
qed

lemma demo_key: "GeneratePrivateKey (Some (8 # replicate 31 9)) = Some (8 # replicate 30 9 @ [73])"
  by (simp add: GeneratePrivateKey_def numeral_eq_Suc)

theorem control_handshake_agrees_witness:
  "\<exists>st msg1 msg2 k1 k2.
    initiator_start demo_crypto (Some (8 # replicate 31 9)) 5 (replicate 32 1)
      (publicKey demo_crypto (replicate 32 1)) (publicKey demo_crypto (localPriv demo_endpoint)) = Inr (st, msg1) \<and>
    responderHandshake demo_crypto (Some (8 # replicate 31 9)) True demo_endpoint msg1 =
      (demo_endpoint\<lparr>lastSeen := (lastSeen demo_endpoint)(publicKey demo_crypto (replicate 32 1) \<mapsto> sint (5 :: u64))\<rparr>,
       Inr (msg2, \<lparr>hr_RemoteStatic = publicKey demo_crypto (replicate 32 1), SendKey = k2, RecvKey = k1\<rparr>)) \<and>
    initiatorHandshake demo_crypto (Some (8 # replicate 31 9)) 5 True msg2 (replicate 32 1)
      (publicKey demo_crypto (replicate 32 1)) (publicKey demo_crypto (localPriv demo_endpoint)) =
      Inr \<lparr>hr_RemoteStatic = publicKey demo_crypto (localPriv demo_endpoint), SendKey = k1, RecvKey = k2\<rparr>"
  by (rule control_handshake_agrees [OF demo_crypto_ok demo_key demo_key])
     (simp_all add: dh_nonzero_def demo_nonzero demo_endpoint_def NewEndpoint_def fresh_for_def)

text \<open>C19: A replayed initiation never opens a second session: of two connections to one endpoint
  that present the same first message, if the first is accepted the second is refused,
  whatever other connections come in between and whatever the random bytes are.\<close>

theorem control_no_replayed_initiation:
  assumes "i < j" and "j < length rs" and "snd (snd (rs ! i)) = snd (snd (rs ! j))"
    and "snd (run_calls (accept_call C) e rs) ! i = Inr x"
  shows "snd (run_calls (accept_call C) e rs) ! j = Inl Replayed"
proof -
  let ?e = "\<lambda>k. fst (run_calls (accept_call C) e (take k rs))"
  have "snd (accept_call C (?e i) (rs ! i)) = Inr x" using assms by (simp add: snd_run_calls_nth)
  from accepted_seen [OF this] obtain st where
    st: "responder_start C (?e i) (snd (snd (rs ! i))) = Inr st"
      "seen_at_least (rs_remote st) (rs_ts st) (?e (Suc i))"
    using assms by (auto simp: take_Suc_conv_app_nth fst_run_calls_append)
  have "take j rs = take (Suc i) rs @ take (j - Suc i) (drop (Suc i) rs)"
    using assms(1) by (metis Suc_leI le_add_diff_inverse take_add)
  then have "seen_at_least (rs_remote st) (rs_ts st) (?e j)"
    using seen.run_keeps [OF st(2)] by (simp add: fst_run_calls_append)
  moreover obtain l where "?e i = e\<lparr>lastSeen := l\<rparr>" using run_endpoint by blast
  moreover obtain l' where "?e j = e\<lparr>lastSeen := l'\<rparr>" using run_endpoint by blast
  ultimately show ?thesis
    using st assms by (simp add: snd_run_calls_nth seen_refused)
qed

lemma demo_accepts:
  "\<exists>msg1 x. snd (responderHandshake demo_crypto (Some (8 # replicate 31 9)) True demo_endpoint msg1) = Inr x"
proof -
  have "dh_nonzero demo_crypto (replicate 32 1) (8 # replicate 30 9 @ [73]) (localPriv demo_endpoint)
      (8 # replicate 30 9 @ [73])"
    by (simp add: dh_nonzero_def demo_nonzero)
  moreover have "isKnown demo_endpoint (publicKey demo_crypto (replicate 32 1))"
      "fresh_for demo_endpoint (publicKey demo_crypto (replicate 32 1)) (sint (5 :: u64))"
    by (simp_all add: demo_endpoint_def NewEndpoint_def fresh_for_def)
  ultimately show ?thesis
    using handshake_agree [OF demo_crypto_ok demo_key demo_key] by (metis snd_conv)
qed

theorem control_no_replayed_initiation_witness:
  "\<exists>msg1 x.
     snd (run_calls (accept_call demo_crypto) demo_endpoint
       [(Some (8 # replicate 31 9), True, msg1), (None, True, []), (Some (replicate 32 4), True, msg1)]) ! 0 = Inr x \<and>
     snd (run_calls (accept_call demo_crypto) demo_endpoint
       [(Some (8 # replicate 31 9), True, msg1), (None, True, []), (Some (replicate 32 4), True, msg1)]) ! 2 = Inl Replayed"
proof -
  obtain msg1 x where
    ok: "snd (responderHandshake demo_crypto (Some (8 # replicate 31 9)) True demo_endpoint msg1) = Inr x"
    using demo_accepts by blast
  let ?rs = "[(Some (8 # replicate 31 9), True, msg1), (None, True, []), (Some (replicate 32 4), True, msg1)]"
  have run: "snd (run_calls (accept_call demo_crypto) demo_endpoint ?rs) ! 0 = Inr x"
    using ok by (simp add: accept_call_def)
  moreover have "snd (run_calls (accept_call demo_crypto) demo_endpoint ?rs) ! 2 = Inl Replayed"
    by (rule control_no_replayed_initiation [OF _ _ _ run]) simp_all
  ultimately show ?thesis by blast
qed

end
