(* ===== verification/AddrBits.thy ===== *)
theory AddrBits
  imports GoPrelude "HOL-Library.Sublist"
begin

text \<open>
  The bit string of an address, most significant bit first, and what the bit-level helpers of
  src/device/allowedips.go compute on it: \<open>commonBits\<close> is the length of the longest common
  prefix, \<open>node_choose\<close> reads one bit, \<open>mask_self\<close> clears the bits after the first \<open>cidr\<close>.
\<close>

subsection \<open>The code\<close>

text \<open>\<open>bits.LeadingZeros32\<close> and \<open>bits.LeadingZeros64\<close>.\<close>

definition leading_zeros :: "'a :: len word \<Rightarrow> nat" where
  "leading_zeros w = length (takeWhile Not (map (bit w) (rev [0..<LENGTH('a)])))"

text \<open>\<open>None\<close> is a panic: a wrong size, or a second address that is too short to be read.\<close>

definition commonBits :: "bytes \<Rightarrow> bytes \<Rightarrow> nat option" where
  "commonBits ip1 ip2 =
     (let size = length ip1
      in if size = 4 then
           if length ip2 < 4 then None
           else Some (leading_zeros (get_be32 ip1 XOR get_be32 ip2))
         else if size = 16 then
           if length ip2 < 8 then None
           else let x = get_be64 ip1 XOR get_be64 ip2
                in if x \<noteq> 0 then Some (leading_zeros x)
                   else if length ip2 < 16 then None
                   else Some (64 + leading_zeros (get_be64 (drop 8 ip1) XOR get_be64 (drop 8 ip2)))
         else None)"

definition node_choose :: "nat \<Rightarrow> bytes \<Rightarrow> bool option" where
  "node_choose cidr ip =
     (let bitAtByte = cidr div 8; bitAtShift = 7 - cidr mod 8
      in if bitAtByte < length ip
         then Some (drop_bit bitAtShift (ip ! bitAtByte) AND 1 = 1) else None)"

text \<open>\<open>net.CIDRMask\<close>, which is nil when the number of ones does not fit.\<close>

fun cidr_mask_bytes :: "nat \<Rightarrow> nat \<Rightarrow> bytes" where
  "cidr_mask_bytes 0 n = []"
| "cidr_mask_bytes (Suc l) n =
     (if n \<ge> 8 then 0xff # cidr_mask_bytes l (n - 8)
      else NOT (drop_bit n 0xff) # cidr_mask_bytes l 0)"

definition CIDRMask :: "nat \<Rightarrow> nat \<Rightarrow> bytes" where
  "CIDRMask ones n = (if ones > n then [] else cidr_mask_bytes (n div 8) ones)"

definition mask_self :: "bytes \<Rightarrow> nat \<Rightarrow> bytes" where
  "mask_self b cidr =
     (let mask = CIDRMask cidr (length b * 8)
      in map2 (AND) (take (length mask) b) mask @ drop (length mask) b)"

subsection \<open>Bit strings\<close>

definition byte_bits :: "byte \<Rightarrow> bool list" where
  "byte_bits b = [bit b 7, bit b 6, bit b 5, bit b 4, bit b 3, bit b 2, bit b 1, bit b 0]"

definition bits_of :: "bytes \<Rightarrow> bool list" where
  "bits_of ip = concat (map byte_bits ip)"

lemma bits_of_simps [simp]:
  "bits_of [] = []" "bits_of (b # bs) = byte_bits b @ bits_of bs" "bits_of (as @ bs) = bits_of as @ bits_of bs"
  by (simp_all add: bits_of_def)

lemma length_byte_bits [simp]: "length (byte_bits b) = 8"
  by (simp add: byte_bits_def)

lemma length_bits_of [simp]: "length (bits_of ip) = 8 * length ip"
  by (induction ip) auto

lemma byte_bits_inject: "byte_bits a = byte_bits b \<longleftrightarrow> a = b"
proof
  assume eq: "byte_bits a = byte_bits b"
  show "a = b"
  proof (rule bit_word_eqI)
    fix n assume "n < LENGTH(8)"
    then have "n \<in> {0, 1, 2, 3, 4, 5, 6, 7}" by auto
    with eq show "bit a n = bit b n" by (auto simp: byte_bits_def)
  qed
qed simp

lemma bits_of_inject: "length as = length bs \<Longrightarrow> bits_of as = bits_of bs \<longleftrightarrow> as = bs"
  by (induction as bs rule: list_induct2) (auto simp: byte_bits_inject)

lemma byte_bits_nth: "i < 8 \<Longrightarrow> byte_bits b ! i = bit b (7 - i)"
proof -
  assume "i < 8"
  then have "i \<in> {0, 1, 2, 3, 4, 5, 6, 7}" by auto
  then show ?thesis by (auto simp: byte_bits_def)
qed

lemma bits_of_nth: "n < 8 * length ip \<Longrightarrow> bits_of ip ! n = bit (ip ! (n div 8)) (7 - n mod 8)"
proof (induction ip arbitrary: n)
  case (Cons b ip)
  show ?case
  proof (cases "n < 8")
    case True
    then show ?thesis by (simp add: nth_append byte_bits_nth)
  next
    case False
    then obtain m where "n = m + 8" by (metis add.commute le_Suc_ex not_less)
    moreover have "(m + 8) div 8 = Suc (m div 8)" by simp
    ultimately show ?thesis using Cons by (simp add: nth_append)
  qed
qed simp

lemma bit_one_and: "(w AND 1 = 1) = bit w 0" for w :: byte
  by (simp add: and_one_eq bit_0 odd_iff_mod_2_eq_one)

lemma node_choose_bit: "c < 8 * length ip \<Longrightarrow> node_choose c ip = Some (bits_of ip ! c)"
  by (auto simp: node_choose_def bits_of_nth Let_def bit_one_and bit_drop_bit_eq)

subsection \<open>The longest common prefix\<close>

fun lcp :: "bool list \<Rightarrow> bool list \<Rightarrow> nat" where
  "lcp (x # xs) (y # ys) = (if x = y then Suc (lcp xs ys) else 0)"
| "lcp _ _ = 0"

lemma lcp_bound: "lcp xs ys \<le> length xs" "lcp xs ys \<le> length ys"
  by (induction xs ys rule: lcp.induct) auto

lemma take_lcp: "take (lcp xs ys) xs = take (lcp xs ys) ys"
  by (induction xs ys rule: lcp.induct) auto

lemma lcp_ge_iff: "c \<le> length xs \<Longrightarrow> c \<le> length ys \<Longrightarrow> c \<le> lcp xs ys \<longleftrightarrow> take c xs = take c ys"
proof (induction xs ys arbitrary: c rule: lcp.induct)
  case (1 x xs y ys)
  then show ?case by (cases c) auto
qed auto

lemma lcp_differ: "lcp xs ys < length xs \<Longrightarrow> lcp xs ys < length ys \<Longrightarrow> xs ! lcp xs ys \<noteq> ys ! lcp xs ys"
  by (induction xs ys rule: lcp.induct) (auto split: if_splits)

lemma lcp_append:
  "length xs = length ys \<Longrightarrow>
     lcp (xs @ us) (ys @ vs) = (if xs = ys then length xs + lcp us vs else lcp xs ys)"
  by (induction xs ys rule: list_induct2) auto

lemma lcp_takeWhile: "length xs = length ys \<Longrightarrow> length (takeWhile Not (map2 (\<noteq>) xs ys)) = lcp xs ys"
  by (induction xs ys rule: list_induct2) auto

lemma lcp_takeWhile_map:
  "length (takeWhile Not (map (\<lambda>i. f i \<noteq> g i) is)) = lcp (map f is) (map g is)"
  by (induction "is") auto

text \<open>The bits of the integer read from an address are the bits of the address.\<close>

lemma bit_add_shift:
  fixes a m :: nat
  assumes "m < 2 ^ k"
  shows "bit (a * 2 ^ k + m) n = (if n < k then bit m n else bit a (n - k))"
proof -
  let ?x = "a * 2 ^ k + m"
  have "take_bit k ?x = m" "drop_bit k ?x = a"
    using assms by (simp_all add: take_bit_eq_mod drop_bit_eq_div)
  moreover have "bit (take_bit k ?x) n = bit ?x n" if "n < k" using that by (simp add: bit_take_bit_iff)
  moreover have "bit (drop_bit k ?x) (n - k) = bit ?x n" if "k \<le> n" using that by (simp add: bit_drop_bit_eq)
  ultimately show ?thesis by (metis not_le)
qed

lemma map_bit_shift: "map (\<lambda>n. bit (a :: nat) (n - k)) (rev [k..<k + l]) = map (bit a) (rev [0..<l])"
  by (induction l) auto

lemma bits_of_get_be: "bits_of ip = map (bit (get_be ip)) (rev [0..<8 * length ip])"
proof (induction ip)
  case (Cons b ip)
  let ?k = "8 * length ip"
  have "get_be ip < 2 ^ ?k" using get_be_less [of ip] by (simp add: power_mult)
  then have bit: "bit (get_be (b # ip)) n = (if n < ?k then bit (get_be ip) n else bit (unat b) (n - ?k))" for n
    using bit_add_shift [of "get_be ip" ?k "unat b" n] by (simp add: get_be_Cons power_mult)
  have "rev [0..<8 * length (b # ip)] = rev [?k..<?k + 8] @ rev [0..<?k]"
    by (metis (no_types) add.commute le_add1 length_Cons mult_Suc_right rev_append upt_add_eq_append zero_le)
  then have "map (bit (get_be (b # ip))) (rev [0..<8 * length (b # ip)]) =
      map (\<lambda>n. bit (unat b) (n - ?k)) (rev [?k..<?k + 8]) @ map (bit (get_be ip)) (rev [0..<?k])"
    by (simp add: bit)
  also have "map (\<lambda>n. bit (unat b) (n - ?k)) (rev [?k..<?k + 8]) = byte_bits b"
    unfolding map_bit_shift by (simp add: byte_bits_def bit_unsigned_iff upt_rec eval_nat_numeral)
  finally show ?case using Cons by simp
qed simp

lemma map_bit_get_be32: "length ip = 4 \<Longrightarrow> map (bit (get_be32 ip)) (rev [0..<32]) = bits_of ip"
  unfolding bits_of_get_be by (rule map_cong) (auto simp: get_be32_def bit_simps)

lemma map_bit_get_be64: "8 \<le> length ip \<Longrightarrow> map (bit (get_be64 ip)) (rev [0..<64]) = bits_of (take 8 ip)"
  unfolding bits_of_get_be by (rule map_cong) (auto simp: get_be64_def bit_simps min_def split: if_splits)

lemma leading_zeros_xor:
  "leading_zeros (v XOR w) = lcp (map (bit v) (rev [0..<LENGTH('a)])) (map (bit w) (rev [0..<LENGTH('a)]))"
  for v w :: "'a :: len word"
proof -
  have "bit (v XOR w) = (\<lambda>i. bit v i \<noteq> bit w i)" by (simp add: fun_eq_iff bit_xor_iff)
  then show ?thesis by (simp only: leading_zeros_def lcp_takeWhile_map)
qed

lemma xor_zero_iff: "v XOR w = 0 \<longleftrightarrow> v = w" for v w :: u64
  by (auto simp: bit_eq_iff bit_xor_iff)

definition addr_size :: "nat \<Rightarrow> bool" where
  "addr_size n \<longleftrightarrow> n = 4 \<or> n = 16"

lemma commonBits_lcp:
  assumes "length ip1 = length ip2" "addr_size (length ip1)"
  shows "commonBits ip1 ip2 = Some (lcp (bits_of ip1) (bits_of ip2))"
proof (cases "length ip1 = 4")
  case True
  then show ?thesis
    using assms by (simp add: commonBits_def leading_zeros_xor map_bit_get_be32)
next
  case False
  with assms have len: "length ip1 = 16" "length ip2 = 16" by (auto simp: addr_size_def)
  let ?a = "bits_of (take 8 ip1)" and ?b = "bits_of (take 8 ip2)"
  have split: "bits_of ip1 = ?a @ bits_of (drop 8 ip1)" "bits_of ip2 = ?b @ bits_of (drop 8 ip2)"
    using bits_of_simps(3) [of "take 8 ip1" "drop 8 ip1"] bits_of_simps(3) [of "take 8 ip2" "drop 8 ip2"]
    by simp_all
  have half: "map (bit (get_be64 ip1)) (rev [0..<64]) = ?a" "map (bit (get_be64 ip2)) (rev [0..<64]) = ?b"
      "map (bit (get_be64 (drop 8 ip1))) (rev [0..<64]) = bits_of (drop 8 ip1)"
      "map (bit (get_be64 (drop 8 ip2))) (rev [0..<64]) = bits_of (drop 8 ip2)"
    using len by (simp_all only: map_bit_get_be64 length_drop) simp_all
  have eq: "get_be64 ip1 = get_be64 ip2 \<longleftrightarrow> ?a = ?b"
  proof
    assume "get_be64 ip1 = get_be64 ip2"
    then show "?a = ?b" using half(1,2) by simp
  next
    assume "?a = ?b"
    then have "take 8 ip1 = take 8 ip2" using len by (simp add: bits_of_inject)
    then show "get_be64 ip1 = get_be64 ip2" by (simp add: get_be64_def)
  qed
  have lz: "leading_zeros (get_be64 ip1 XOR get_be64 ip2) = lcp ?a ?b"
      "leading_zeros (get_be64 (drop 8 ip1) XOR get_be64 (drop 8 ip2)) =
        lcp (bits_of (drop 8 ip1)) (bits_of (drop 8 ip2))"
    using half by (simp_all only: leading_zeros_xor len_of_numeral_defs) simp_all
  have "lcp (bits_of ip1) (bits_of ip2) =
      (if ?a = ?b then 64 + lcp (bits_of (drop 8 ip1)) (bits_of (drop 8 ip2)) else lcp ?a ?b)"
    unfolding split by (subst lcp_append) (simp_all add: len)
  then show ?thesis using len eq by (simp add: commonBits_def Let_def xor_zero_iff lz)
qed

subsection \<open>Masking\<close>

lemma length_cidr_mask_bytes [simp]: "length (cidr_mask_bytes l n) = l"
  by (induction l n rule: cidr_mask_bytes.induct) auto

lemma bit_ff: "bit (0xff :: byte) k \<longleftrightarrow> k < 8"
proof -
  have "(0xff :: byte) = mask 8" by (simp add: mask_eq_exp_minus_1)
  then show ?thesis by (simp only: bit_mask_iff) auto
qed

lemma byte_bits_ff: "byte_bits (b AND 0xff) = byte_bits b"
  unfolding byte_bits_def bit_and_iff bit_ff by simp

lemma byte_bits_masked:
  assumes "n < 8"
  shows "byte_bits (b AND NOT (drop_bit n 0xff)) = take n (byte_bits b) @ replicate (8 - n) False"
proof (rule nth_equalityI)
  fix i assume "i < length (byte_bits (b AND NOT (drop_bit n 0xff)))"
  then have i: "i < 8" by simp
  have "bit (NOT (drop_bit n 0xff) :: byte) (7 - i) \<longleftrightarrow> i < n"
    unfolding bit_not_iff bit_drop_bit_eq o_def bit_ff using i assms by auto
  then show "byte_bits (b AND NOT (drop_bit n 0xff)) ! i = (take n (byte_bits b) @ replicate (8 - n) False) ! i"
    using i assms by (auto simp: byte_bits_nth nth_append bit_and_iff)
qed (use assms in simp)

lemma bits_of_masked:
  "n \<le> 8 * length b \<Longrightarrow>
     bits_of (map2 (AND) b (cidr_mask_bytes (length b) n)) =
       take n (bits_of b) @ replicate (8 * length b - n) False"
proof (induction b arbitrary: n)
  case (Cons x b)
  show ?case
  proof (cases "8 \<le> n")
    case True
    with Cons show ?thesis by (simp add: byte_bits_ff)
  next
    case False
    then have "8 + 8 * length b - n = (8 - n) + 8 * length b" by simp
    with Cons False show ?thesis
      by (simp add: byte_bits_masked replicate_add [symmetric])
  qed
qed simp

lemma mask_self_bits:
  assumes "c \<le> 8 * length b"
  shows "bits_of (mask_self b c) = take c (bits_of b) @ replicate (8 * length b - c) False"
    and "length (mask_self b c) = length b"
proof -
  have "mask_self b c = map2 (AND) b (cidr_mask_bytes (length b) c)"
    using assms by (simp add: mask_self_def CIDRMask_def mult.commute)
  then show "bits_of (mask_self b c) = take c (bits_of b) @ replicate (8 * length b - c) False"
    and "length (mask_self b c) = length b"
    using assms by (simp_all add: bits_of_masked)
qed

lemma take_mask_self:
  "c \<le> 8 * length b \<Longrightarrow> k \<le> c \<Longrightarrow> take k (bits_of (mask_self b c)) = take k (bits_of b)"
  by (simp add: mask_self_bits min_absorb1)

end
