(* ===== verification/AllowedIPs.thy ===== *)
theory AllowedIPs
  imports AddrBits GoNet Runs
begin

text \<open>
  The routing table of allowed addresses (src/device/allowedips.go): one compressed binary trie
  per address family and, per peer, the list of its trie entries.

  A node is the constructor \<open>Node peer bits cidr child0 child1\<close>; \<open>bitAtByte\<close> and \<open>bitAtShift\<close>
  are functions of \<open>cidr\<close>. A pointer to a node is the path of child bits from the root, so
  \<open>get_at\<close> follows it, \<open>put_at\<close> is the assignment through \<open>parentBit\<close>, and the parent that the
  code finds by pointer arithmetic is the path without its last bit. An element of a peer's
  list of entries is the prefix (\<open>bits\<close>, \<open>cidr\<close>) of its node. \<open>None\<close> is a panic.

  The specification is a finite map from bit strings to peers; \<open>trie_map\<close> reads it off a trie.
\<close>

subsection \<open>The code\<close>

datatype 'p trieEntry =
    Nil
  | Node "'p option" bytes nat "'p trieEntry" "'p trieEntry"

type_synonym path = "bool list"

type_synonym 'p entries = "'p \<Rightarrow> (bytes \<times> nat) list"

definition addToPeerEntries :: "'p entries \<Rightarrow> 'p \<Rightarrow> bytes \<times> nat \<Rightarrow> 'p entries" where
  "addToPeerEntries E peer e = E(peer := E peer @ [e])"

definition removeFromPeerEntries :: "'p entries \<Rightarrow> 'p option \<Rightarrow> bytes \<times> nat \<Rightarrow> 'p entries" where
  "removeFromPeerEntries E peer e =
     (case peer of None \<Rightarrow> E | Some p \<Rightarrow> E(p := remove1 e (E p)))"

fun get_at :: "'p trieEntry \<Rightarrow> path \<Rightarrow> 'p trieEntry" where
  "get_at t [] = t"
| "get_at Nil (b # bs) = Nil"
| "get_at (Node p ip c l r) (b # bs) = get_at (if b then r else l) bs"

fun put_at :: "'p trieEntry \<Rightarrow> path \<Rightarrow> 'p trieEntry \<Rightarrow> 'p trieEntry" where
  "put_at t [] u = u"
| "put_at Nil (b # bs) u = Nil"
| "put_at (Node p ip c l r) (b # bs) u =
     (if b then Node p ip c l (put_at r bs u) else Node p ip c (put_at l bs u) r)"

fun nodePlacement :: "'p trieEntry \<Rightarrow> bytes \<Rightarrow> nat \<Rightarrow> (path option \<times> bool) option" where
  "nodePlacement Nil ip cidr = Some (None, False)"
| "nodePlacement (Node p b c l r) ip cidr =
     (if c \<le> cidr then
        (case commonBits b ip of
           None \<Rightarrow> None
         | Some common \<Rightarrow>
             if common \<ge> c then
               if c = cidr then Some (Some [], True)
               else (case node_choose c ip of
                       None \<Rightarrow> None
                     | Some d \<Rightarrow>
                         (case nodePlacement (if d then r else l) ip cidr of
                            None \<Rightarrow> None
                          | Some (None, exact) \<Rightarrow> Some (Some [], exact)
                          | Some (Some path, exact) \<Rightarrow> Some (Some (d # path), exact)))
             else Some (None, False))
      else Some (None, False))"

definition set_child :: "bool \<Rightarrow> 'p trieEntry \<Rightarrow> 'p trieEntry \<Rightarrow> 'p trieEntry" where
  "set_child d u t =
     (case t of
        Nil \<Rightarrow> Nil
      | Node p b c l r \<Rightarrow> if d then Node p b c l u else Node p b c u r)"

text \<open>
  The part of \<open>insert\<close> that puts the new node beside \<open>down\<close>: above it when the new prefix is a
  prefix of it, otherwise under a new node for what they have in common. The result is the node
  that the parent will point to.
\<close>

definition insert_above :: "'p trieEntry \<Rightarrow> bytes \<Rightarrow> nat \<Rightarrow> 'p \<Rightarrow> 'p trieEntry option" where
  "insert_above down newbits newcidr peer =
     (case down of
        Nil \<Rightarrow> None
      | Node _ downbits _ _ _ \<Rightarrow>
          let newNode = Node (Some peer) newbits newcidr Nil Nil in
          (case commonBits downbits newbits of
             None \<Rightarrow> None
           | Some common \<Rightarrow>
               let cidr = (if common < newcidr then common else newcidr) in
               if newcidr = cidr then
                 (case node_choose newcidr downbits of
                    None \<Rightarrow> None
                  | Some d \<Rightarrow> Some (set_child d down newNode))
               else
                 let node = Node None (mask_self newbits cidr) cidr Nil Nil in
                 (case node_choose cidr downbits of
                    None \<Rightarrow> None
                  | Some d \<Rightarrow>
                      let node = set_child d down node in
                      (case node_choose cidr newbits of
                         None \<Rightarrow> None
                       | Some d \<Rightarrow> Some (set_child d newNode node)))))"

fun entry_bits :: "'p trieEntry \<Rightarrow> bytes" where
  "entry_bits Nil = []"
| "entry_bits (Node p b c l r) = b"

text \<open>
  \<open>insert\<close> on a trie; \<open>insert_at\<close> is the case in which \<open>nodePlacement\<close> found a node. The slice \<open>ip\<close> is stored in the new node and masked in place, so what the
  code reads from \<open>ip\<close> afterwards is masked.
\<close>

definition insert_at :: "'p trieEntry \<Rightarrow> path \<Rightarrow> bool \<Rightarrow> bytes \<Rightarrow> nat \<Rightarrow> 'p \<Rightarrow> 'p trieEntry option" where
  "insert_at t path exact ip cidr peer =
     (case get_at t path of
        Nil \<Rightarrow> None
      | Node p b c l r \<Rightarrow>
          if exact then Some (put_at t path (Node (Some peer) b c l r))
          else
            let ip = mask_self ip cidr in
            (case node_choose c ip of
               None \<Rightarrow> None
             | Some d \<Rightarrow>
                 let down = (if d then r else l) in
                 if down = Nil
                 then Some (put_at t (path @ [d]) (Node (Some peer) ip cidr Nil Nil))
                 else (case insert_above down ip cidr peer of
                         None \<Rightarrow> None
                       | Some node \<Rightarrow>
                           (case node_choose c (entry_bits node) of
                              None \<Rightarrow> None
                            | Some d \<Rightarrow> Some (put_at t (path @ [d]) node)))))"

definition insert_trie :: "'p trieEntry \<Rightarrow> bytes \<Rightarrow> nat \<Rightarrow> 'p \<Rightarrow> 'p trieEntry option" where
  "insert_trie t ip cidr peer =
     (if t = Nil then Some (Node (Some peer) (mask_self ip cidr) cidr Nil Nil)
      else case nodePlacement t ip cidr of
        None \<Rightarrow> None
      | Some (None, _) \<Rightarrow> insert_above t (mask_self ip cidr) cidr peer
      | Some (Some path, exact) \<Rightarrow> insert_at t path exact ip cidr peer)"

text \<open>The effect of \<open>insert\<close> on the lists of entries.\<close>

definition insert_entries :: "'p trieEntry \<Rightarrow> 'p entries \<Rightarrow> bytes \<Rightarrow> nat \<Rightarrow> 'p \<Rightarrow> 'p entries" where
  "insert_entries t E ip cidr peer =
     (case nodePlacement t ip cidr of
        Some (Some path, True) \<Rightarrow>
          (case get_at t path of
             Node p b c l r \<Rightarrow> addToPeerEntries (removeFromPeerEntries E p (b, c)) peer (b, c)
           | Nil \<Rightarrow> E)
      | _ \<Rightarrow> addToPeerEntries E peer (mask_self ip cidr, cidr))"

fun lookup :: "'p trieEntry \<Rightarrow> bytes \<Rightarrow> 'p option \<Rightarrow> 'p option option" where
  "lookup Nil ip found = Some found"
| "lookup (Node p b c l r) ip found =
     (case commonBits b ip of
        None \<Rightarrow> None
      | Some common \<Rightarrow>
          if common \<ge> c then
            let found = (if p \<noteq> None then p else found) in
            if c div 8 = length ip mod 256 then Some found
            else (case node_choose c ip of
                    None \<Rightarrow> None
                  | Some d \<Rightarrow> lookup (if d then r else l) ip found)
          else Some found)"

text \<open>\<open>remove\<close> on the node at \<open>path\<close>; the root's \<open>parentBitType\<close> is 2.\<close>

definition remove_at :: "'p trieEntry \<Rightarrow> path \<Rightarrow> 'p trieEntry option" where
  "remove_at t path =
     (case get_at t path of
        Nil \<Rightarrow> None
      | Node p b c l r \<Rightarrow>
          if l \<noteq> Nil \<and> r \<noteq> Nil then Some (put_at t path (Node None b c l r))
          else
            let child = (if l = Nil then r else l);
                t' = put_at t path child in
            if l \<noteq> Nil \<or> r \<noteq> Nil \<or> path = [] then Some t'
            else (case get_at t' (butlast path) of
                    Nil \<Rightarrow> None
                  | Node pp pb pc pl pr \<Rightarrow>
                      if pp \<noteq> None then Some t'
                      else Some (put_at t' (butlast path) (if last path then pl else pr))))"

definition remove_entries :: "'p trieEntry \<Rightarrow> 'p entries \<Rightarrow> path \<Rightarrow> 'p entries" where
  "remove_entries t E path =
     (case get_at t path of Nil \<Rightarrow> E | Node p b c l r \<Rightarrow> removeFromPeerEntries E p (b, c))"

fun entry_peer :: "'p trieEntry \<Rightarrow> 'p option" where
  "entry_peer Nil = None"
| "entry_peer (Node p b c l r) = p"

subsection \<open>The table\<close>

record 'p AllowedIPs =
  IPv4 :: "'p trieEntry"
  IPv6 :: "'p trieEntry"
  trieEntries :: "'p entries"

definition empty_AllowedIPs :: "'p AllowedIPs" where
  "empty_AllowedIPs = \<lparr>IPv4 = Nil, IPv6 = Nil, trieEntries = (\<lambda>_. [])\<rparr>"

record Prefix =
  Addr :: addr
  Bits :: int

definition uint8_Bits :: "Prefix \<Rightarrow> nat" where
  "uint8_Bits pfx = nat (Bits pfx mod 256)"

definition Insert :: "'p AllowedIPs \<Rightarrow> Prefix \<Rightarrow> 'p \<Rightarrow> 'p AllowedIPs option" where
  "Insert table pfx peer =
     (case Addr pfx of
        V6 ip _ \<Rightarrow>
          map_option (\<lambda>t. table\<lparr>IPv6 := t, trieEntries :=
              insert_entries (IPv6 table) (trieEntries table) ip (uint8_Bits pfx) peer\<rparr>)
            (insert_trie (IPv6 table) ip (uint8_Bits pfx) peer)
      | V4 ip \<Rightarrow>
          map_option (\<lambda>t. table\<lparr>IPv4 := t, trieEntries :=
              insert_entries (IPv4 table) (trieEntries table) ip (uint8_Bits pfx) peer\<rparr>)
            (insert_trie (IPv4 table) ip (uint8_Bits pfx) peer)
      | ZeroAddr \<Rightarrow> None)"

definition remove_node :: "'p AllowedIPs \<Rightarrow> bool \<Rightarrow> path \<Rightarrow> 'p AllowedIPs option" where
  "remove_node table v6 path =
     (if v6
      then map_option (\<lambda>t. table\<lparr>IPv6 := t, trieEntries := remove_entries (IPv6 table) (trieEntries table) path\<rparr>)
             (remove_at (IPv6 table) path)
      else map_option (\<lambda>t. table\<lparr>IPv4 := t, trieEntries := remove_entries (IPv4 table) (trieEntries table) path\<rparr>)
             (remove_at (IPv4 table) path))"

definition Remove_family :: "'p AllowedIPs \<Rightarrow> bool \<Rightarrow> bytes \<Rightarrow> nat \<Rightarrow> 'p \<Rightarrow> 'p AllowedIPs option" where
  "Remove_family table v6 ip cidr peer =
     (let t = (if v6 then IPv6 table else IPv4 table)
      in case nodePlacement t ip cidr of
           None \<Rightarrow> None
         | Some (None, exact) \<Rightarrow> Some table
         | Some (Some path, exact) \<Rightarrow>
             if \<not> exact \<or> Some peer \<noteq> entry_peer (get_at t path) then Some table
             else remove_node table v6 path)"

definition Remove :: "'p AllowedIPs \<Rightarrow> Prefix \<Rightarrow> 'p \<Rightarrow> 'p AllowedIPs option" where
  "Remove table pfx peer =
     (case Addr pfx of
        V6 ip _ \<Rightarrow> Remove_family table True ip (uint8_Bits pfx) peer
      | V4 ip \<Rightarrow> Remove_family table False ip (uint8_Bits pfx) peer
      | ZeroAddr \<Rightarrow> None)"

text \<open>The loop of \<open>RemoveByPeer\<close>; the element's node is the one at its prefix.\<close>

fun remove_elems :: "'p AllowedIPs \<Rightarrow> (bytes \<times> nat) list \<Rightarrow> 'p AllowedIPs option" where
  "remove_elems table [] = Some table"
| "remove_elems table ((b, c) # es) =
     (let v6 = (length b = 16)
      in case nodePlacement (if v6 then IPv6 table else IPv4 table) b c of
           Some (Some path, True) \<Rightarrow> Option.bind (remove_node table v6 path) (\<lambda>t. remove_elems t es)
         | _ \<Rightarrow> None)"

definition RemoveByPeer :: "'p AllowedIPs \<Rightarrow> 'p \<Rightarrow> 'p AllowedIPs option" where
  "RemoveByPeer table peer = remove_elems table (trieEntries table peer)"

definition Lookup :: "'p AllowedIPs \<Rightarrow> bytes \<Rightarrow> 'p option option" where
  "Lookup table ip =
     (if length ip = 16 then lookup (IPv6 table) ip None
      else if length ip = 4 then lookup (IPv4 table) ip None
      else None)"

definition entry_prefix :: "bytes \<times> nat \<Rightarrow> Prefix" where
  "entry_prefix e =
     \<lparr>Addr = (if length (fst e) = 4 then V4 (fst e) else if length (fst e) = 16 then V6 (fst e) [] else ZeroAddr),
      Bits = int (snd e)\<rparr>"

text \<open>The prefixes that \<open>EntriesForPeer\<close> hands to its callback, which may stop it.\<close>

fun visit :: "(Prefix \<Rightarrow> bool) \<Rightarrow> (bytes \<times> nat) list \<Rightarrow> Prefix list" where
  "visit cb [] = []"
| "visit cb (e # es) =
     entry_prefix e # (if \<not> cb (entry_prefix e) then [] else visit cb es)"

definition EntriesForPeer :: "'p AllowedIPs \<Rightarrow> 'p \<Rightarrow> (Prefix \<Rightarrow> bool) \<Rightarrow> Prefix list" where
  "EntriesForPeer table peer cb = visit cb (trieEntries table peer)"

subsection \<open>The specification\<close>

type_synonym 'p route_map = "bool list \<Rightarrow> 'p option"

text \<open>The value of the longest key that is a prefix of the bit string.\<close>

fun longest_match :: "'p route_map \<Rightarrow> bool list \<Rightarrow> 'p option" where
  "longest_match m [] = m []"
| "longest_match m (x # xs) =
     (case longest_match (\<lambda>k. m (x # k)) xs of Some p \<Rightarrow> Some p | None \<Rightarrow> m [])"

definition is_longest_match :: "'p route_map \<Rightarrow> bool list \<Rightarrow> 'p option \<Rightarrow> bool" where
  "is_longest_match m xs r \<longleftrightarrow>
     (case r of
        None \<Rightarrow> (\<forall>k. prefix k xs \<longrightarrow> m k = None)
      | Some p \<Rightarrow> (\<exists>k. prefix k xs \<and> m k = Some p \<and>
                       (\<forall>k'. prefix k' xs \<and> m k' \<noteq> None \<longrightarrow> length k' \<le> length k)))"

lemma longest_match_is: "is_longest_match m xs (longest_match m xs)"
proof (induction m xs rule: longest_match.induct)
  case (2 m x xs)
  show ?case
  proof (cases "longest_match (\<lambda>k. m (x # k)) xs")
    case None
    with 2 show ?thesis by (auto simp: is_longest_match_def prefix_Cons split: option.splits)
  next
    case (Some p)
    with 2 obtain k where "prefix k xs" "m (x # k) = Some p"
        "\<forall>k'. prefix k' xs \<and> m (x # k') \<noteq> None \<longrightarrow> length k' \<le> length k"
      by (auto simp: is_longest_match_def)
    then have "prefix (x # k) (x # xs) \<and> m (x # k) = Some p \<and>
        (\<forall>k'. prefix k' (x # xs) \<and> m k' \<noteq> None \<longrightarrow> length k' \<le> length (x # k))"
      by (auto simp: prefix_Cons)
    then have "is_longest_match m (x # xs) (Some p)" unfolding is_longest_match_def option.case by blast
    then show ?thesis using Some by simp
  qed
qed (auto simp: is_longest_match_def split: option.splits)

lemma prefix_same_length: "prefix k xs \<Longrightarrow> prefix k' xs \<Longrightarrow> length k = length k' \<Longrightarrow> k = k'"
  by (metis prefix_order.antisym prefix_length_prefix order_refl)

lemma is_longest_match_unique:
  assumes "is_longest_match m xs r" "is_longest_match m xs r'"
  shows "r = r'"
proof (cases "r = None \<or> r' = None")
  case True
  then show ?thesis using assms by (auto simp: is_longest_match_def split: option.splits)
next
  case False
  then obtain p p' where r: "r = Some p" "r' = Some p'" by auto
  from assms obtain k where k: "prefix k xs" "m k = Some p"
      "\<And>k'. prefix k' xs \<Longrightarrow> m k' \<noteq> None \<Longrightarrow> length k' \<le> length k"
    by (auto simp: is_longest_match_def r)
  from assms obtain k' where k': "prefix k' xs" "m k' = Some p'"
      "\<And>k. prefix k xs \<Longrightarrow> m k \<noteq> None \<Longrightarrow> length k \<le> length k'"
    by (auto simp: is_longest_match_def r)
  have "length k = length k'" using k(3) [OF k'(1)] k'(3) [OF k(1)] k(2) k'(2) by simp
  with k k' have "k = k'" by (metis prefix_same_length)
  with k k' r show ?thesis by simp
qed

subsection \<open>The invariant of a trie and the map it stands for\<close>

definition key :: "bytes \<Rightarrow> nat \<Rightarrow> bool list" where
  "key b c = take c (bits_of b)"

lemma length_key: "c \<le> 8 * length b \<Longrightarrow> length (key b c) = c"
  by (simp add: key_def)

fun trie_map :: "'p trieEntry \<Rightarrow> 'p route_map" where
  "trie_map Nil k = None"
| "trie_map (Node p b c l r) k =
     (if k = key b c then p else case trie_map l k of Some q \<Rightarrow> Some q | None \<Rightarrow> trie_map r k)"

text \<open>
  Every node has an address of the family's size, masked to its prefix; the prefixes below a
  node extend it by the bit of the branch; a node without a peer has two children.
\<close>

fun trie_ok :: "nat \<Rightarrow> bool list \<Rightarrow> 'p trieEntry \<Rightarrow> bool" where
  "trie_ok L pre Nil \<longleftrightarrow> True"
| "trie_ok L pre (Node p b c l r) \<longleftrightarrow>
     length b = L \<and> c \<le> 8 * L \<and> prefix pre (key b c) \<and>
     drop c (bits_of b) = replicate (8 * L - c) False \<and>
     (p \<noteq> None \<or> l \<noteq> Nil \<and> r \<noteq> Nil) \<and>
     trie_ok L (key b c @ [False]) l \<and> trie_ok L (key b c @ [True]) r"

lemma trie_ok_weaken: "trie_ok L pre t \<Longrightarrow> prefix pre' pre \<Longrightarrow> trie_ok L pre' t"
  by (cases t) (auto dest: prefix_order.trans)

lemma trie_map_prefix:
  "trie_ok L pre t \<Longrightarrow> trie_map t k \<noteq> None \<Longrightarrow> prefix pre k \<and> length k \<le> 8 * L"
proof (induction t arbitrary: pre)
  case (Node p b c l r)
  show ?case
  proof (cases "k = key b c")
    case True
    then show ?thesis using Node.prems by (auto simp: length_key)
  next
    case False
    then have "trie_map l k \<noteq> None \<or> trie_map r k \<noteq> None" using Node.prems by (auto split: option.splits)
    then show ?thesis
      using Node.IH [of "key b c @ [False]"] Node.IH(2) [of "key b c @ [True]"] Node.prems
      by (auto dest!: append_prefixD intro: prefix_order.trans)
  qed
qed simp

lemma trie_map_child_longer:
  "trie_ok L (key b c @ [d]) t \<Longrightarrow> trie_map t k \<noteq> None \<Longrightarrow> length (key b c) < length k \<and> prefix (key b c @ [d]) k"
  using trie_map_prefix prefix_length_le by fastforce

lemma trie_map_own_key: "trie_ok L (key b c @ [d]) t \<Longrightarrow> trie_map t (key b c) = None"
  using trie_map_child_longer by blast

lemma prefix_snoc_nth: "prefix (xs @ [d]) ys \<Longrightarrow> ys ! length xs = d"
  by (auto simp: prefix_def nth_append)

text \<open>Only one branch of a node matters for the prefixes of an address.\<close>

lemma trie_map_branch:
  assumes ok: "trie_ok L pre (Node p b c l r)" and k: "prefix k xs"
  shows "trie_map (Node p b c l r) k =
    (if k = key b c then p else trie_map (if xs ! c then r else l) k)"
proof (cases "k = key b c")
  case False
  have len: "length (key b c) = c" using ok by (simp add: length_key)
  have "trie_map (if xs ! c then l else r) k = None"
  proof (rule ccontr)
    assume "trie_map (if xs ! c then l else r) k \<noteq> None"
    then have "prefix (key b c @ [\<not> xs ! c]) k"
      using ok trie_map_child_longer [of L b c] by (cases "xs ! c") auto
    then have "prefix (key b c @ [\<not> xs ! c]) xs" using k by (rule prefix_order.trans)
    from prefix_snoc_nth [OF this] show False by (simp add: len)
  qed
  then show ?thesis using False by (auto split: option.splits)
qed simp

lemma longest_match_branch:
  assumes ok: "trie_ok L pre (Node p b c l r)" and key: "prefix (key b c) xs"
    and r': "is_longest_match (trie_map (if xs ! c then r else l)) xs r'"
  shows "is_longest_match (trie_map (Node p b c l r)) xs (case r' of Some q \<Rightarrow> Some q | None \<Rightarrow> p)"
proof -
  let ?m = "trie_map (Node p b c l r)" and ?n = "trie_map (if xs ! c then r else l)"
  note branch = trie_map_branch [OF ok]
  have longer: "length (key b c) < length k" if "?n k \<noteq> None" for k
    using that ok trie_map_child_longer [of L b c] by (cases "xs ! c") auto
  show ?thesis
  proof (cases r')
    case None
    then have "?n k = None" if "prefix k xs" for k using r' that by (simp add: is_longest_match_def)
    then have m: "?m k = (if k = key b c then p else None)" if "prefix k xs" for k
      using branch [OF that] that by simp
    show ?thesis
    proof (cases p)
      case None
      then show ?thesis using m \<open>r' = None\<close> by (simp add: is_longest_match_def del: trie_map.simps)
    next
      case (Some q)
      have "?m (key b c) = Some q" by (simp add: Some)
      moreover have "length k \<le> length (key b c)" if "prefix k xs" "?m k \<noteq> None" for k
        using m [OF that(1)] that(2) by (auto simp del: trie_map.simps split: if_splits)
      ultimately have "is_longest_match ?m xs (Some q)"
        using key unfolding is_longest_match_def option.case by blast
      then show ?thesis using \<open>r' = None\<close> Some by simp
    qed
  next
    case (Some q)
    with r' obtain k where k: "prefix k xs" "?n k = Some q"
        "\<And>k'. prefix k' xs \<Longrightarrow> ?n k' \<noteq> None \<Longrightarrow> length k' \<le> length k"
      by (auto simp: is_longest_match_def)
    have "length (key b c) < length k" using longer k(2) by simp
    then have "?m k = Some q" using branch [OF k(1)] k(2) by auto
    moreover have "length k' \<le> length k" if "prefix k' xs" "?m k' \<noteq> None" for k'
      using branch [OF that(1)] that k(3) [OF that(1)] \<open>length (key b c) < length k\<close>
      by (auto simp del: trie_map.simps split: if_splits)
    ultimately have "is_longest_match ?m xs (Some q)"
      using k(1) unfolding is_longest_match_def option.case by blast
    then show ?thesis using Some by simp
  qed
qed

subsection \<open>Lookup\<close>

lemma commonBits_ge:
  assumes "length b = length ip" "addr_size (length b)" "c \<le> 8 * length b"
  shows "\<exists>n. commonBits b ip = Some n \<and> (c \<le> n \<longleftrightarrow> prefix (key b c) (bits_of ip))"
proof -
  have "c \<le> lcp (bits_of b) (bits_of ip) \<longleftrightarrow> take c (bits_of b) = take c (bits_of ip)"
    using assms by (intro lcp_ge_iff) simp_all
  also have "\<dots> \<longleftrightarrow> prefix (key b c) (bits_of ip)"
    using assms by (metis key_def length_key prefix_def append_take_drop_id append_eq_conv_conj)
  finally show ?thesis using assms commonBits_lcp [of b ip] by simp
qed

lemma trie_ok_full: "trie_ok L pre (Node p b (8 * L) l r) \<Longrightarrow> l = Nil \<and> r = Nil"
proof -
  assume ok: "trie_ok L pre (Node p b (8 * L) l r)"
  then have len: "length (key b (8 * L)) = 8 * L" by (simp add: length_key)
  have "t = Nil" if "trie_ok L (key b (8 * L) @ [d]) t" for d and t :: "'a trieEntry"
  proof (cases t)
    case (Node q b' c' l' r')
    with that have "prefix (key b (8 * L) @ [d]) (key b' c')" "length (key b' c') \<le> 8 * L"
      by (simp_all add: length_key)
    then show ?thesis using len by (auto dest: prefix_length_le)
  qed simp
  with ok show ?thesis by auto
qed

lemma is_longest_match_None: "(\<And>k. prefix k xs \<Longrightarrow> m k = None) \<Longrightarrow> is_longest_match m xs None"
  by (simp add: is_longest_match_def)

lemma no_match_outside:
  assumes "trie_ok L pre t" "\<not> prefix pre xs"
  shows "is_longest_match (trie_map t) xs None"
proof (rule is_longest_match_None)
  fix k assume "prefix k xs"
  then show "trie_map t k = None"
    using trie_map_prefix [OF assms(1), of k] assms(2) prefix_order.trans by blast
qed

lemma trie_ok_key: "trie_ok L pre (Node p b c l r) \<Longrightarrow> trie_ok L (key b c) (Node p b c l r)"
  by simp

lemma lookup_longest:
  assumes "trie_ok L pre t" "addr_size L" "length ip = L"
  shows "\<exists>r. is_longest_match (trie_map t) (bits_of ip) r \<and>
    lookup t ip found = Some (case r of Some q \<Rightarrow> Some q | None \<Rightarrow> found)"
  using assms
proof (induction t arbitrary: pre found)
  case Nil
  then show ?case by (intro exI [of _ None]) (simp add: is_longest_match_def)
next
  case (Node p b c l r)
  let ?xs = "bits_of ip"
  obtain n where n: "commonBits b ip = Some n" "c \<le> n \<longleftrightarrow> prefix (key b c) ?xs"
    using commonBits_ge [of b ip c] Node.prems by auto
  show ?case
  proof (cases "prefix (key b c) ?xs")
    case False
    then show ?thesis
      using n no_match_outside [OF trie_ok_key [OF Node.prems(1)] False]
      by (intro exI [of _ None]) (simp del: trie_map.simps)
  next
    case match: True
    show ?thesis
    proof (cases "c = 8 * L")
      case True
      then have "l = Nil" "r = Nil" using trie_ok_full Node.prems(1) by blast+
      then have "is_longest_match (trie_map (if ?xs ! c then r else l)) ?xs None"
        by (simp add: is_longest_match_def)
      from longest_match_branch [OF Node.prems(1) match this]
      have "is_longest_match (trie_map (Node p b c l r)) ?xs p" by simp
      moreover have "c div 8 = length ip mod 256" using True Node.prems by (auto simp: addr_size_def)
      ultimately show ?thesis using n match by (intro exI [of _ p]) (cases p; simp del: trie_map.simps)
    next
      case False
      then have c: "c < 8 * L" using Node.prems(1) by simp
      then have more: "c div 8 \<noteq> length ip mod 256" using Node.prems by (auto simp: addr_size_def)
      have d: "node_choose c ip = Some (?xs ! c)" using c Node.prems(3) by (simp add: node_choose_bit)
      have "\<exists>r'. is_longest_match (trie_map (if ?xs ! c then r else l)) ?xs r' \<and>
          lookup (if ?xs ! c then r else l) ip f = Some (case r' of Some q \<Rightarrow> Some q | None \<Rightarrow> f)" for f
        using Node.IH(1) [of "key b c @ [False]" f] Node.IH(2) [of "key b c @ [True]" f] Node.prems
        by (cases "?xs ! c") auto
      then obtain r' where r': "is_longest_match (trie_map (if ?xs ! c then r else l)) ?xs r'"
          "lookup (if ?xs ! c then r else l) ip (if p \<noteq> None then p else found) =
             Some (case r' of Some q \<Rightarrow> Some q | None \<Rightarrow> if p \<noteq> None then p else found)"
        by blast
      from longest_match_branch [OF Node.prems(1) match r'(1)]
      show ?thesis
        using n match more d r'(2)
        by (intro exI [of _ "case r' of Some q \<Rightarrow> Some q | None \<Rightarrow> p"])
           (simp add: Let_def del: trie_map.simps split: option.splits)
    qed
  qed
qed

lemma lookup_spec:
  "trie_ok L pre t \<Longrightarrow> addr_size L \<Longrightarrow> length ip = L \<Longrightarrow>
     lookup t ip None = Some (longest_match (trie_map t) (bits_of ip))"
  using lookup_longest [of L pre t ip None] is_longest_match_unique [OF longest_match_is]
  by (fastforce split: option.splits)

subsection \<open>Insertion\<close>

text \<open>A prefix as a node carries it.\<close>

definition masked :: "nat \<Rightarrow> bytes \<Rightarrow> nat \<Rightarrow> bool" where
  "masked L b c \<longleftrightarrow> length b = L \<and> c \<le> 8 * L \<and> drop c (bits_of b) = replicate (8 * L - c) False"

lemma masked_mask_self: "length b = L \<Longrightarrow> c \<le> 8 * L \<Longrightarrow> masked L (mask_self b c) c"
  by (auto simp: masked_def mask_self_bits)

lemma key_mask_self: "c \<le> 8 * length b \<Longrightarrow> key (mask_self b c) c = key b c"
  by (simp add: key_def take_mask_self)

lemma masked_inject: "masked L b c \<Longrightarrow> masked L b' c \<Longrightarrow> key b c = key b' c \<longleftrightarrow> b = b'"
  unfolding masked_def key_def by (metis append_take_drop_id bits_of_inject)

lemma trie_ok_Node:
  "trie_ok L pre (Node p b c l r) \<longleftrightarrow>
     masked L b c \<and> prefix pre (key b c) \<and> (p \<noteq> None \<or> l \<noteq> Nil \<and> r \<noteq> Nil) \<and>
     trie_ok L (key b c @ [False]) l \<and> trie_ok L (key b c @ [True]) r"
  by (auto simp: masked_def)

lemma trie_ok_pre: "trie_ok L pre (Node p b c l r) \<Longrightarrow> prefix pre' (key b c) \<Longrightarrow> trie_ok L pre' (Node p b c l r)"
  by simp

lemma take_prefix_take: "m \<le> n \<Longrightarrow> prefix (take m xs) (take n xs)"
  by (metis min_absorb1 take_is_prefix take_take)

lemma key_Suc:
  "n < c \<Longrightarrow> c \<le> 8 * length b \<Longrightarrow> prefix (take n (bits_of b) @ [bits_of b ! n]) (key b c)"
  unfolding key_def by (subst take_Suc_conv_app_nth [symmetric]) (auto intro: take_prefix_take)

lemma prefix_key_iff:
  "length b = length b' \<Longrightarrow> c \<le> 8 * length b \<Longrightarrow>
     prefix (key b c) (bits_of b') \<longleftrightarrow> take c (bits_of b) = take c (bits_of b')"
  by (metis key_def length_bits_of length_key prefix_def append_eq_conv_conj take_is_prefix)

lemma trie_map_leaf: "trie_map (Node (Some q) b c Nil Nil) k = (if k = key b c then Some q else None)"
  by simp

lemma above_ok:
  fixes peer :: 'p
  assumes ok: "trie_ok L pre (Node p b c l r)" and nb: "masked L nb cidr" "prefix pre (key nb cidr)"
    and L: "addr_size L" and le: "cidr \<le> lcp (bits_of b) (bits_of nb)" and c: "cidr < c"
  defines "t \<equiv> set_child (bits_of b ! cidr) (Node p b c l r) (Node (Some peer) nb cidr Nil Nil)"
  shows "insert_above (Node p b c l r) nb cidr peer = Some t \<and> trie_ok L pre t \<and>
    trie_map t = (trie_map (Node p b c l r))(key nb cidr \<mapsto> peer)"
proof -
  let ?xs = "bits_of b" and ?ys = "bits_of nb"
  have len: "length b = L" "length nb = L" "c \<le> 8 * L" "cidr \<le> 8 * L"
    using ok nb(1) by (auto simp: masked_def)
  have eq: "key nb cidr = take cidr ?xs"
    using le len by (subst (asm) lcp_ge_iff) (simp_all add: key_def)
  have "node_choose cidr b = Some (?xs ! cidr)" using c len by (intro node_choose_bit) simp
  then have ins: "insert_above (Node p b c l r) nb cidr peer = Some t"
    using len L le by (simp add: insert_above_def commonBits_lcp t_def Let_def)
  have down: "trie_ok L (key nb cidr @ [?xs ! cidr]) (Node p b c l r)"
    unfolding eq using ok c len by (intro trie_ok_pre [OF ok] key_Suc) simp_all
  have "trie_ok L pre t"
    using down nb by (cases "?xs ! cidr") (simp_all add: t_def set_child_def masked_def)
  moreover have "trie_map t = (trie_map (Node p b c l r))(key nb cidr \<mapsto> peer)"
  proof
    fix k show "trie_map t k = ((trie_map (Node p b c l r))(key nb cidr \<mapsto> peer)) k"
      by (cases "?xs ! cidr") (auto simp add: t_def set_child_def simp del: trie_map.simps(2) split: option.splits
          simp: trie_map.simps(2) [of "Some peer"])
  qed
  ultimately show ?thesis using ins by blast
qed

lemma new_key_absent:
  assumes ok: "trie_ok L pre (Node p b c l r)" and nb: "masked L nb cidr"
    and lt: "lcp (bits_of b) (bits_of nb) < c"
  shows "trie_map (Node p b c l r) (key nb cidr) = None"
proof (rule ccontr)
  have len: "length b = L" "length nb = L" "c \<le> 8 * L" "cidr \<le> 8 * L"
    using ok nb by (auto simp: masked_def)
  assume "trie_map (Node p b c l r) (key nb cidr) \<noteq> None"
  then have "prefix (key b c) (key nb cidr)"
    using trie_map_prefix [OF trie_ok_key [OF ok]] by blast
  then have "prefix (key b c) (bits_of nb)"
    unfolding key_def [of nb] using take_is_prefix prefix_order.trans by blast
  then have "take c (bits_of b) = take c (bits_of nb)" using len by (simp add: prefix_key_iff)
  then have "c \<le> lcp (bits_of b) (bits_of nb)" using len by (subst lcp_ge_iff) simp_all
  with lt show False by simp
qed

lemma short_key_absent:
  assumes ok: "trie_ok L pre (Node p b c l r)" and lt: "length k < c"
  shows "trie_map (Node p b c l r) k = None"
proof (rule ccontr)
  assume "trie_map (Node p b c l r) k \<noteq> None"
  then have "length (key b c) \<le> length k"
    using trie_map_prefix [OF trie_ok_key [OF ok]] prefix_length_le by blast
  then show False using ok lt by (simp add: length_key)
qed

lemma glue_ok:
  fixes peer :: 'p
  assumes ok: "trie_ok L pre (Node p b c l r)" and nb: "masked L nb cidr" "prefix pre (key nb cidr)"
    and L: "addr_size L" and n: "n = lcp (bits_of b) (bits_of nb)" and lt: "n < cidr" "n < c"
  defines "t \<equiv> set_child (bits_of nb ! n) (Node (Some peer) nb cidr Nil Nil)
     (set_child (bits_of b ! n) (Node p b c l r) (Node None (mask_self nb n) n Nil Nil))"
  shows "insert_above (Node p b c l r) nb cidr peer = Some t \<and> trie_ok L pre t \<and>
    trie_map t = (trie_map (Node p b c l r))(key nb cidr \<mapsto> peer)"
proof -
  let ?xs = "bits_of b" and ?ys = "bits_of nb" and ?g = "mask_self nb n"
  have len: "length b = L" "length nb = L" "c \<le> 8 * L" "cidr \<le> 8 * L"
    using ok nb(1) by (auto simp: masked_def)
  have differ: "?xs ! n = (\<not> ?ys ! n)" using lcp_differ [of ?xs ?ys] len lt n by auto
  have eq: "take n ?xs = take n ?ys" unfolding n by (rule take_lcp)
  have keyg: "key ?g n = take n ?ys" using len lt by (simp add: key_def take_mask_self)
  have t: "t = (if ?ys ! n then Node None ?g n (Node p b c l r) (Node (Some peer) nb cidr Nil Nil)
      else Node None ?g n (Node (Some peer) nb cidr Nil Nil) (Node p b c l r))"
    using differ by (simp add: t_def set_child_def)
  have ins: "insert_above (Node p b c l r) nb cidr peer = Some t"
    using len L lt n by (simp add: insert_above_def commonBits_lcp t_def Let_def node_choose_bit)
  have "prefix pre (key ?g n)"
  proof -
    have pre: "prefix pre ?xs" "prefix pre ?ys"
      using ok nb(2) by (auto simp: key_def intro: prefix_order.trans take_is_prefix)
    then have "take (length pre) ?xs = take (length pre) ?ys" by (auto simp: prefix_def)
    then have "length pre \<le> n"
      unfolding n using pre by (subst lcp_ge_iff) (auto dest: prefix_length_le)
    then show ?thesis unfolding keyg using pre(2) by (auto simp: prefix_def)
  qed
  moreover have "trie_ok L (key ?g n @ [?xs ! n]) (Node p b c l r)"
    unfolding keyg eq [symmetric] using ok lt len by (intro trie_ok_pre [OF ok] key_Suc) simp_all
  moreover have "trie_ok L (key ?g n @ [?ys ! n]) (Node (Some peer) nb cidr Nil Nil)"
    unfolding trie_ok_Node keyg using nb(1) key_Suc [of n cidr nb] lt len by simp
  moreover have "masked L ?g n" using len lt by (intro masked_mask_self) simp_all
  ultimately have "trie_ok L pre t"
    unfolding t using differ by (cases "?ys ! n") (simp_all add: trie_ok_Node [of L pre None] del: trie_ok.simps)
  moreover have "trie_map t = (trie_map (Node p b c l r))(key nb cidr \<mapsto> peer)"
  proof
    fix k
    have new: "trie_map (Node p b c l r) (key nb cidr) = None"
      using new_key_absent [OF ok nb(1)] lt n by blast
    have glue: "trie_map (Node p b c l r) (key ?g n) = None"
      using short_key_absent [OF ok, of "key ?g n"] len lt by (simp add: keyg)
    have "length (key ?g n) = n" "length (key nb cidr) = cidr" using len lt by (simp_all add: keyg length_key)
    then have "key ?g n \<noteq> key nb cidr" using lt by auto
    then show "trie_map t k = ((trie_map (Node p b c l r))(key nb cidr \<mapsto> peer)) k"
      unfolding t using new glue
      by (auto simp: trie_map.simps(2) [of None] trie_map_leaf simp del: trie_map.simps(2) split: option.splits)
  qed
  ultimately show ?thesis using ins by blast
qed

lemma insert_above_spec:
  assumes ok: "trie_ok L pre (Node p b c l r)" and nb: "masked L nb cidr" "prefix pre (key nb cidr)"
    and L: "addr_size L" and nomatch: "\<not> (c \<le> cidr \<and> prefix (key b c) (bits_of nb))"
  shows "\<exists>t. insert_above (Node p b c l r) nb cidr peer = Some t \<and> trie_ok L pre t \<and>
    trie_map t = (trie_map (Node p b c l r))(key nb cidr \<mapsto> peer)"
proof -
  let ?n = "lcp (bits_of b) (bits_of nb)"
  have len: "length b = L" "length nb = L" "c \<le> 8 * L" using ok nb(1) by (auto simp: masked_def)
  have match: "c \<le> ?n \<longleftrightarrow> prefix (key b c) (bits_of nb)"
    using len by (subst lcp_ge_iff) (simp_all add: prefix_key_iff)
  show ?thesis
  proof (cases "cidr \<le> ?n")
    case True
    with match nomatch have "cidr < c" by force
    from above_ok [OF ok nb L True this] show ?thesis by blast
  next
    case False
    with match nomatch have "?n < cidr" "?n < c" by auto
    from glue_ok [OF ok nb L refl this] show ?thesis by blast
  qed
qed

definition with_child :: "'p option \<Rightarrow> bytes \<Rightarrow> nat \<Rightarrow> 'p trieEntry \<Rightarrow> 'p trieEntry \<Rightarrow> bool \<Rightarrow> 'p trieEntry \<Rightarrow> 'p trieEntry" where
  "with_child p b c l r d u = (if d then Node p b c l u else Node p b c u r)"

lemma put_at_with_child: "put_at (Node p b c l r) (d # ds) u = with_child p b c l r d (put_at (if d then r else l) ds u)"
  by (simp add: with_child_def)

text \<open>The placement of a prefix at a node of the trie.\<close>

lemma nodePlacement_Node:
  assumes ok: "trie_ok L pre (Node p b c l r)" and ip: "length ip = L" "addr_size L" "cidr \<le> 8 * L"
  shows "nodePlacement (Node p b c l r) ip cidr =
    (if c \<le> cidr \<and> prefix (key b c) (bits_of ip) then
       if c = cidr then Some (Some [], True)
       else (case nodePlacement (if bits_of ip ! c then r else l) ip cidr of
               None \<Rightarrow> None
             | Some (None, exact) \<Rightarrow> Some (Some [], exact)
             | Some (Some path, exact) \<Rightarrow> Some (Some ((bits_of ip ! c) # path), exact))
     else Some (None, False))"
proof -
  obtain n where n: "commonBits b ip = Some n" "c \<le> n \<longleftrightarrow> prefix (key b c) (bits_of ip)"
    using commonBits_ge [of b ip c] ok ip by auto
  have "node_choose c ip = Some (bits_of ip ! c)" if "c \<le> cidr" "c \<noteq> cidr"
    using that ip by (intro node_choose_bit) simp
  then show ?thesis using n by simp
qed

lemma prefix_nth_trie:
  assumes "trie_ok L (key b c @ [d]) t" "t \<noteq> Nil" "length b = L" "c < 8 * L"
  shows "node_choose c (entry_bits t) = Some d"
proof (cases t)
  case (Node q b' c' l' r')
  with assms have pre: "prefix (key b c @ [d]) (bits_of b')" and len: "length b' = L"
    by (auto simp: key_def [of b'] intro: prefix_order.trans take_is_prefix)
  have "bits_of b' ! c = d" using prefix_snoc_nth [OF pre] assms by (simp add: length_key)
  then show ?thesis using Node len assms by (simp add: node_choose_bit)
qed (use assms in simp)

lemma insert_at_Cons:
  "insert_at (Node p b c l r) (d # path) e ip cidr peer =
     map_option (with_child p b c l r d) (insert_at (if d then r else l) path e ip cidr peer)"
proof (cases "get_at (if d then r else l) path")
  case (Node q b' c' l' r')
  show ?thesis
  proof (cases e)
    case True
    then show ?thesis using Node by (simp add: insert_at_def put_at_with_child del: put_at.simps)
  next
    case False
    show ?thesis
      using Node False
      by (simp add: insert_at_def put_at_with_child Let_def del: put_at.simps split: option.split)
  qed
qed (simp add: insert_at_def)

lemma insert_above_not_Nil: "insert_above t nb cidr peer = Some u \<Longrightarrow> u \<noteq> Nil"
  by (auto simp: insert_above_def set_child_def Let_def split: trieEntry.splits option.splits if_splits)

lemma nodePlacement_None_exact: "nodePlacement t ip cidr = Some (None, e) \<Longrightarrow> \<not> e"
  by (cases t) (auto split: if_splits option.splits)

lemma insert_trie_descend:
  assumes ok: "trie_ok L pre (Node p b c l r)" and ip: "length ip = L" "addr_size L" "cidr \<le> 8 * L"
    and match: "c < cidr" "prefix (key b c) (bits_of ip)" and d: "d = bits_of ip ! c"
    and child: "child = (if d then r else l)" and ins: "insert_trie child ip cidr peer = Some u"
    and u: "trie_ok L (key b c @ [d]) u"
  shows "insert_trie (Node p b c l r) ip cidr peer = Some (with_child p b c l r d u)"
proof -
  have len: "length b = L" using ok by simp
  have "bits_of (mask_self ip cidr) ! c = d"
    using match(1) ip by (simp add: d mask_self_bits nth_append)
  then have d': "node_choose c (mask_self ip cidr) = Some d"
    using match(1) ip by (simp add: node_choose_bit mask_self_bits)
  have place: "nodePlacement (Node p b c l r) ip cidr =
      (case nodePlacement child ip cidr of
         None \<Rightarrow> None
       | Some (None, exact) \<Rightarrow> Some (Some [], exact)
       | Some (Some path, exact) \<Rightarrow> Some (Some (d # path), exact))"
    unfolding child d using nodePlacement_Node [OF ok ip] match by (simp del: nodePlacement.simps)
  show ?thesis
  proof (cases "nodePlacement child ip cidr")
    case None
    then show ?thesis using ins by (cases child) (simp_all add: insert_trie_def)
  next
    case (Some pe)
    show ?thesis
    proof (cases "fst pe")
      case None
      then have pl: "nodePlacement (Node p b c l r) ip cidr = Some (Some [], False)"
        using Some nodePlacement_None_exact [of child] place by (cases pe) (auto simp del: nodePlacement.simps)
      show ?thesis
      proof (cases "child = Nil")
        case True
        then have "u = Node (Some peer) (mask_self ip cidr) cidr Nil Nil" using ins by (simp add: insert_trie_def)
        then show ?thesis
          using True pl d' child by (simp add: insert_trie_def insert_at_def with_child_def del: nodePlacement.simps)
      next
        case False
        then have above: "insert_above child (mask_self ip cidr) cidr peer = Some u"
          using ins Some None by (cases pe) (simp add: insert_trie_def)
        have "node_choose c (entry_bits u) = Some d"
          using prefix_nth_trie [OF u insert_above_not_Nil [OF above] len] match ip by simp
        then show ?thesis
          using False above pl d' child
          by (simp add: insert_trie_def insert_at_def with_child_def del: nodePlacement.simps)
      qed
    next
      case path: (Some path)
      then have "insert_at child path (snd pe) ip cidr peer = Some u"
        using ins Some by (cases pe; cases child) (simp_all add: insert_trie_def)
      then show ?thesis
        using Some path place child
        by (cases pe) (simp add: insert_trie_def insert_at_Cons del: nodePlacement.simps)
    qed
  qed
qed

lemma trie_map_with_child:
  assumes ok: "trie_ok L pre (Node p b c l r)" and K: "prefix (key b c @ [d]) K"
    and u: "trie_map u = (trie_map (if d then r else l))(K := v)"
  shows "trie_map (with_child p b c l r d u) = (trie_map (Node p b c l r))(K := v)"
proof
  fix k
  have "K \<noteq> key b c" using prefix_length_le [OF K] by auto
  moreover have "trie_map (if d then l else r) K = None"
  proof (rule ccontr)
    assume "trie_map (if d then l else r) K \<noteq> None"
    then have "prefix (key b c @ [\<not> d]) K"
      using ok trie_map_child_longer [of L b c] by (cases d) auto
    then show False using prefix_snoc_nth [of "key b c"] K by blast
  qed
  ultimately show "trie_map (with_child p b c l r d u) k = ((trie_map (Node p b c l r))(K := v)) k"
    using u by (cases d) (auto simp: with_child_def split: option.splits)
qed

lemma trie_ok_with_child:
  "trie_ok L pre (Node p b c l r) \<Longrightarrow> trie_ok L (key b c @ [d]) u \<Longrightarrow>
     (u \<noteq> Nil \<or> p \<noteq> None) \<Longrightarrow> trie_ok L pre (with_child p b c l r d u)"
  by (auto simp: with_child_def)

lemma prefix_key_ip: "prefix (key b c @ [d]) K \<Longrightarrow> prefix (key b c) K"
  by (rule append_prefixD)

lemma insert_trie_spec:
  assumes "trie_ok L pre t" "length ip = L" "addr_size L" "cidr \<le> 8 * L" "prefix pre (key ip cidr)"
  shows "\<exists>u. insert_trie t ip cidr peer = Some u \<and> trie_ok L pre u \<and> u \<noteq> Nil \<and>
    trie_map u = (trie_map t)(key ip cidr \<mapsto> peer)"
  using assms
proof (induction t arbitrary: pre)
  case Nil
  have "masked L (mask_self ip cidr) cidr" "key (mask_self ip cidr) cidr = key ip cidr"
    using Nil by (simp_all add: masked_mask_self key_mask_self)
  then show ?case using Nil by (auto simp: insert_trie_def trie_ok_Node simp del: trie_ok.simps(2))
next
  case (Node p b c l r)
  let ?nb = "mask_self ip cidr"
  have nb: "masked L ?nb cidr" "key ?nb cidr = key ip cidr"
    using Node.prems by (simp_all add: masked_mask_self key_mask_self)
  have len: "length b = L" "c \<le> 8 * L" using Node.prems(1) by auto
  have same: "prefix (key b c) (bits_of ip) \<longleftrightarrow> prefix (key b c) (bits_of ?nb)" if "c \<le> cidr"
    using that len Node.prems by (simp add: prefix_key_iff mask_self_bits(2) take_mask_self)
  note place = nodePlacement_Node [OF Node.prems(1-4)]
  consider (above) "\<not> (c \<le> cidr \<and> prefix (key b c) (bits_of ip))"
    | (exact) "c = cidr" "prefix (key b c) (bits_of ip)" | (down) "c < cidr" "prefix (key b c) (bits_of ip)"
    by linarith
  then show ?case
  proof cases
    case above
    then have "insert_trie (Node p b c l r) ip cidr peer = insert_above (Node p b c l r) ?nb cidr peer"
      using place by (auto simp: insert_trie_def simp del: nodePlacement.simps)
    moreover have "\<not> (c \<le> cidr \<and> prefix (key b c) (bits_of ?nb))" using above same by blast
    ultimately show ?thesis
      using insert_above_spec [OF Node.prems(1) nb(1) _ Node.prems(3), of peer] Node.prems(5) nb(2)
        insert_above_not_Nil by metis
  next
    case exact
    have "key b c = key ip cidr" using exact len Node.prems by (simp add: prefix_key_iff) (simp add: key_def)
    moreover have "insert_trie (Node p b c l r) ip cidr peer = Some (Node (Some peer) b c l r)"
      using exact place by (simp add: insert_trie_def insert_at_def del: nodePlacement.simps)
    ultimately show ?thesis using Node.prems(1) by auto
  next
    case down
    let ?d = "bits_of ip ! c"
    have K: "prefix (key b c @ [?d]) (key ip cidr)"
      using key_Suc [of c cidr ip] down len Node.prems by (simp add: prefix_key_iff) (simp add: key_def)
    have "\<exists>u. insert_trie (if ?d then r else l) ip cidr peer = Some u \<and>
        trie_ok L (key b c @ [?d]) u \<and> u \<noteq> Nil \<and>
        trie_map u = (trie_map (if ?d then r else l))(key ip cidr \<mapsto> peer)"
    proof (cases ?d)
      case True
      then have "prefix (key b c @ [True]) (key ip cidr)" using K by simp
      from Node.IH(2) [OF _ Node.prems(2-4) this] Node.prems(1) show ?thesis by (simp only: True if_True trie_ok.simps)
    next
      case False
      then have "prefix (key b c @ [False]) (key ip cidr)" using K by simp
      from Node.IH(1) [OF _ Node.prems(2-4) this] Node.prems(1) show ?thesis by (simp only: False if_False trie_ok.simps)
    qed
    then obtain u where u: "insert_trie (if ?d then r else l) ip cidr peer = Some u"
        "trie_ok L (key b c @ [?d]) u" "u \<noteq> Nil"
        "trie_map u = (trie_map (if ?d then r else l))(key ip cidr \<mapsto> peer)" by blast
    from insert_trie_descend [OF Node.prems(1-4) down refl refl u(1,2)]
      trie_ok_with_child [OF Node.prems(1) u(2)] trie_map_with_child [OF Node.prems(1) K u(4)] u(3)
    show ?thesis by (auto simp: with_child_def)
  qed
qed

subsection \<open>Removal\<close>

lemma get_at_ok:
  "trie_ok L pre t \<Longrightarrow> get_at t path = Node q b' c' l' r' \<Longrightarrow>
     masked L b' c' \<and> prefix pre (key b' c')"
proof (induction t path arbitrary: pre rule: get_at.induct)
  case (3 p b c l r d ds)
  then have "masked L b' c' \<and> prefix (key b c @ [d]) (key b' c')"
    by (cases d) auto
  then show ?case using 3(2) by (auto dest!: append_prefixD intro: prefix_order.trans)
qed (auto simp: masked_def)

text \<open>A node that is removed leaves itself without a peer, or its only child, or nothing.\<close>

definition without_peer :: "'p trieEntry \<Rightarrow> 'p trieEntry" where
  "without_peer t =
     (case t of
        Nil \<Rightarrow> Nil
      | Node p b c l r \<Rightarrow>
          if l \<noteq> Nil \<and> r \<noteq> Nil then Node None b c l r else if l = Nil then r else l)"

lemma trie_ok_children:
  assumes ok: "trie_ok L pre (Node p b c l r)"
  shows "trie_ok L pre l" "trie_ok L pre r"
proof -
  have "prefix pre (key b c @ [d])" for d using ok by simp
  then show "trie_ok L pre l" "trie_ok L pre r" using ok by (auto elim!: trie_ok_weaken)
qed

lemma without_peer_ok:
  assumes ok: "trie_ok L pre (Node p b c l r)"
  shows "trie_ok L pre (without_peer (Node p b c l r)) \<and>
    trie_map (without_peer (Node p b c l r)) = (trie_map (Node p b c l r))(key b c := None)"
proof -
  have none: "trie_map l (key b c) = None" "trie_map r (key b c) = None"
    using ok by (auto intro: trie_map_own_key)
  have weak: "trie_ok L pre l" "trie_ok L pre r"
    using trie_ok_children [OF ok] by simp_all
  show ?thesis
  proof (cases "l \<noteq> Nil \<and> r \<noteq> Nil")
    case True
    then show ?thesis using ok by (auto simp: without_peer_def)
  next
    case False
    have "trie_map (without_peer (Node p b c l r)) k = ((trie_map (Node p b c l r))(key b c := None)) k" for k
      using False none by (cases l; cases r) (auto simp: without_peer_def split: option.splits)
    then show ?thesis using weak False by (auto simp: without_peer_def)
  qed
qed

lemma remove_at_root: "remove_at (Node p b c l r) [] = Some (without_peer (Node p b c l r))"
  by (auto simp: remove_at_def without_peer_def)

lemma remove_at_deep:
  assumes "path \<noteq> []"
  shows "remove_at (Node p b c l r) (d # path) =
     map_option (with_child p b c l r d) (remove_at (if d then r else l) path)"
proof (cases d)
  case True
  then show ?thesis
    using assms by (cases "get_at r path") (simp_all add: remove_at_def with_child_def Let_def split: trieEntry.split)
next
  case False
  then show ?thesis
    using assms by (cases "get_at l path") (simp_all add: remove_at_def with_child_def Let_def split: trieEntry.split)
qed

lemma remove_at_child:
  assumes "(if d then r else l) = Node q b' c' l' r'"
  shows "remove_at (Node p b c l r) [d] =
    Some (if l' = Nil \<and> r' = Nil \<and> p = None then (if d then l else r)
          else with_child p b c l r d (without_peer (Node q b' c' l' r')))"
  using assms by (cases d) (auto simp: remove_at_def without_peer_def with_child_def Let_def)

lemma remove_at_spec:
  assumes "trie_ok L pre t" "get_at t path = Node q b' c' l' r'"
  shows "\<exists>u. remove_at t path = Some u \<and> trie_ok L pre u \<and> (path \<noteq> [] \<longrightarrow> u \<noteq> Nil) \<and>
    trie_map u = (trie_map t)(key b' c' := None)"
  using assms
proof (induction t path arbitrary: pre rule: get_at.induct)
  case (1 t)
  then have t: "t = Node q b' c' l' r'" by simp
  from without_peer_ok [of L pre q b' c' l' r'] 1(1) show ?case unfolding t remove_at_root by blast
next
  case (3 p b c l r d ds)
  let ?child = "if d then r else l"
  have child: "trie_ok L (key b c @ [d]) ?child" using 3(2) by (cases d) auto
  have get: "get_at ?child ds = Node q b' c' l' r'" using 3(3) by simp
  have K: "prefix (key b c @ [d]) (key b' c')" using get_at_ok [OF child get] by blast
  show ?case
  proof (cases "ds = []")
    case False
    from 3(1) [OF child get] False obtain u where u: "remove_at ?child ds = Some u"
        "trie_ok L (key b c @ [d]) u" "u \<noteq> Nil" "trie_map u = (trie_map ?child)(key b' c' := None)" by blast
    then show ?thesis
      using trie_ok_with_child [OF 3(2) u(2)] trie_map_with_child [OF 3(2) K u(4)] remove_at_deep [OF False, of p b c l r d]
      by (auto simp: with_child_def)
  next
    case True
    then have leaf: "?child = Node q b' c' l' r'" using get by simp
    let ?w = "without_peer (Node q b' c' l' r')"
    have w: "trie_ok L (key b c @ [d]) ?w" "trie_map ?w = (trie_map ?child)(key b' c' := None)"
      using without_peer_ok [of L "key b c @ [d]" q b' c' l' r'] child leaf by simp_all
    note map = trie_map_with_child [OF 3(2) K w(2)]
    show ?thesis
    proof (cases "l' = Nil \<and> r' = Nil \<and> p = None")
      case gone: True
      let ?other = "if d then l else r"
      have "?other \<noteq> Nil" using 3(2) gone by (cases d) auto
      moreover have "trie_ok L pre ?other"
        using trie_ok_children [OF 3(2)] by simp
      moreover have "trie_map ?other = trie_map (with_child p b c l r d ?w)"
      proof
        fix k
        have "trie_map ?other (key b c) = None"
          using 3(2) by (cases d) (auto intro: trie_map_own_key)
        then show "trie_map ?other k = trie_map (with_child p b c l r d ?w) k"
          using gone by (cases d) (auto simp: with_child_def without_peer_def split: option.splits)
      qed
      moreover have "remove_at (Node p b c l r) (d # ds) = Some ?other"
        using remove_at_child [OF leaf, of p b c] gone True by simp
      ultimately show ?thesis unfolding map by blast
    next
      case False
      then have "?w \<noteq> Nil \<or> p \<noteq> None" by (auto simp: without_peer_def)
      then show ?thesis
        using remove_at_child [OF leaf, of p b c] False map True trie_ok_with_child [OF 3(2) w(1)]
        by (auto simp: with_child_def simp del: trie_map.simps)
    qed
  qed
qed simp

subsection \<open>Placement\<close>

lemma key_masked_unique:
  "masked L b c \<Longrightarrow> masked L b' c' \<Longrightarrow> key b c = key b' c' \<longleftrightarrow> b = b' \<and> c = c'"
  by (metis length_key masked_def masked_inject)

lemma nodePlacement_spec:
  assumes "trie_ok L pre t" "length ip = L" "addr_size L" "cidr \<le> 8 * L"
  shows "(trie_map t (key ip cidr) = None \<and> (\<exists>pl. nodePlacement t ip cidr = Some (pl, False))) \<or>
    (\<exists>path l r. nodePlacement t ip cidr = Some (Some path, True) \<and>
       get_at t path = Node (trie_map t (key ip cidr)) (mask_self ip cidr) cidr l r)"
  using assms
proof (induction t arbitrary: pre)
  case (Node p b c l r)
  let ?K = "key ip cidr" and ?d = "bits_of ip ! c"
  have ok: "masked L b c" "length b = L" "c \<le> 8 * L" using Node.prems(1) by (auto simp: masked_def)
  note place = nodePlacement_Node [OF Node.prems]
  consider (above) "\<not> (c \<le> cidr \<and> prefix (key b c) (bits_of ip))"
    | (exact) "c = cidr" "prefix (key b c) (bits_of ip)" | (down) "c < cidr" "prefix (key b c) (bits_of ip)"
    by linarith
  then show ?case
  proof cases
    case above
    have "trie_map (Node p b c l r) ?K = None"
    proof (rule ccontr)
      assume "trie_map (Node p b c l r) ?K \<noteq> None"
      then have "prefix (key b c) ?K" using trie_map_prefix [OF trie_ok_key [OF Node.prems(1)]] by blast
      moreover have "prefix ?K (bits_of ip)" by (simp add: key_def take_is_prefix)
      ultimately have "prefix (key b c) (bits_of ip)" "c \<le> cidr"
        using prefix_order.trans prefix_length_le [of "key b c" ?K] ok Node.prems by (auto simp: length_key)
      with above show False by blast
    qed
    then show ?thesis using place above by (auto simp del: nodePlacement.simps trie_map.simps)
  next
    case exact
    then have "key b c = ?K" using ok Node.prems by (simp add: prefix_key_iff) (simp add: key_def)
    moreover from this have "b = mask_self ip cidr"
      using ok exact Node.prems
      by (metis key_mask_self key_masked_unique masked_mask_self)
    ultimately show ?thesis using place exact by (simp del: nodePlacement.simps)
  next
    case down
    have K: "prefix ?K (bits_of ip)" by (simp add: key_def take_is_prefix)
    have "?K \<noteq> key b c" using length_key [of c b] length_key [of cidr ip] ok down Node.prems by auto
    then have map: "trie_map (Node p b c l r) ?K = trie_map (if ?d then r else l) ?K"
      using trie_map_branch [OF Node.prems(1) K] by simp
    have IH: "(trie_map (if ?d then r else l) ?K = None \<and> (\<exists>pl. nodePlacement (if ?d then r else l) ip cidr = Some (pl, False))) \<or>
      (\<exists>path l' r'. nodePlacement (if ?d then r else l) ip cidr = Some (Some path, True) \<and>
       get_at (if ?d then r else l) path = Node (trie_map (if ?d then r else l) ?K) (mask_self ip cidr) cidr l' r')"
      using Node.IH(1) [of "key b c @ [False]"] Node.IH(2) [of "key b c @ [True]"] Node.prems by (cases ?d) simp_all
    then show ?thesis
    proof (elim disjE conjE exE)
      fix pl assume "trie_map (if ?d then r else l) ?K = None" "nodePlacement (if ?d then r else l) ip cidr = Some (pl, False)"
      then show ?thesis using place down map by (cases pl) (simp_all del: nodePlacement.simps trie_map.simps)
    next
      fix path l' r'
      assume "nodePlacement (if ?d then r else l) ip cidr = Some (Some path, True)"
        "get_at (if ?d then r else l) path = Node (trie_map (if ?d then r else l) ?K) (mask_self ip cidr) cidr l' r'"
      then show ?thesis using place down map by (simp del: nodePlacement.simps trie_map.simps)
    qed
  qed
qed simp

lemma insert_entries_eq:
  assumes "trie_ok L pre t" "length ip = L" "addr_size L" "cidr \<le> 8 * L"
  shows "insert_entries t E ip cidr peer =
    addToPeerEntries (removeFromPeerEntries E (trie_map t (key ip cidr)) (mask_self ip cidr, cidr)) peer
      (mask_self ip cidr, cidr)"
  using nodePlacement_spec [OF assms]
  by (auto simp: insert_entries_def removeFromPeerEntries_def split: option.splits)

end
