(* ===== verification/RoutingTable.thy ===== *)
theory RoutingTable
  imports AllowedIPs
begin

text \<open>
  The routing table as its clients see it. The specification keeps, per address family, a map
  from prefixes (bit strings) to peers; \<open>table_rel\<close> relates it to the two tries and to the
  per-peer lists of entries of \<open>AllowedIPs\<close>. Every operation of the table is one step of the
  specification, so a run of operations answers lookups by longest prefix match.
\<close>

definition fam_len :: "bool \<Rightarrow> nat" where
  "fam_len v6 = (if v6 then 16 else 4)"

definition fam_trie :: "'p AllowedIPs \<Rightarrow> bool \<Rightarrow> 'p trieEntry" where
  "fam_trie T v6 = (if v6 then IPv6 T else IPv4 T)"

type_synonym 'p routes = "bool \<Rightarrow> 'p route_map"

definition entries_ok :: "'p entries \<Rightarrow> 'p routes \<Rightarrow> bool" where
  "entries_ok E m \<longleftrightarrow>
     (\<forall>p. distinct (E p) \<and>
       (\<forall>b c. (b, c) \<in> set (E p) \<longleftrightarrow> (\<exists>v6. masked (fam_len v6) b c \<and> m v6 (key b c) = Some p)))"

definition table_rel :: "'p AllowedIPs \<Rightarrow> 'p routes \<Rightarrow> bool" where
  "table_rel T m \<longleftrightarrow>
     (\<forall>v6. trie_ok (fam_len v6) [] (fam_trie T v6) \<and> m v6 = trie_map (fam_trie T v6)) \<and>
     entries_ok (trieEntries T) m"

lemma addr_size_fam [simp]: "addr_size (fam_len v6)"
  by (simp add: addr_size_def fam_len_def)

lemma fam_len_inject [simp]: "fam_len v = fam_len w \<longleftrightarrow> v = w"
  by (simp add: fam_len_def)

lemma masked_fam: "masked (fam_len v) b c \<Longrightarrow> masked (fam_len w) b' c' \<Longrightarrow> b = b' \<Longrightarrow> v = w"
  by (auto simp: masked_def)

subsection \<open>The lists of entries\<close>

lemma routes_upd: "(m(v := (m v)(K := x))) w k = (if w = v \<and> k = K then x else m w k)" for m :: "'p routes"
  by simp

text \<open>A prefix of a family is the only one with its key.\<close>

lemma same_entry:
  assumes "masked (fam_len v) b c" "masked (fam_len w) b' c'"
  shows "w = v \<and> key b' c' = key b c \<longleftrightarrow> b' = b \<and> c' = c"
proof
  assume "w = v \<and> key b' c' = key b c"
  then show "b' = b \<and> c' = c" using key_masked_unique [of "fam_len v" b' c' b c] assms by simp
next
  assume eq: "b' = b \<and> c' = c"
  then have "w = v" using masked_fam [OF assms(2,1)] by simp
  with eq show "w = v \<and> key b' c' = key b c" by simp
qed

lemma routes_upd_Some:
  assumes e: "masked (fam_len v) b c"
  shows "(\<exists>w. masked (fam_len w) b' c' \<and> (m(v := (m v)(key b c := x))) w (key b' c') = Some p) \<longleftrightarrow>
    (if b' = b \<and> c' = c then x = Some p else \<exists>w. masked (fam_len w) b' c' \<and> m w (key b' c') = Some p)"
proof (cases "b' = b \<and> c' = c")
  case True
  then have only: "masked (fam_len w) b' c' \<longleftrightarrow> w = v" for w
    using same_entry [OF e, of w b' c'] e by blast
  show ?thesis unfolding only using True by simp
next
  case False
  then have "\<not> (w = v \<and> key b' c' = key b c)" if "masked (fam_len w) b' c'" for w
    using same_entry [OF e that] by blast
  then have "masked (fam_len w) b' c' \<and> (m(v := (m v)(key b c := x))) w (key b' c') = Some p \<longleftrightarrow>
      masked (fam_len w) b' c' \<and> m w (key b' c') = Some p" for w
    unfolding routes_upd by meson
  then show ?thesis using False by (simp only: if_False)
qed

lemma entries_okD:
  assumes "entries_ok E m"
  shows "distinct (E p)" "(b, c) \<in> set (E p) \<longleftrightarrow> (\<exists>v. masked (fam_len v) b c \<and> m v (key b c) = Some p)"
  using assms by (auto simp: entries_ok_def)

lemma entries_ok_remove:
  assumes E: "entries_ok E m" and e: "masked (fam_len v) b c" and q: "m v (key b c) = q"
  shows "entries_ok (removeFromPeerEntries E q (b, c)) (m(v := (m v)(key b c := None)))"
proof (cases q)
  case None
  then have "(m v)(key b c := None) = m v" using q by (simp add: fun_upd_idem)
  then show ?thesis using E None by (simp add: removeFromPeerEntries_def)
next
  case (Some p0)
  let ?m = "m(v := (m v)(key b c := None))"
  have step: "(\<exists>w. masked (fam_len w) b' c' \<and> ?m w (key b' c') = Some p) \<longleftrightarrow>
      (b', c') \<in> set (E p) \<and> (b', c') \<noteq> (b, c)" for p b' c'
    unfolding routes_upd_Some [OF e] by (auto simp: entries_okD(2) [OF E])
  have other: "(b, c) \<notin> set (E p)" if "p \<noteq> p0" for p
  proof
    assume "(b, c) \<in> set (E p)"
    then obtain w where w: "masked (fam_len w) b c" "m w (key b c) = Some p"
      by (auto simp: entries_okD(2) [OF E])
    have "w = v" using same_entry [OF e w(1)] by blast
    with w q Some that show False by simp
  qed
  have "distinct (removeFromPeerEntries E q (b, c) p)" for p
    using entries_okD(1) [OF E] by (simp add: removeFromPeerEntries_def Some)
  moreover have "set (removeFromPeerEntries E q (b, c) p) = set (E p) - {(b, c)}" for p
    using entries_okD(1) [OF E] other by (auto simp: removeFromPeerEntries_def Some)
  ultimately show ?thesis unfolding entries_ok_def step by auto
qed

lemma entries_ok_add:
  assumes E: "entries_ok E m" and e: "masked (fam_len v) b c" and q: "m v (key b c) = None"
  shows "entries_ok (addToPeerEntries E p (b, c)) (m(v := (m v)(key b c \<mapsto> p)))"
proof -
  let ?m = "m(v := (m v)(key b c \<mapsto> p))"
  have new: "(b, c) \<notin> set (E p')" for p'
  proof
    assume "(b, c) \<in> set (E p')"
    then obtain w where w: "masked (fam_len w) b c" "m w (key b c) = Some p'"
      by (auto simp: entries_okD(2) [OF E])
    have "w = v" using same_entry [OF e w(1)] by blast
    with w q show False by simp
  qed
  have step: "(\<exists>w. masked (fam_len w) b' c' \<and> ?m w (key b' c') = Some p') \<longleftrightarrow>
      (b', c') \<in> set (E p') \<or> (b', c') = (b, c) \<and> p' = p" for p' b' c'
    unfolding routes_upd_Some [OF e] using new by (auto simp: entries_okD(2) [OF E])
  have "distinct (addToPeerEntries E p (b, c) p')" for p'
    using entries_okD(1) [OF E] new by (simp add: addToPeerEntries_def)
  moreover have "set (addToPeerEntries E p (b, c) p') = set (E p') \<union> (if p' = p then {(b, c)} else {})" for p'
    by (simp add: addToPeerEntries_def)
  ultimately show ?thesis unfolding entries_ok_def step by auto
qed

subsection \<open>The operations\<close>

definition set_fam :: "'p AllowedIPs \<Rightarrow> bool \<Rightarrow> 'p trieEntry \<Rightarrow> 'p AllowedIPs" where
  "set_fam T v6 t = (if v6 then T\<lparr>IPv6 := t\<rparr> else T\<lparr>IPv4 := t\<rparr>)"

lemma fam_trie_set [simp]: "fam_trie (set_fam T v t) w = (if w = v then t else fam_trie T w)"
  "trieEntries (set_fam T v t) = trieEntries T"
  "fam_trie (T\<lparr>trieEntries := E\<rparr>) w = fam_trie T w"
  by (auto simp: set_fam_def fam_trie_def)

lemma table_relD:
  assumes "table_rel T m"
  shows "trie_ok (fam_len v) [] (fam_trie T v)" "m v = trie_map (fam_trie T v)"
    "entries_ok (trieEntries T) m"
  using assms by (auto simp: table_rel_def)

lemma table_rel_update:
  assumes "table_rel T m" "trie_ok (fam_len v) [] t" "trie_map t = n"
    "entries_ok E (m(v := n))"
  shows "table_rel ((set_fam T v t)\<lparr>trieEntries := E\<rparr>) (m(v := n))"
  using assms by (auto simp: table_rel_def)

definition insert_fam :: "'p AllowedIPs \<Rightarrow> bool \<Rightarrow> bytes \<Rightarrow> nat \<Rightarrow> 'p \<Rightarrow> 'p AllowedIPs option" where
  "insert_fam T v ip cidr peer =
     map_option (\<lambda>t. (set_fam T v t)\<lparr>trieEntries := insert_entries (fam_trie T v) (trieEntries T) ip cidr peer\<rparr>)
       (insert_trie (fam_trie T v) ip cidr peer)"

lemma insert_fam_spec:
  assumes rel: "table_rel T m" and ip: "length ip = fam_len v" "cidr \<le> 8 * fam_len v"
  shows "\<exists>T'. insert_fam T v ip cidr peer = Some T' \<and> table_rel T' (m(v := (m v)(key ip cidr \<mapsto> peer)))"
proof -
  note ok = table_relD [OF rel]
  let ?e = "mask_self ip cidr" and ?K = "key ip cidr"
  let ?n = "m(v := (m v)(?K := None))"
  obtain u where u: "insert_trie (fam_trie T v) ip cidr peer = Some u" "trie_ok (fam_len v) [] u"
      "trie_map u = (m v)(?K \<mapsto> peer)"
    using insert_trie_spec [OF ok(1) [of v] ip(1) addr_size_fam ip(2), of peer] ok(2) by auto
  have e: "masked (fam_len v) ?e cidr" "key ?e cidr = ?K"
    using ip by (simp_all add: masked_mask_self key_mask_self)
  have "entries_ok (removeFromPeerEntries (trieEntries T) (m v ?K) (?e, cidr)) ?n"
    using entries_ok_remove [OF ok(3) e(1) refl] by (simp add: e(2))
  from entries_ok_add [OF this e(1), of peer]
  have "entries_ok (insert_entries (fam_trie T v) (trieEntries T) ip cidr peer) (m(v := (m v)(?K \<mapsto> peer)))"
    using insert_entries_eq [OF ok(1) [of v] ip(1) addr_size_fam ip(2), of "trieEntries T" peer]
    by (simp add: e(2) ok(2))
  from table_rel_update [OF rel u(2,3) this] u(1) show ?thesis by (simp add: insert_fam_def)
qed

lemma remove_node_eq:
  "remove_node T v path =
     map_option (\<lambda>t. (set_fam T v t)\<lparr>trieEntries := remove_entries (fam_trie T v) (trieEntries T) path\<rparr>)
       (remove_at (fam_trie T v) path)"
  by (cases v) (simp_all add: remove_node_def set_fam_def fam_trie_def)

lemma remove_node_spec:
  assumes rel: "table_rel T m" and at: "get_at (fam_trie T v) path = Node (m v (key b c)) b c l r"
  shows "\<exists>T'. remove_node T v path = Some T' \<and> table_rel T' (m(v := (m v)(key b c := None))) \<and>
    trieEntries T' = removeFromPeerEntries (trieEntries T) (m v (key b c)) (b, c)"
proof -
  note ok = table_relD [OF rel]
  obtain u where u: "remove_at (fam_trie T v) path = Some u" "trie_ok (fam_len v) [] u"
      "trie_map u = (m v)(key b c := None)"
    using remove_at_spec [OF ok(1) at] ok(2) by auto
  have "masked (fam_len v) b c" using get_at_ok [OF ok(1) at] by blast
  from entries_ok_remove [OF ok(3) this refl]
  have "entries_ok (remove_entries (fam_trie T v) (trieEntries T) path) (m(v := (m v)(key b c := None)))"
    using at by (simp add: remove_entries_def)
  from table_rel_update [OF rel u(2,3) this] u(1) at show ?thesis
    by (simp add: remove_node_eq remove_entries_def)
qed

definition drop_route :: "'p routes \<Rightarrow> bool \<Rightarrow> bool list \<Rightarrow> 'p \<Rightarrow> 'p routes" where
  "drop_route m v K peer = (if m v K = Some peer then m(v := (m v)(K := None)) else m)"

lemma Remove_family_spec:
  assumes rel: "table_rel T m" and ip: "length ip = fam_len v" "cidr \<le> 8 * fam_len v"
  shows "\<exists>T'. Remove_family T v ip cidr peer = Some T' \<and> table_rel T' (drop_route m v (key ip cidr) peer)"
proof -
  note ok = table_relD [OF rel]
  let ?K = "key ip cidr" and ?e = "mask_self ip cidr"
  have K: "key ?e cidr = ?K" using ip by (simp add: key_mask_self)
  from nodePlacement_spec [OF ok(1) [of v] ip(1) addr_size_fam ip(2)]
  show ?thesis
  proof (elim disjE conjE exE)
    fix pl assume "trie_map (fam_trie T v) ?K = None" "nodePlacement (fam_trie T v) ip cidr = Some (pl, False)"
    then show ?thesis
      using rel ok(2) by (cases pl) (simp_all add: Remove_family_def drop_route_def flip: fam_trie_def)
  next
    fix path l r
    assume pl: "nodePlacement (fam_trie T v) ip cidr = Some (Some path, True)"
      and at: "get_at (fam_trie T v) path = Node (trie_map (fam_trie T v) ?K) ?e cidr l r"
    then have eq: "Remove_family T v ip cidr peer =
        (if Some peer \<noteq> m v ?K then Some T else remove_node T v path)"
      using ok(2) by (simp add: Remove_family_def flip: fam_trie_def)
    show ?thesis
    proof (cases "Some peer = m v ?K")
      case True
      then show ?thesis
        using remove_node_spec [OF rel, of v path ?e cidr l r] at eq ok(2) by (auto simp: drop_route_def K)
    next
      case False
      then show ?thesis using eq rel by (auto simp: drop_route_def)
    qed
  qed
qed

definition without_routes :: "'p routes \<Rightarrow> 'p \<Rightarrow> 'p routes" where
  "without_routes m peer = (\<lambda>v k. if m v k = Some peer then None else m v k)"

lemma masked_key_exists: "length k \<le> 8 * L \<Longrightarrow> \<exists>b c. masked L b c \<and> key b c = k"
proof -
  assume le: "length k \<le> 8 * L"
  have "\<exists>b. length b = L \<and> bits_of b = xs" if "length xs = 8 * L" for xs
    using that
  proof (induction L arbitrary: xs)
    case (Suc L)
    obtain ys zs where xs: "xs = ys @ zs" "length ys = 8" "length zs = 8 * L"
      using Suc.prems by (metis add.commute append_take_drop_id diff_add_inverse length_drop length_take
          min.absorb2 le_add1 mult_Suc_right)
    from Suc.IH [OF xs(3)] obtain b where b: "length b = L" "bits_of b = zs" by blast
    have "byte_bits (of_nat (horner_sum of_bool 2 (rev ys))) = ys"
    proof (rule nth_equalityI)
      fix i assume "i < length (byte_bits (of_nat (horner_sum of_bool 2 (rev ys))))"
      then have i: "i < 8" by simp
      then show "byte_bits (of_nat (horner_sum of_bool 2 (rev ys))) ! i = ys ! i"
        using xs(2) by (auto simp: byte_bits_nth bit_simps bit_horner_sum_bit_iff rev_nth)
    qed (simp add: xs(2))
    with b xs show ?case by (intro exI [of _ "of_nat (horner_sum of_bool 2 (rev ys)) # b"]) simp
  qed simp
  from this [of "k @ replicate (8 * L - length k) False"] le obtain b where
    "length b = L" "bits_of b = k @ replicate (8 * L - length k) False" by auto
  then show ?thesis
    using le by (intro exI [of _ b] exI [of _ "length k"]) (simp add: masked_def key_def)
qed

lemma no_entries_no_routes:
  assumes rel: "table_rel T m" and none: "trieEntries T peer = []"
  shows "without_routes m peer = m"
proof -
  have "m v k \<noteq> Some peer" for v k
  proof
    assume some: "m v k = Some peer"
    then have "length k \<le> 8 * fam_len v"
      using trie_map_prefix [OF table_relD(1) [OF rel], of v k] table_relD(2) [OF rel] by simp
    then obtain b c where "masked (fam_len v) b c" "key b c = k" using masked_key_exists by blast
    then have "(b, c) \<in> set (trieEntries T peer)"
      using some entries_okD(2) [OF table_relD(3) [OF rel]] by blast
    with none show False by simp
  qed
  then show ?thesis by (simp add: without_routes_def fun_eq_iff)
qed

lemma remove_elems_spec:
  assumes "table_rel T m" "trieEntries T peer = es"
  shows "\<exists>T'. remove_elems T es = Some T' \<and> table_rel T' (without_routes m peer)"
  using assms
proof (induction es arbitrary: T m)
  case Nil
  then show ?case using no_entries_no_routes by fastforce
next
  case (Cons e es)
  obtain b c where e: "e = (b, c)" by force
  note ok = table_relD [OF Cons.prems(1)]
  have "(b, c) \<in> set (trieEntries T peer)" using Cons.prems(2) e by simp
  then obtain v where v: "masked (fam_len v) b c" "m v (key b c) = Some peer"
    using entries_okD(2) [OF ok(3)] by blast
  have len: "length b = fam_len v" "c \<le> 8 * fam_len v" using v(1) by (auto simp: masked_def)
  have mask: "mask_self b c = b"
    using key_masked_unique [OF masked_mask_self [OF len] v(1)] len by (simp add: key_mask_self)
  obtain path l r where pl: "nodePlacement (fam_trie T v) b c = Some (Some path, True)"
      and at: "get_at (fam_trie T v) path = Node (m v (key b c)) b c l r"
    using nodePlacement_spec [OF ok(1) [of v] len(1) addr_size_fam len(2)] v(2) ok(2) mask by auto
  from remove_node_spec [OF Cons.prems(1) at] obtain T1 where
    T1: "remove_node T v path = Some T1" "table_rel T1 (m(v := (m v)(key b c := None)))"
      "trieEntries T1 = removeFromPeerEntries (trieEntries T) (Some peer) (b, c)"
    using v(2) by auto
  have "trieEntries T1 peer = es" using Cons.prems(2) T1(3) e by (simp add: removeFromPeerEntries_def)
  from Cons.IH [OF T1(2) this] obtain T' where
    T': "remove_elems T1 es = Some T'" "table_rel T' (without_routes (m(v := (m v)(key b c := None))) peer)"
    by blast
  moreover have "without_routes (m(v := (m v)(key b c := None))) peer = without_routes m peer"
    using v(2) by (auto simp: without_routes_def fun_eq_iff)
  moreover have "(length b = 16) = v" using len(1) by (simp add: fam_len_def)
  then have "remove_elems T ((b, c) # es) = remove_elems T1 es"
    using pl T1(1) by (simp flip: fam_trie_def)
  ultimately show ?case using e by auto
qed

subsection \<open>Runs of the table\<close>

datatype 'p route_call =
    DoInsert Prefix 'p
  | DoRemove Prefix 'p
  | DoRemoveByPeer 'p
  | DoLookup bytes
  | DoEntries 'p

datatype 'p route_result = Done | Panic | Found "'p option" | Entries "Prefix set"

fun changed :: "'p AllowedIPs \<Rightarrow> 'p AllowedIPs option \<Rightarrow> 'p AllowedIPs \<times> 'p route_result" where
  "changed T None = (T, Panic)"
| "changed T (Some T') = (T', Done)"

fun table_step :: "'p AllowedIPs \<Rightarrow> 'p route_call \<Rightarrow> 'p AllowedIPs \<times> 'p route_result" where
  "table_step T (DoInsert pfx peer) = changed T (Insert T pfx peer)"
| "table_step T (DoRemove pfx peer) = changed T (Remove T pfx peer)"
| "table_step T (DoRemoveByPeer peer) = changed T (RemoveByPeer T peer)"
| "table_step T (DoLookup ip) = (T, case Lookup T ip of None \<Rightarrow> Panic | Some r \<Rightarrow> Found r)"
| "table_step T (DoEntries peer) = (T, Entries (set (EntriesForPeer T peer (\<lambda>_. True))))"

text \<open>The prefixes that \<open>netip\<close> calls valid, their family and their key.\<close>

fun prefix_ok :: "Prefix \<Rightarrow> bool" where
  "prefix_ok pfx \<longleftrightarrow>
     (case Addr pfx of
        ZeroAddr \<Rightarrow> False
      | V4 ip \<Rightarrow> length ip = 4 \<and> 0 \<le> Bits pfx \<and> Bits pfx \<le> 32
      | V6 ip z \<Rightarrow> length ip = 16 \<and> 0 \<le> Bits pfx \<and> Bits pfx \<le> 128)"

definition prefix_fam :: "Prefix \<Rightarrow> bool" where
  "prefix_fam pfx = (case Addr pfx of V6 _ _ \<Rightarrow> True | _ \<Rightarrow> False)"

definition prefix_key :: "Prefix \<Rightarrow> bool list" where
  "prefix_key pfx =
     (case Addr pfx of V6 ip _ \<Rightarrow> key ip (nat (Bits pfx)) | V4 ip \<Rightarrow> key ip (nat (Bits pfx)) | ZeroAddr \<Rightarrow> [])"

fun spec_route :: "'p routes \<Rightarrow> 'p route_call \<Rightarrow> 'p routes \<times> 'p route_result" where
  "spec_route m (DoInsert pfx peer) =
     (m(prefix_fam pfx := (m (prefix_fam pfx))(prefix_key pfx \<mapsto> peer)), Done)"
| "spec_route m (DoRemove pfx peer) = (drop_route m (prefix_fam pfx) (prefix_key pfx) peer, Done)"
| "spec_route m (DoRemoveByPeer peer) = (without_routes m peer, Done)"
| "spec_route m (DoLookup ip) = (m, Found (longest_match (m (length ip = 16)) (bits_of ip)))"
| "spec_route m (DoEntries peer) =
     (m, Entries {entry_prefix (b, c) | b c. \<exists>v. masked (fam_len v) b c \<and> m v (key b c) = Some peer})"

fun call_ok :: "'p route_call \<Rightarrow> bool" where
  "call_ok (DoInsert pfx peer) \<longleftrightarrow> prefix_ok pfx"
| "call_ok (DoRemove pfx peer) \<longleftrightarrow> prefix_ok pfx"
| "call_ok (DoLookup ip) \<longleftrightarrow> addr_size (length ip)"
| "call_ok _ \<longleftrightarrow> True"

lemma uint8_Bits_ok: "0 \<le> Bits pfx \<Longrightarrow> Bits pfx \<le> 128 \<Longrightarrow> uint8_Bits pfx = nat (Bits pfx)"
  by (simp add: uint8_Bits_def)

lemma Insert_spec:
  assumes "table_rel T m" "prefix_ok pfx"
  shows "\<exists>T'. Insert T pfx peer = Some T' \<and>
    table_rel T' (m(prefix_fam pfx := (m (prefix_fam pfx))(prefix_key pfx \<mapsto> peer)))"
proof (cases "Addr pfx")
  case (V4 ip)
  then have "Insert T pfx peer = insert_fam T False ip (nat (Bits pfx)) peer"
    using assms(2) by (simp add: Insert_def insert_fam_def set_fam_def fam_trie_def uint8_Bits_ok)
  then show ?thesis
    using insert_fam_spec [OF assms(1), of ip False "nat (Bits pfx)" peer] assms(2) V4
    by (simp add: prefix_fam_def prefix_key_def fam_len_def nat_le_iff)
next
  case (V6 ip z)
  then have "Insert T pfx peer = insert_fam T True ip (nat (Bits pfx)) peer"
    using assms(2) by (simp add: Insert_def insert_fam_def set_fam_def fam_trie_def uint8_Bits_ok)
  then show ?thesis
    using insert_fam_spec [OF assms(1), of ip True "nat (Bits pfx)" peer] assms(2) V6
    by (simp add: prefix_fam_def prefix_key_def fam_len_def nat_le_iff)
qed (use assms in simp)

lemma Remove_spec:
  assumes "table_rel T m" "prefix_ok pfx"
  shows "\<exists>T'. Remove T pfx peer = Some T' \<and> table_rel T' (drop_route m (prefix_fam pfx) (prefix_key pfx) peer)"
proof (cases "Addr pfx")
  case (V4 ip)
  then show ?thesis
    using Remove_family_spec [OF assms(1), of ip False "nat (Bits pfx)" peer] assms(2)
    by (simp add: Remove_def uint8_Bits_ok prefix_fam_def prefix_key_def fam_len_def nat_le_iff)
next
  case (V6 ip z)
  then show ?thesis
    using Remove_family_spec [OF assms(1), of ip True "nat (Bits pfx)" peer] assms(2)
    by (simp add: Remove_def uint8_Bits_ok prefix_fam_def prefix_key_def fam_len_def nat_le_iff)
qed (use assms in simp)

lemma Lookup_spec:
  assumes "table_rel T m" "addr_size (length ip)"
  shows "Lookup T ip = Some (longest_match (m (length ip = 16)) (bits_of ip))"
proof -
  have len: "length ip = fam_len (length ip = 16)" using assms(2) by (auto simp: addr_size_def fam_len_def)
  have "Lookup T ip = lookup (fam_trie T (length ip = 16)) ip None"
    using assms(2) by (auto simp: Lookup_def fam_trie_def addr_size_def)
  then show ?thesis
    using lookup_spec [OF table_relD(1) [OF assms(1)] addr_size_fam len] table_relD(2) [OF assms(1)] by simp
qed

lemma visit_all: "visit (\<lambda>_. True) es = map entry_prefix es"
  by (induction es) auto

lemma table_step_sim:
  assumes rel: "table_rel T m" and pre: "call_ok x"
  shows "table_rel (fst (table_step T x)) (fst (spec_route m x)) \<and> snd (table_step T x) = snd (spec_route m x)"
proof (cases x)
  case (DoInsert pfx peer)
  then show ?thesis using Insert_spec [OF rel, of pfx peer] pre by auto
next
  case (DoRemove pfx peer)
  then show ?thesis using Remove_spec [OF rel, of pfx peer] pre by auto
next
  case (DoRemoveByPeer peer)
  then show ?thesis using remove_elems_spec [OF rel refl, of peer] by (auto simp: RemoveByPeer_def)
next
  case (DoLookup ip)
  then show ?thesis using rel pre by (simp add: Lookup_spec)
next
  case (DoEntries peer)
  have "set (trieEntries T peer) = {(b, c). \<exists>v. masked (fam_len v) b c \<and> m v (key b c) = Some peer}"
    using entries_okD(2) [OF table_relD(3) [OF rel]] by auto
  then show ?thesis using DoEntries rel by (auto simp: EntriesForPeer_def visit_all)
qed

interpretation routing: guarded_refinement table_step spec_route table_rel "\<lambda>_. call_ok"
  by unfold_locales (simp_all add: table_step_sim)

definition no_routes :: "'p routes" where
  "no_routes = (\<lambda>_ _. None)"

lemma empty_table_rel: "table_rel empty_AllowedIPs no_routes"
  by (auto simp: table_rel_def empty_AllowedIPs_def no_routes_def fam_trie_def entries_ok_def fun_eq_iff)

lemma calls_run_ok: "list_all call_ok cs \<Longrightarrow> run_ok spec_route (\<lambda>_. call_ok) m cs"
  by (induction cs arbitrary: m) simp_all

fun nodes :: "'p trieEntry \<Rightarrow> nat" where
  "nodes Nil = 0"
| "nodes (Node p b c l r) = Suc (nodes l + nodes r)"

fun peer_nodes :: "'p trieEntry \<Rightarrow> nat" where
  "peer_nodes Nil = 0"
| "peer_nodes (Node p b c l r) = (if p = None then 0 else 1) + peer_nodes l + peer_nodes r"

lemma nodes_bound: "trie_ok L pre t \<Longrightarrow> t \<noteq> Nil \<Longrightarrow> nodes t + 1 \<le> 2 * peer_nodes t"
proof (induction t arbitrary: pre)
  case (Node p b c l r)
  have "l \<noteq> Nil \<Longrightarrow> nodes l + 1 \<le> 2 * peer_nodes l" "r \<noteq> Nil \<Longrightarrow> nodes r + 1 \<le> 2 * peer_nodes r"
    using Node by auto
  then show ?case using Node.prems(1) by (cases l; cases r; cases p) auto
qed simp

subsection \<open>Properties\<close>

text \<open>C5: The allowed-IPs tables route by longest prefix match. From an empty table, any sequence of
  \<open>Insert\<close>, \<open>Remove\<close>, \<open>RemoveByPeer\<close>, \<open>Lookup\<close> and \<open>EntriesForPeer\<close> calls, in any order, on
  valid prefixes of both families, never panics and returns what two maps from prefixes to
  peers return: a lookup gives the peer of the longest prefix of the address, an insertion
  replaces the peer of an equal prefix, a removal by the wrong peer changes nothing, and the
  entries of a peer are exactly its prefixes, masked.\<close>

theorem AllowedIPs_longest_prefix_match:
  assumes "list_all call_ok calls"
  shows "snd (run_calls table_step empty_AllowedIPs calls) = snd (run_calls spec_route no_routes calls)"
  using routing.run_results [OF empty_table_rel calls_run_ok [OF assms]] .

definition demo_calls :: "nat route_call list" where
  "demo_calls =
     [DoInsert \<lparr>Addr = V4 [10, 0, 0, 0], Bits = 8\<rparr> 1, DoInsert \<lparr>Addr = V4 [10, 1, 2, 3], Bits = 16\<rparr> 2,
      DoLookup [10, 1, 9, 9], DoRemoveByPeer 2, DoLookup [10, 1, 9, 9]]"

theorem AllowedIPs_longest_prefix_match_witness:
  "snd (run_calls table_step empty_AllowedIPs demo_calls) = snd (run_calls spec_route no_routes demo_calls)"
  by (rule AllowedIPs_longest_prefix_match) (simp add: demo_calls_def addr_size_def)

text \<open>Property: What the lookup of a routing run means: after any valid sequence of calls, \<open>Lookup\<close> of an
  address returns a peer exactly when some stored prefix contains the address, and then it is
  the peer of the longest such prefix.\<close>

theorem Lookup_is_longest:
  assumes "list_all call_ok calls" and "addr_size (length ip)"
  shows "\<exists>r. Lookup (fst (run_calls table_step empty_AllowedIPs calls)) ip = Some r \<and>
    is_longest_match (fst (run_calls spec_route no_routes calls) (length ip = 16)) (bits_of ip) r"
  using Lookup_spec [OF routing.run_sim [OF empty_table_rel calls_run_ok [OF assms(1)]] assms(2)]
    longest_match_is by blast

theorem Lookup_is_longest_witness:
  "\<exists>r. Lookup (fst (run_calls table_step empty_AllowedIPs demo_calls)) [10, 1, 9, 9] = Some r \<and>
    is_longest_match (fst (run_calls spec_route no_routes demo_calls) (length [10, 1, 9, 9 :: byte] = 16))
      (bits_of [10, 1, 9, 9]) r"
  by (rule Lookup_is_longest) (simp_all add: demo_calls_def addr_size_def)

text \<open>C32: The tries stay compressed: after any valid sequence of calls, each trie has fewer than
  twice as many nodes as it has prefixes, whatever was inserted and removed on the way.\<close>

theorem tries_stay_compressed:
  assumes "list_all call_ok calls" and "T = fst (run_calls table_step empty_AllowedIPs calls)"
  shows "nodes (IPv4 T) \<le> 2 * peer_nodes (IPv4 T) \<and> nodes (IPv6 T) \<le> 2 * peer_nodes (IPv6 T)"
proof -
  have ok: "trie_ok (fam_len v) [] (fam_trie T v)" for v
    using table_relD(1) [OF routing.run_sim [OF empty_table_rel calls_run_ok [OF assms(1)]]] assms(2) by simp
  have "nodes (fam_trie T v) \<le> 2 * peer_nodes (fam_trie T v)" for v
  proof (cases "fam_trie T v = Nil")
    case False
    with nodes_bound [OF ok] show ?thesis by force
  qed simp
  from this [of False] this [of True] show ?thesis by (simp add: fam_trie_def)
qed

theorem tries_stay_compressed_witness:
  "nodes (IPv4 (fst (run_calls table_step empty_AllowedIPs demo_calls)))
     \<le> 2 * peer_nodes (IPv4 (fst (run_calls table_step empty_AllowedIPs demo_calls)))"
  using tries_stay_compressed [of demo_calls, OF _ refl] by (simp add: demo_calls_def addr_size_def)

end
