(* ===== verification/GoStrings.thy ===== *)
theory GoStrings
  imports GoPrelude
begin

text \<open>
  The string functions of the Go standard library that the configuration code calls, on
  \<open>string\<close>s: decimal printing (\<open>%d\<close>) and \<open>strconv.ParseUint\<close>, hexadecimal encoding and
  decoding, \<open>strings.Cut\<close> and \<open>strings.Split\<close>. The lemmas are their round trips.
\<close>

subsection \<open>Decimal numbers\<close>

definition digit_char :: "nat \<Rightarrow> char" where
  "digit_char d = char_of (48 + d)"

definition digit_val :: "char \<Rightarrow> nat option" where
  "digit_val c = (let v = of_char c in if 48 \<le> v \<and> v \<le> (57 :: nat) then Some (v - 48) else None)"

fun decimal :: "nat \<Rightarrow> string" where
  "decimal n = (if n < 10 then [digit_char n] else decimal (n div 10) @ [digit_char (n mod 10)])"

declare decimal.simps [simp del]

datatype parse_error = ErrSyntax | ErrRange

text \<open>
  \<open>strconv.ParseUint(s, 10, bitSize)\<close>: the first character that is not a digit is a syntax
  error, the first digit that takes the value out of range a range error.
\<close>

fun parse_digits :: "nat \<Rightarrow> nat \<Rightarrow> string \<Rightarrow> parse_error + nat" where
  "parse_digits maxVal n [] = Inr n"
| "parse_digits maxVal n (c # cs) =
     (case digit_val c of
        None \<Rightarrow> Inl ErrSyntax
      | Some d \<Rightarrow> if n * 10 + d > maxVal then Inl ErrRange else parse_digits maxVal (n * 10 + d) cs)"

definition ParseUint :: "string \<Rightarrow> nat \<Rightarrow> parse_error + nat" where
  "ParseUint s bitSize = (if s = [] then Inl ErrSyntax else parse_digits (2 ^ bitSize - 1) 0 s)"

lemma digit_val_char [simp]: "d < 10 \<Longrightarrow> digit_val (digit_char d) = Some d"
  by (simp add: digit_val_def digit_char_def Let_def)

lemma decimal_not_Nil [simp]: "decimal n \<noteq> []"
  by (subst decimal.simps) simp

lemma decimal_digits: "c \<in> set (decimal n) \<Longrightarrow> \<exists>d < 10. c = digit_char d"
proof (induction n rule: decimal.induct)
  case (1 n)
  show ?case
  proof (cases "n < 10")
    case True
    then show ?thesis using 1 by (subst (asm) decimal.simps) auto
  next
    case False
    then have "c \<in> set (decimal (n div 10)) \<or> c = digit_char (n mod 10)"
      using "1.prems" by (subst (asm) decimal.simps) auto
    then show ?thesis using 1 False by (auto intro: exI [of _ "n mod 10"])
  qed
qed

lemma parse_digits_append:
  "parse_digits M n (xs @ ys) = bindE (parse_digits M n xs) (\<lambda>m. parse_digits M m ys)"
  by (induction M n xs rule: parse_digits.induct) (auto split: option.splits)

lemma parse_digits_decimal: "n \<le> M \<Longrightarrow> parse_digits M 0 (decimal n) = Inr n"
proof (induction n rule: decimal.induct)
  case (1 n)
  show ?case
  proof (cases "n < 10")
    case True
    then show ?thesis using 1 by (subst decimal.simps) simp
  next
    case False
    then have "parse_digits M 0 (decimal (n div 10)) = Inr (n div 10)" using 1 by auto
    then show ?thesis
      using False 1 by (subst decimal.simps) (simp add: parse_digits_append)
  qed
qed

lemma ParseUint_decimal: "n < 2 ^ b \<Longrightarrow> ParseUint (decimal n) b = Inr n"
  by (simp add: ParseUint_def parse_digits_decimal)

lemma parse_digits_bound: "parse_digits M n s = Inr v \<Longrightarrow> n \<le> M \<Longrightarrow> v \<le> M"
  by (induction M n s rule: parse_digits.induct) (auto split: option.splits if_splits)

lemma ParseUint_bound:
  assumes "ParseUint s b = Inr v"
  shows "v < 2 ^ b"
proof -
  have "parse_digits (2 ^ b - 1) 0 s = Inr v" using assms by (simp add: ParseUint_def split: if_splits)
  from parse_digits_bound [OF this] have "v \<le> 2 ^ b - 1" by simp
  moreover have "0 < (2 :: nat) ^ b" by simp
  ultimately show ?thesis by linarith
qed

subsection \<open>Cutting and splitting\<close>

text \<open>\<open>strings.Cut(s, sep)\<close> for a one-character separator; \<open>None\<close> when it does not occur.\<close>

fun cut_at :: "char \<Rightarrow> string \<Rightarrow> (string \<times> string) option" where
  "cut_at c [] = None"
| "cut_at c (x # xs) =
     (if x = c then Some ([], xs) else map_option (\<lambda>(a, b). (x # a, b)) (cut_at c xs))"

fun split_at :: "char \<Rightarrow> string \<Rightarrow> string list" where
  "split_at c [] = [[]]"
| "split_at c (x # xs) =
     (if x = c then [] # split_at c xs
      else (case split_at c xs of [] \<Rightarrow> [[x]] | p # ps \<Rightarrow> (x # p) # ps))"

lemma cut_at_append: "c \<notin> set xs \<Longrightarrow> cut_at c (xs @ c # ys) = Some (xs, ys)"
  by (induction xs) auto

lemma split_at_not_Nil [simp]: "split_at c xs \<noteq> []"
  by (induction xs) (auto split: list.splits)

lemma split_at_none: "c \<notin> set xs \<Longrightarrow> split_at c xs = [xs]"
  by (induction xs) auto

lemma split_at_append: "c \<notin> set xs \<Longrightarrow> split_at c (xs @ c # ys) = xs # split_at c ys"
  by (induction xs) auto

subsection \<open>Hexadecimal\<close>

definition hex_char :: "nat \<Rightarrow> char" where
  "hex_char d = (if d < 10 then char_of (48 + d) else char_of (87 + d))"

definition hex_val :: "char \<Rightarrow> nat option" where
  "hex_val c =
     (let v = of_char c
      in if 48 \<le> v \<and> v \<le> (57 :: nat) then Some (v - 48)
         else if 97 \<le> v \<and> v \<le> 102 then Some (v - 87)
         else if 65 \<le> v \<and> v \<le> 70 then Some (v - 55) else None)"

fun hex_encode :: "bytes \<Rightarrow> string" where
  "hex_encode [] = []"
| "hex_encode (b # bs) = hex_char (unat b div 16) # hex_char (unat b mod 16) # hex_encode bs"

datatype hex_error = InvalidByte char | ErrLength

text \<open>\<open>hex.DecodeString\<close>.\<close>

fun hex_decode :: "string \<Rightarrow> hex_error + bytes" where
  "hex_decode [] = Inr []"
| "hex_decode [c] = (if hex_val c = None then Inl (InvalidByte c) else Inl ErrLength)"
| "hex_decode (c # d # cs) =
     (case hex_val c of
        None \<Rightarrow> Inl (InvalidByte c)
      | Some h \<Rightarrow>
          (case hex_val d of
             None \<Rightarrow> Inl (InvalidByte d)
           | Some l \<Rightarrow> bindE (hex_decode cs) (\<lambda>bs. Inr (of_nat (h * 16 + l) # bs))))"

lemma hex_val_char [simp]: "d < 16 \<Longrightarrow> hex_val (hex_char d) = Some d"
  by (auto simp: hex_val_def hex_char_def Let_def)

lemma hex_decode_encode: "hex_decode (hex_encode bs) = Inr bs"
proof (induction bs)
  case (Cons b bs)
  have "unat b div 16 < 16" using unat_byte_less [of b] by simp
  then show ?case using Cons by simp
qed simp

lemma length_hex_decode: "hex_decode s = Inr bs \<Longrightarrow> length s = 2 * length bs"
  by (induction s arbitrary: bs rule: hex_decode.induct) (auto simp: bindE_Inr_iff split: option.splits if_splits)

subsection \<open>Signed numbers, fields and prefixes\<close>

text \<open>\<open>strconv.Atoi\<close>: an optional sign, then digits, in the range of \<open>int64\<close>.\<close>

definition Atoi :: "string \<Rightarrow> parse_error + int" where
  "Atoi s =
     (let neg = (s \<noteq> [] \<and> hd s = CHR ''-'');
          ds = (if s \<noteq> [] \<and> (hd s = CHR ''-'' \<or> hd s = CHR ''+'') then tl s else s)
      in bindE (ParseUint ds 64) (\<lambda>n.
           if \<not> neg \<and> n \<ge> 2 ^ 63 then Inl ErrRange
           else if neg \<and> n > 2 ^ 63 then Inl ErrRange
           else Inr (if neg then - int n else int n)))"

lemma Atoi_range: "Atoi s = Inr n \<Longrightarrow> - (2 ^ 63) \<le> n \<and> n < 2 ^ 63"
  by (auto simp: Atoi_def Let_def bindE_Inr_iff not_le not_less split: if_splits)

text \<open>\<open>strings.IndexByte\<close> as a split: what precedes the first occurrence and what follows it.\<close>

lemma cut_at_length: "cut_at c s = Some (a, b) \<Longrightarrow> length b < length s"
  by (induction s arbitrary: a) (auto split: if_splits option.splits)

text \<open>\<open>strings.Fields\<close> on ASCII text.\<close>

definition is_space :: "char \<Rightarrow> bool" where
  "is_space c \<longleftrightarrow> (let v = of_char c :: nat in v = 32 \<or> (9 \<le> v \<and> v \<le> 13))"

fun fields_from :: "string \<Rightarrow> string \<Rightarrow> string list" where
  "fields_from cur [] = (if cur = [] then [] else [rev cur])"
| "fields_from cur (c # cs) =
     (if is_space c then (if cur = [] then fields_from [] cs else rev cur # fields_from [] cs)
      else fields_from (c # cur) cs)"

definition Fields :: "string \<Rightarrow> string list" where
  "Fields s = fields_from [] s"

definition TrimPrefix :: "string \<Rightarrow> string \<Rightarrow> string" where
  "TrimPrefix s p = (if take (length p) s = p then drop (length p) s else s)"

end
