(* ===== verification/NoiseTypes.thy ===== *)
theory NoiseTypes
  imports GoStrings NoiseHelpers
begin

text \<open>
  The key types and the header ranges of src/device/noise-types.go. A \<open>UintRange\<close> is one 64-bit
  word, the low bound in its low half and the high bound in its high half. The random word that
  \<open>runtime.fastrandn\<close> draws is an argument.
\<close>

subsection \<open>Keys\<close>

datatype key_error = BadHex hex_error | DoesNotFit

text \<open>\<open>loadExactHex\<close> on the destination array, which keeps its contents on an error.\<close>

definition loadExactHex :: "bytes \<Rightarrow> string \<Rightarrow> bytes \<times> key_error option" where
  "loadExactHex dst src =
     (case hex_decode src of
        Inl e \<Rightarrow> (dst, Some (BadHex e))
      | Inr s \<Rightarrow> if length s \<noteq> length dst then (dst, Some DoesNotFit) else (copy_at 0 s dst, None))"

definition key_Equals :: "bytes \<Rightarrow> bytes \<Rightarrow> bool" where
  "key_Equals key tar \<longleftrightarrow> key = tar"

definition key_IsZero :: "bytes \<Rightarrow> bool" where
  "key_IsZero key \<longleftrightarrow> key_Equals key (replicate 32 0)"

definition private_FromHex :: "bytes \<Rightarrow> string \<Rightarrow> bytes \<times> key_error option" where
  "private_FromHex key src = (let (key, err) = loadExactHex key src in (clamp key, err))"

definition FromMaybeZeroHex :: "bytes \<Rightarrow> string \<Rightarrow> bytes \<times> key_error option" where
  "FromMaybeZeroHex key src =
     (let (key, err) = loadExactHex key src
      in if key_IsZero key then (key, err) else (clamp key, err))"

definition public_FromHex :: "bytes \<Rightarrow> string \<Rightarrow> bytes \<times> key_error option" where
  "public_FromHex key src = loadExactHex key src"

definition preshared_FromHex :: "bytes \<Rightarrow> string \<Rightarrow> bytes \<times> key_error option" where
  "preshared_FromHex key src = loadExactHex key src"

definition header_FromHex :: "bytes \<Rightarrow> string \<Rightarrow> bytes \<times> key_error option" where
  "header_FromHex key src = loadExactHex key src"

lemma loadExactHex_encode: "length dst = length b \<Longrightarrow> loadExactHex dst (hex_encode b) = (b, None)"
  by (simp add: loadExactHex_def hex_decode_encode copy_at_fits)

lemma length_loadExactHex [simp]: "length (fst (loadExactHex dst s)) = length dst"
  by (auto simp: loadExactHex_def split: sum.splits)

subsection \<open>Ranges\<close>

type_synonym UintRange = u64

definition fastrandn :: "u32 \<Rightarrow> u32 \<Rightarrow> u32" where
  "fastrandn rnd n = ucast (drop_bit 32 (ucast rnd * ucast n :: u64))"

definition Lo :: "UintRange \<Rightarrow> u32" where
  "Lo r = ucast r"

definition Hi :: "UintRange \<Rightarrow> u32" where
  "Hi r = ucast (drop_bit 32 r)"

definition FromUint32 :: "u32 \<Rightarrow> u32 \<Rightarrow> UintRange" where
  "FromUint32 lo hi = push_bit 32 (ucast hi) OR ucast lo"

datatype range_error = WrongFormat | BadBound parse_error | WrongRange

definition FromString :: "string \<Rightarrow> range_error + UintRange" where
  "FromString str =
     (let parts = split_at (CHR ''-'') str
      in if length parts < 1 \<or> length parts > 2 then Inl WrongFormat
         else case ParseUint (parts ! 0) 32 of
                Inl e \<Rightarrow> Inl (BadBound e)
              | Inr lo \<Rightarrow>
                  (case (if length parts > 1 then ParseUint (parts ! 1) 32 else Inr lo) of
                     Inl e \<Rightarrow> Inl (BadBound e)
                   | Inr hi \<Rightarrow> if hi < lo then Inl WrongRange
                              else Inr (FromUint32 (of_nat lo) (of_nat hi))))"

definition Contains :: "UintRange \<Rightarrow> u32 \<Rightarrow> bool" where
  "Contains r num = (let lo = ucast r; hi = ucast (drop_bit 32 r) in lo \<le> num \<and> num \<le> hi)"

definition range_IsZero :: "UintRange \<Rightarrow> bool" where
  "range_IsZero r \<longleftrightarrow> r = 0"

definition PickOne :: "UintRange \<Rightarrow> u32 \<Rightarrow> u32" where
  "PickOne r rnd =
     (let lo = ucast r; hi = ucast (drop_bit 32 r) in lo + fastrandn rnd (hi - lo + 1))"

definition ToString :: "UintRange \<Rightarrow> string" where
  "ToString r =
     (let lo = ucast r :: u32; hi = ucast (drop_bit 32 r) :: u32
      in if lo = hi then decimal (unat lo) else decimal (unat lo) @ ''-'' @ decimal (unat hi))"

definition Overlap :: "UintRange \<Rightarrow> UintRange \<Rightarrow> bool" where
  "Overlap r right =
     (let l_lo = ucast r :: u32; l_hi = ucast (drop_bit 32 r) :: u32;
          r_lo = ucast right :: u32; r_hi = ucast (drop_bit 32 right) :: u32
      in l_lo \<le> r_hi \<and> r_lo \<le> l_hi)"

definition range_ok :: "UintRange \<Rightarrow> bool" where
  "range_ok r \<longleftrightarrow> Lo r \<le> Hi r"

lemma range_halves [simp]: "Lo (FromUint32 lo hi) = lo" "Hi (FromUint32 lo hi) = hi"
proof -
  show "Lo (FromUint32 lo hi) = lo"
    unfolding Lo_def FromUint32_def by (rule bit_word_eqI) (auto simp: bit_simps dest: bit_imp_le_length)
  show "Hi (FromUint32 lo hi) = hi"
    unfolding Hi_def FromUint32_def by (rule bit_word_eqI) (auto simp: bit_simps dest: bit_imp_le_length)
qed

lemma range_of_halves [simp]: "FromUint32 (Lo r) (Hi r) = r"
  unfolding Lo_def Hi_def FromUint32_def by (rule bit_word_eqI) (auto simp: bit_simps dest: bit_imp_le_length)

lemma unat_ucast_up [simp]: "unat (ucast (x :: u32) :: u64) = unat x"
proof -
  have "unat x < 2 ^ 64" using unat_u32_less [of x] by simp
  then show ?thesis by (simp add: unsigned_ucast_eq take_bit_nat_eq_self)
qed

lemma unat_fastrandn: "unat (fastrandn rnd n) = unat rnd * unat n div 2 ^ 32"
proof -
  have less: "unat rnd * unat n < 2 ^ 32 * 2 ^ 32"
    using unat_u32_less [of rnd] unat_u32_less [of n] by (intro mult_strict_mono) simp_all
  then have "unat (ucast rnd * ucast n :: u64) = unat rnd * unat n"
    by (simp add: unat_word_ariths)
  then have "unat (drop_bit 32 (ucast rnd * ucast n :: u64)) = unat rnd * unat n div 2 ^ 32"
    by (simp add: unat_drop_bit_eq [unfolded drop_bit_eq_div] drop_bit_eq_div unat_div_distrib)
  moreover have "unat rnd * unat n div 2 ^ 32 < 2 ^ 32"
    using less by (simp add: less_mult_imp_div_less)
  ultimately show ?thesis
    by (simp add: fastrandn_def unsigned_ucast_eq take_bit_nat_eq_self)
qed

lemma fastrandn_less: "n \<noteq> 0 \<Longrightarrow> fastrandn rnd n < n"
proof -
  assume "n \<noteq> 0"
  then have "0 < unat n" by (simp add: unat_gt_0)
  then have "unat rnd * unat n < 2 ^ 32 * unat n"
    using unat_u32_less [of rnd] by (simp only: mult_less_cancel2)
  then have "unat rnd * unat n div 2 ^ 32 < unat n"
    by (intro less_mult_imp_div_less) (simp add: mult.commute)
  then show ?thesis by (simp add: word_less_nat_alt unat_fastrandn)
qed

lemma fastrandn_zero [simp]: "fastrandn rnd 0 = 0"
  by (simp add: fastrandn_def)

text \<open>Every value below the bound is drawn for some random word.\<close>

lemma fastrandn_onto:
  assumes "v < n"
  obtains rnd where "fastrandn rnd n = v"
proof -
  let ?n = "unat n" and ?v = "unat v"
  have vn: "?v < ?n" and n: "0 < ?n" "?n < 2 ^ 32"
    using assms unat_u32_less [of n] by (simp_all add: word_less_nat_alt)
  define k where "k = (2 ^ 32 * ?v + ?n - 1) div ?n"
  have lower: "2 ^ 32 * ?v \<le> k * ?n" and upper: "k * ?n \<le> 2 ^ 32 * ?v + ?n - 1"
  proof -
    have "2 ^ 32 * ?v + ?n - 1 = k * ?n + (2 ^ 32 * ?v + ?n - 1) mod ?n" by (simp add: k_def)
    moreover have "(2 ^ 32 * ?v + ?n - 1) mod ?n < ?n" using n by simp
    ultimately show "2 ^ 32 * ?v \<le> k * ?n" "k * ?n \<le> 2 ^ 32 * ?v + ?n - 1" by linarith+
  qed
  have "k * ?n < 2 ^ 32 * ?n"
  proof -
    have "2 ^ 32 * ?v + 2 ^ 32 \<le> 2 ^ 32 * ?n" using vn by simp
    then show ?thesis using upper n by linarith
  qed
  then have k: "k < 2 ^ 32" by simp
  have "k * ?n div 2 ^ 32 = ?v"
  proof (rule div_nat_eqI)
    show "2 ^ 32 * ?v \<le> k * ?n" by (rule lower)
    show "k * ?n < 2 ^ 32 * Suc ?v" using upper n by simp
  qed
  then have "unat (fastrandn (of_nat k) n) = ?v"
    using k by (simp add: unat_fastrandn unat_of_nat_id)
  then have "fastrandn (of_nat k) n = v" by (simp only: word_unat_eq_iff)
  then show ?thesis by (rule that)
qed

subsection \<open>What the ranges mean\<close>

lemma Contains_iff: "Contains r num \<longleftrightarrow> Lo r \<le> num \<and> num \<le> Hi r"
  by (simp add: Contains_def Lo_def Hi_def)

lemma Overlap_iff:
  assumes "range_ok r" "range_ok s"
  shows "Overlap r s \<longleftrightarrow> (\<exists>num. Contains r num \<and> Contains s num)"
proof
  assume "Overlap r s"
  then have "Contains r (max (Lo r) (Lo s)) \<and> Contains s (max (Lo r) (Lo s))"
    using assms by (simp add: Overlap_def Contains_iff range_ok_def Lo_def Hi_def)
  then show "\<exists>num. Contains r num \<and> Contains s num" by blast
next
  assume "\<exists>num. Contains r num \<and> Contains s num"
  then obtain num where "Lo r \<le> num" "num \<le> Hi r" "Lo s \<le> num" "num \<le> Hi s"
    by (auto simp: Contains_iff)
  then show "Overlap r s" by (auto simp: Overlap_def Lo_def Hi_def)
qed

lemma unat_range_span: "range_ok r \<Longrightarrow> unat (Hi r - Lo r) = unat (Hi r) - unat (Lo r)"
  by (simp add: range_ok_def unat_sub)

lemma unat_Lo_add: "range_ok r \<Longrightarrow> v \<le> Hi r - Lo r \<Longrightarrow> unat (Lo r + v) = unat (Lo r) + unat v"
  using unat_u32_less [of "Hi r"]
  by (simp add: word_le_nat_alt unat_range_span unat_word_ariths range_ok_def)

lemma unat_plus_one: "(x :: u32) + 1 \<noteq> 0 \<Longrightarrow> unat (x + 1) = Suc (unat x)"
  using unatSuc [of x] by (simp add: add.commute)

lemma PickOne_eq: "PickOne r rnd = Lo r + fastrandn rnd (Hi r - Lo r + 1)"
  by (simp add: PickOne_def Let_def Lo_def Hi_def)

lemma PickOne_Contains:
  assumes "range_ok r"
  shows "Contains r (PickOne r rnd)"
proof -
  let ?v = "fastrandn rnd (Hi r - Lo r + 1)"
  have "?v \<le> Hi r - Lo r"
  proof (cases "Hi r - Lo r + 1 = 0")
    case False
    then show ?thesis using fastrandn_less [OF False, of rnd]
      by (simp add: word_less_nat_alt word_le_nat_alt unat_plus_one)
  qed simp
  then have "unat (Lo r + ?v) = unat (Lo r) + unat ?v" "unat ?v \<le> unat (Hi r) - unat (Lo r)"
    using assms unat_Lo_add [OF assms, of ?v] unat_range_span [OF assms] by (simp_all add: word_le_nat_alt)
  then show ?thesis using assms by (simp add: PickOne_eq Contains_iff word_le_nat_alt range_ok_def)
qed

lemma PickOne_onto:
  assumes r: "range_ok r" and full: "Hi r - Lo r + 1 \<noteq> 0" and num: "Contains r num"
  shows "\<exists>rnd. PickOne r rnd = num"
proof -
  have "num - Lo r \<le> Hi r - Lo r"
    using num r by (auto simp: Contains_iff word_le_nat_alt unat_sub range_ok_def)
  then have "num - Lo r < Hi r - Lo r + 1"
    using full by (simp add: word_less_nat_alt word_le_nat_alt unat_plus_one)
  then obtain rnd where "fastrandn rnd (Hi r - Lo r + 1) = num - Lo r" by (rule fastrandn_onto)
  then have "PickOne r rnd = num" by (simp add: PickOne_eq)
  then show ?thesis by blast
qed

lemma dash_not_digit: "CHR ''-'' \<notin> set (decimal n)"
proof
  assume "CHR ''-'' \<in> set (decimal n)"
  from decimal_digits [OF this] obtain d where "d < 10" "CHR ''-'' = digit_char d" by blast
  then have "digit_val (CHR ''-'') = Some d" by simp
  then show False by (simp add: digit_val_def)
qed

text \<open>C33: A header range survives printing and parsing: \<open>FromString\<close> reads back what \<open>ToString\<close> prints.\<close>

theorem UintRange_roundtrip:
  assumes "Lo r \<le> Hi r"
  shows "FromString (ToString r) = Inr r"
proof -
  have lo: "ParseUint (decimal (unat (Lo r))) 32 = Inr (unat (Lo r))"
    and hi: "ParseUint (decimal (unat (Hi r))) 32 = Inr (unat (Hi r))"
    by (simp_all only: ParseUint_decimal unat_u32_less)
  show ?thesis
  proof (cases "Lo r = Hi r")
    case True
    then have "ToString r = decimal (unat (Lo r))" by (simp add: ToString_def Lo_def Hi_def)
    then show ?thesis using True lo range_of_halves [of r]
      by (simp add: FromString_def split_at_none dash_not_digit)
  next
    case False
    then have "ToString r = decimal (unat (Lo r)) @ CHR ''-'' # decimal (unat (Hi r))"
      by (simp add: ToString_def Lo_def Hi_def)
    then have "split_at (CHR ''-'') (ToString r) = [decimal (unat (Lo r)), decimal (unat (Hi r))]"
      by (simp add: split_at_append split_at_none dash_not_digit)
    then show ?thesis using assms lo hi by (simp add: FromString_def word_le_nat_alt)
  qed
qed

theorem UintRange_roundtrip_witness:
  "FromString (ToString (FromUint32 5 70000)) = Inr (FromUint32 5 70000)"
  by (rule UintRange_roundtrip) simp

lemma FromString_ok: "FromString s = Inr r \<Longrightarrow> range_ok r"
proof -
  assume "FromString s = Inr r"
  then have "\<exists>lo hi. lo < 2 ^ 32 \<and> hi < 2 ^ 32 \<and> lo \<le> hi \<and> r = FromUint32 (of_nat lo) (of_nat hi)"
    unfolding FromString_def Let_def
    by (fastforce split: if_splits sum.splits dest: ParseUint_bound simp: not_less)
  then obtain lo hi where b: "lo < 2 ^ 32" "hi < 2 ^ 32" and le: "lo \<le> hi"
    and r: "r = FromUint32 (of_nat lo) (of_nat hi)" by blast
  then show ?thesis by (simp add: range_ok_def word_le_nat_alt unat_of_nat_id)
qed

text \<open>C34: The header that a sender picks lies in its range, and, unless the range is the whole 32-bit
  space, every header of the range can be picked.\<close>

theorem PickOne_covers_range:
  assumes "Lo r \<le> Hi r" "\<not> (Lo r = 0 \<and> Hi r = - 1)"
  shows "range (PickOne r) = {num. Contains r num}"
proof -
  have ok: "range_ok r" using assms(1) by (simp add: range_ok_def)
  have "Hi r - Lo r + 1 \<noteq> 0"
  proof
    assume "Hi r - Lo r + 1 = 0"
    then have "Hi r = Lo r - 1" by (simp add: algebra_simps eq_neg_iff_add_eq_0)
    moreover have "0 < unat (Lo r)" if "Lo r \<noteq> 0" using that by (simp add: unat_gt_0)
    ultimately show False using assms by (cases "Lo r = 0") (auto simp: word_le_nat_alt unat_minus_one)
  qed
  then have onto: "\<exists>rnd. PickOne r rnd = num" if "Contains r num" for num
    using PickOne_onto [OF ok] that by blast
  show ?thesis
  proof (intro equalityI subsetI)
    show "num \<in> {num. Contains r num}" if "num \<in> range (PickOne r)" for num
      using that PickOne_Contains [OF ok] by auto
    show "num \<in> range (PickOne r)" if "num \<in> {num. Contains r num}" for num
      using that onto [of num] by (metis mem_Collect_eq rangeI)
  qed
qed

theorem PickOne_covers_range_witness:
  "range (PickOne (FromUint32 5 70000)) = {num. Contains (FromUint32 5 70000) num}"
  by (rule PickOne_covers_range) simp_all

text \<open>Property: On the whole 32-bit range the size of the range wraps to zero, and the header picked is always 0.\<close>

theorem PickOne_full_range_is_constant: "PickOne (FromUint32 0 (- 1)) rnd = 0"
  by (simp add: PickOne_eq)

end
