(* ===== verification/Messages.thy ===== *)
theory Messages
  imports NoiseHelpers
begin

text \<open>
  The wire messages of src/device/noise-protocol.go, with the little-endian encoding that
  \<open>binary.Write\<close> and \<open>binary.Read\<close> give to their structs: the fields in order, an array as its
  bytes. \<open>binary.Read\<close> fails on an input shorter than the struct and ignores what follows it.
\<close>

definition MessageUnknownType :: u32 where "MessageUnknownType = 0"
definition MessageInitiationType :: u32 where "MessageInitiationType = 1"
definition MessageResponseType :: u32 where "MessageResponseType = 2"
definition MessageCookieReplyType :: u32 where "MessageCookieReplyType = 3"
definition MessageTransportType :: u32 where "MessageTransportType = 4"

lemmas message_types =
  MessageUnknownType_def MessageInitiationType_def MessageResponseType_def
  MessageCookieReplyType_def MessageTransportType_def

definition MessageInitiationSize :: nat where "MessageInitiationSize = 148"
definition MessageResponseSize :: nat where "MessageResponseSize = 92"
definition MessageCookieReplySize :: nat where "MessageCookieReplySize = 64"
definition MessageTransportHeaderSize :: nat where "MessageTransportHeaderSize = 16"
definition MessageTransportSize :: nat where "MessageTransportSize = MessageTransportHeaderSize + 16"
definition MessageKeepaliveSize :: nat where "MessageKeepaliveSize = MessageTransportSize"

definition MessageTransportOffsetReceiver :: nat where "MessageTransportOffsetReceiver = 4"
definition MessageTransportOffsetCounter :: nat where "MessageTransportOffsetCounter = 8"
definition MessageTransportOffsetContent :: nat where "MessageTransportOffsetContent = 16"

lemmas message_sizes =
  MessageInitiationSize_def MessageResponseSize_def MessageCookieReplySize_def
  MessageTransportHeaderSize_def MessageTransportSize_def MessageKeepaliveSize_def

lemmas transport_offsets =
  MessageTransportOffsetReceiver_def MessageTransportOffsetCounter_def
  MessageTransportOffsetContent_def

subsection \<open>The structs\<close>

record MessageInitiation =
  mi_Type :: u32
  mi_Sender :: u32
  mi_Ephemeral :: bytes
  mi_Static :: bytes
  mi_Timestamp :: bytes
  mi_MAC1 :: bytes
  mi_MAC2 :: bytes

record MessageResponse =
  mr_Type :: u32
  mr_Sender :: u32
  mr_Receiver :: u32
  mr_Ephemeral :: bytes
  mr_Empty :: bytes
  mr_MAC1 :: bytes
  mr_MAC2 :: bytes

record MessageCookieReply =
  mc_Type :: u32
  mc_Receiver :: u32
  mc_Nonce :: bytes
  mc_Cookie :: bytes

text \<open>The lengths of the arrays, which Go's types fix.\<close>

definition initiation_ok :: "MessageInitiation \<Rightarrow> bool" where
  "initiation_ok m \<longleftrightarrow>
     length (mi_Ephemeral m) = 32 \<and> length (mi_Static m) = 48 \<and> length (mi_Timestamp m) = 28 \<and>
     length (mi_MAC1 m) = 16 \<and> length (mi_MAC2 m) = 16"

definition response_ok :: "MessageResponse \<Rightarrow> bool" where
  "response_ok m \<longleftrightarrow>
     length (mr_Ephemeral m) = 32 \<and> length (mr_Empty m) = 16 \<and>
     length (mr_MAC1 m) = 16 \<and> length (mr_MAC2 m) = 16"

definition cookie_reply_ok :: "MessageCookieReply \<Rightarrow> bool" where
  "cookie_reply_ok m \<longleftrightarrow> length (mc_Nonce m) = 24 \<and> length (mc_Cookie m) = 32"

subsection \<open>Their encodings\<close>

definition write_initiation :: "MessageInitiation \<Rightarrow> bytes" where
  "write_initiation m =
     put_le32 (mi_Type m) @ put_le32 (mi_Sender m) @ mi_Ephemeral m @ mi_Static m @
     mi_Timestamp m @ mi_MAC1 m @ mi_MAC2 m"

definition read_initiation :: "bytes \<Rightarrow> MessageInitiation option" where
  "read_initiation b =
     (if length b < MessageInitiationSize then None
      else Some \<lparr>mi_Type = get_le32 (slice 0 4 b), mi_Sender = get_le32 (slice 4 8 b),
                 mi_Ephemeral = slice 8 40 b, mi_Static = slice 40 88 b,
                 mi_Timestamp = slice 88 116 b, mi_MAC1 = slice 116 132 b,
                 mi_MAC2 = slice 132 148 b\<rparr>)"

definition write_response :: "MessageResponse \<Rightarrow> bytes" where
  "write_response m =
     put_le32 (mr_Type m) @ put_le32 (mr_Sender m) @ put_le32 (mr_Receiver m) @ mr_Ephemeral m @
     mr_Empty m @ mr_MAC1 m @ mr_MAC2 m"

definition read_response :: "bytes \<Rightarrow> MessageResponse option" where
  "read_response b =
     (if length b < MessageResponseSize then None
      else Some \<lparr>mr_Type = get_le32 (slice 0 4 b), mr_Sender = get_le32 (slice 4 8 b),
                 mr_Receiver = get_le32 (slice 8 12 b), mr_Ephemeral = slice 12 44 b,
                 mr_Empty = slice 44 60 b, mr_MAC1 = slice 60 76 b, mr_MAC2 = slice 76 92 b\<rparr>)"

definition write_cookie_reply :: "MessageCookieReply \<Rightarrow> bytes" where
  "write_cookie_reply m =
     put_le32 (mc_Type m) @ put_le32 (mc_Receiver m) @ mc_Nonce m @ mc_Cookie m"

definition read_cookie_reply :: "bytes \<Rightarrow> MessageCookieReply option" where
  "read_cookie_reply b =
     (if length b < MessageCookieReplySize then None
      else Some \<lparr>mc_Type = get_le32 (slice 0 4 b), mc_Receiver = get_le32 (slice 4 8 b),
                 mc_Nonce = slice 8 32 b, mc_Cookie = slice 32 64 b\<rparr>)"

lemma slice_head: "j = length xs \<Longrightarrow> slice 0 j (xs @ ys) = xs"
  by (simp add: slice_def)

lemmas slice_fields = slice_append_right slice_head slice_full

lemma length_writes:
  "initiation_ok i \<Longrightarrow> length (write_initiation i) = MessageInitiationSize"
  "response_ok r \<Longrightarrow> length (write_response r) = MessageResponseSize"
  "cookie_reply_ok c \<Longrightarrow> length (write_cookie_reply c) = MessageCookieReplySize"
  by (simp_all add: write_initiation_def initiation_ok_def write_response_def response_ok_def
      write_cookie_reply_def cookie_reply_ok_def message_sizes)

lemma read_write_initiation: "initiation_ok i \<Longrightarrow> read_initiation (write_initiation i @ rest) = Some i"
  by (cases i) (simp add: read_initiation_def write_initiation_def initiation_ok_def message_sizes slice_fields)

lemma read_write_response: "response_ok r \<Longrightarrow> read_response (write_response r @ rest) = Some r"
  by (cases r) (simp add: read_response_def write_response_def response_ok_def message_sizes slice_fields)

lemma read_write_cookie_reply: "cookie_reply_ok c \<Longrightarrow> read_cookie_reply (write_cookie_reply c @ rest) = Some c"
  by (cases c) (simp add: read_cookie_reply_def write_cookie_reply_def cookie_reply_ok_def message_sizes slice_fields)

end
