(* ===== verification/Cookie.thy ===== *)
theory Cookie
  imports Messages
begin

text \<open>
  The cookie mechanism of src/device/cookie.go: the generator that stamps MAC1 and MAC2 on
  outgoing handshake messages and the checker that verifies them and hands out cookies. The clock
  and the random bytes are arguments; a slice expression out of range panics, which is \<open>None\<close>.
\<close>

definition CookieRefreshTime :: int where
  "CookieRefreshTime = second * 120"

definition WGLabelMAC1 :: bytes where
  "WGLabelMAC1 = map (of_nat \<circ> of_char) ''mac1----''"

definition WGLabelCookie :: bytes where
  "WGLabelCookie = map (of_nat \<circ> of_char) ''cookie--''"

record CookieChecker =
  cc_mac1_key :: bytes
  cc_secret :: bytes
  cc_secretSet :: int
  cc_encryptionKey :: bytes

record CookieGenerator =
  cg_mac1_key :: bytes
  cg_cookie :: bytes
  cg_cookieSet :: int
  cg_hasLastMAC1 :: bool
  cg_lastMAC1 :: bytes
  cg_encryptionKey :: bytes

definition zero_checker :: CookieChecker where
  "zero_checker = \<lparr>cc_mac1_key = replicate 32 0, cc_secret = replicate 32 0,
     cc_secretSet = zero_time, cc_encryptionKey = replicate 32 0\<rparr>"

definition zero_generator :: CookieGenerator where
  "zero_generator = \<lparr>cg_mac1_key = replicate 32 0, cg_cookie = replicate 16 0,
     cg_cookieSet = zero_time, cg_hasLastMAC1 = False, cg_lastMAC1 = replicate 16 0,
     cg_encryptionKey = replicate 32 0\<rparr>"

subsection \<open>The checker\<close>

definition checker_Init :: "Crypto \<Rightarrow> CookieChecker \<Rightarrow> bytes \<Rightarrow> CookieChecker" where
  "checker_Init C st pk =
     st\<lparr>cc_mac1_key := blake2s_256 C (WGLabelMAC1 @ pk),
        cc_encryptionKey := blake2s_256 C (WGLabelCookie @ pk),
        cc_secretSet := zero_time\<rparr>"

definition CheckMAC1 :: "Crypto \<Rightarrow> CookieChecker \<Rightarrow> bytes \<Rightarrow> bool option" where
  "CheckMAC1 C st msg =
     (if length msg < 32 then None
      else
      let smac2 = length msg - 16;
          smac1 = smac2 - 16;
          mac1 = blake2s_128 C (cc_mac1_key st) (take smac1 msg)
      in Some (mac1 = slice smac1 smac2 msg))"

definition CheckMAC2 :: "Crypto \<Rightarrow> int \<Rightarrow> CookieChecker \<Rightarrow> bytes \<Rightarrow> bytes \<Rightarrow> bool option" where
  "CheckMAC2 C now st msg src =
     (if time_sub now (cc_secretSet st) > CookieRefreshTime then Some False
      else
      let cookie = blake2s_128 C (cc_secret st) src
      in if length msg < 16 then None
         else let smac2 = length msg - 16;
                  mac2 = blake2s_128 C cookie (take smac2 msg)
              in Some (mac2 = drop smac2 msg))"

datatype cookie_error = CookieRand | CookiePanic

definition CreateReply ::
  "Crypto \<Rightarrow> int \<Rightarrow> bytes option \<Rightarrow> bytes option \<Rightarrow> CookieChecker \<Rightarrow> bytes \<Rightarrow> u32 \<Rightarrow> bytes \<Rightarrow> u32
     \<Rightarrow> CookieChecker \<times> (cookie_error + MessageCookieReply)"
where
  "CreateReply C now rnd_secret rnd_nonce st msg recv src msgType =
     (let (st, ok) =
        (if time_sub now (cc_secretSet st) > CookieRefreshTime then
           case rnd_secret of
             None \<Rightarrow> (st, False)
           | Some r \<Rightarrow> (st\<lparr>cc_secret := fill 32 r, cc_secretSet := now\<rparr>, True)
         else (st, True))
      in if \<not> ok then (st, Inl CookieRand)
         else
         let cookie = blake2s_128 C (cc_secret st) src
         in case rnd_nonce of
              None \<Rightarrow> (st, Inl CookieRand)
            | Some r \<Rightarrow>
                if length msg < 32 then (st, Inl CookiePanic)
                else
                let smac2 = length msg - 16;
                    smac1 = smac2 - 16;
                    nonce = fill 24 r
                in (st, Inr \<lparr>mc_Type = msgType, mc_Receiver = recv, mc_Nonce = nonce,
                             mc_Cookie = xaead_seal C (cc_encryptionKey st) nonce cookie
                               (slice smac1 smac2 msg)\<rparr>))"

subsection \<open>The generator\<close>

definition generator_Init :: "Crypto \<Rightarrow> CookieGenerator \<Rightarrow> bytes \<Rightarrow> CookieGenerator" where
  "generator_Init C st pk =
     st\<lparr>cg_mac1_key := blake2s_256 C (WGLabelMAC1 @ pk),
        cg_encryptionKey := blake2s_256 C (WGLabelCookie @ pk),
        cg_cookieSet := zero_time\<rparr>"

definition ConsumeReply ::
  "Crypto \<Rightarrow> int \<Rightarrow> CookieGenerator \<Rightarrow> MessageCookieReply \<Rightarrow> CookieGenerator \<times> bool"
where
  "ConsumeReply C now st msg =
     (if \<not> cg_hasLastMAC1 st then (st, False)
      else
      case xaead_open C (cg_encryptionKey st) (mc_Nonce msg) (mc_Cookie msg) (cg_lastMAC1 st) of
        None \<Rightarrow> (st, False)
      | Some cookie \<Rightarrow> (st\<lparr>cg_cookieSet := now, cg_cookie := copy_at 0 cookie (replicate 16 0)\<rparr>, True))"

definition AddMacs ::
  "Crypto \<Rightarrow> int \<Rightarrow> CookieGenerator \<Rightarrow> bytes \<Rightarrow> (CookieGenerator \<times> bytes) option"
where
  "AddMacs C now st msg =
     (if length msg < 32 then None
      else
      let smac2 = length msg - 16;
          smac1 = smac2 - 16;
          mac1 = blake2s_128 C (cg_mac1_key st) (take smac1 msg);
          msg = copy_at smac1 mac1 msg;
          st = st\<lparr>cg_lastMAC1 := mac1, cg_hasLastMAC1 := True\<rparr>
      in if time_sub now (cg_cookieSet st) > CookieRefreshTime then Some (st, msg)
         else let mac2 = blake2s_128 C (cg_cookie st) (take smac2 msg)
              in Some (st, copy_at smac2 mac2 msg))"

subsection \<open>Stamping and checking\<close>

text \<open>A message with its two MAC fields at the end.\<close>

lemma AddMacs_parts:
  fixes body :: bytes and st :: CookieGenerator
  assumes C: "crypto_ok C" and b: "length m1 = 16" "length m2 = 16"
  defines "mac1 \<equiv> blake2s_128 C (cg_mac1_key st) body"
  shows "AddMacs C now st (body @ m1 @ m2) =
    Some (st\<lparr>cg_lastMAC1 := mac1, cg_hasLastMAC1 := True\<rparr>,
      body @ mac1 @ (if time_sub now (cg_cookieSet st) > CookieRefreshTime then m2
                     else blake2s_128 C (cg_cookie st) (body @ mac1)))"
proof -
  have l: "length mac1 = 16" using C by (simp add: mac1_def crypto_laws)
  have c1: "copy_at (length body) mac1 (body @ m1 @ m2) = body @ mac1 @ m2"
    using l b by (simp add: copy_at_fits)
  have c2: "copy_at (16 + length body) m (body @ mac1 @ m2) = body @ mac1 @ m" if "length m = 16" for m
    using l b that by (simp add: copy_at_fits)
  show ?thesis
    using b l c1 c2 C by (simp add: AddMacs_def Let_def crypto_laws flip: mac1_def)
qed

lemma CheckMAC1_parts:
  assumes "length m1 = 16" "length m2 = 16"
  shows "CheckMAC1 C st (body @ m1 @ m2) = Some (blake2s_128 C (cc_mac1_key st) body = m1)"
  using assms by (simp add: CheckMAC1_def Let_def slice_def)

lemma CheckMAC2_parts:
  assumes "length m1 = 16" "length m2 = 16"
  shows "CheckMAC2 C now st (body @ m1 @ m2) src =
    Some (time_sub now (cc_secretSet st) \<le> CookieRefreshTime \<and>
          blake2s_128 C (blake2s_128 C (cc_secret st) src) (body @ m1) = m2)"
  using assms by (auto simp: CheckMAC2_def Let_def)

lemma msg_parts:
  assumes "32 \<le> length msg"
  obtains body m1 m2 where "msg = body @ m1 @ m2" "length m1 = 16" "length m2 = 16"
proof
  let ?n = "length msg - 32"
  show "msg = take ?n msg @ take 16 (drop ?n msg) @ drop (?n + 16) msg"
    by (metis add.commute append_take_drop_id drop_drop)
  show "length (take 16 (drop ?n msg)) = 16" "length (drop (?n + 16) msg) = 16" using assms by simp_all
qed

lemma AddMacs_total:
  assumes "crypto_ok C" "32 \<le> length msg"
  obtains st' msg' where "AddMacs C now st msg = Some (st', msg')" "length msg' = length msg"
    "cg_mac1_key st' = cg_mac1_key st" "cg_encryptionKey st' = cg_encryptionKey st"
    "take (length msg - 32) msg' = take (length msg - 32) msg"
proof -
  obtain body m1 m2 where m: "msg = body @ m1 @ m2" "length m1 = 16" "length m2 = 16"
    using assms(2) by (rule msg_parts)
  show thesis
    using that [unfolded m(1), OF AddMacs_parts [OF assms(1) m(2,3)]] m assms(1) by (simp add: crypto_laws)
qed

lemma init_keys [simp]:
  "cg_mac1_key (generator_Init C g pk) = cc_mac1_key (checker_Init C c pk)"
  "cg_encryptionKey (generator_Init C g pk) = cc_encryptionKey (checker_Init C c pk)"
  by (simp_all add: generator_Init_def checker_Init_def)

definition same_identity :: "CookieChecker \<Rightarrow> CookieGenerator \<Rightarrow> bool" where
  "same_identity c g \<longleftrightarrow> cg_mac1_key g = cc_mac1_key c \<and> cg_encryptionKey g = cc_encryptionKey c"

lemma same_identity_Init: "same_identity (checker_Init C c pk) (generator_Init C g pk)"
  by (simp add: same_identity_def)

text \<open>Property: Every handshake message that a peer stamps with \<open>AddMacs\<close> under the public key of a device
  passes the device's MAC1 check, whatever the state of the cookie.\<close>

theorem AddMacs_passes_CheckMAC1:
  assumes "crypto_ok C" "same_identity c g" "32 \<le> length msg"
  shows "\<exists>g' msg'. AddMacs C now g msg = Some (g', msg') \<and> CheckMAC1 C c msg' = Some True"
proof -
  obtain body m1 m2 where m: "msg = body @ m1 @ m2" "length m1 = 16" "length m2 = 16"
    using assms(3) by (rule msg_parts)
  show ?thesis
    using assms(1,2) m
    by (simp add: AddMacs_parts CheckMAC1_parts same_identity_def crypto_laws)
qed

theorem AddMacs_passes_CheckMAC1_witness:
  "\<exists>g' msg'. AddMacs demo_crypto 5 (generator_Init demo_crypto zero_generator [7]) (replicate 40 0) = Some (g', msg') \<and>
    CheckMAC1 demo_crypto (checker_Init demo_crypto zero_checker [7]) msg' = Some True"
  by (rule AddMacs_passes_CheckMAC1) (simp_all add: demo_crypto_ok same_identity_Init)

text \<open>C20: The cookie exchange works: a checker under load answers a stamped message with a cookie
  reply, the generator accepts it, and the MAC2 of the next message it stamps while its cookie is
  fresh is accepted, from the same source, exactly as long as the checker's secret is fresh.\<close>

theorem cookie_exchange:
  assumes C: "crypto_ok C" and id: "same_identity c g" and len: "32 \<le> length msg" "32 \<le> length msg'"
    and sent: "AddMacs C t0 g msg = Some (g1, stamped)"
    and reply: "CreateReply C t1 (Some r1) (Some r2) c stamped recv src ty = (c1, Inr rep)"
    and fresh: "time_sub t3 t2 \<le> CookieRefreshTime"
  shows "\<exists>g2 g3 m. ConsumeReply C t2 g1 rep = (g2, True) \<and> AddMacs C t3 g2 msg' = Some (g3, m) \<and>
    CheckMAC1 C c1 m = Some True \<and>
    CheckMAC2 C t4 c1 m src = Some (time_sub t4 (cc_secretSet c1) \<le> CookieRefreshTime)"
proof -
  obtain body m1 m2 where m: "msg = body @ m1 @ m2" "length m1 = 16" "length m2 = 16"
    using len(1) by (rule msg_parts)
  obtain body' m1' m2' where m': "msg' = body' @ m1' @ m2'" "length m1' = 16" "length m2' = 16"
    using len(2) by (rule msg_parts)
  let ?mac1 = "blake2s_128 C (cg_mac1_key g) body"
  obtain m2s where g1: "g1 = g\<lparr>cg_lastMAC1 := ?mac1, cg_hasLastMAC1 := True\<rparr>"
    and st: "stamped = body @ ?mac1 @ m2s" "length m2s = 16"
    using sent m C by (auto simp: AddMacs_parts crypto_laws split: if_splits)
  have field: "slice (length stamped - 32) (length stamped - 16) stamped = ?mac1" "\<not> length stamped < 32"
    using st C by (simp_all add: slice_def crypto_laws)
  let ?cookie = "blake2s_128 C (cc_secret c1) src"
  have c1: "cc_mac1_key c1 = cc_mac1_key c" "cc_encryptionKey c1 = cc_encryptionKey c"
    and rep: "mc_Cookie rep = xaead_seal C (cc_encryptionKey c) (mc_Nonce rep) ?cookie ?mac1"
    using reply field by (auto simp: CreateReply_def Let_def diff_diff_left split: if_splits)
  have "ConsumeReply C t2 g1 rep = (g1\<lparr>cg_cookieSet := t2, cg_cookie := ?cookie\<rparr>, True)"
    using C id by (simp add: ConsumeReply_def g1 rep same_identity_def crypto_laws copy_at_fits)
  moreover have "same_identity c1 g1" using id c1 by (simp add: same_identity_def g1)
  ultimately show ?thesis
    using C m' fresh
    by (simp add: AddMacs_parts CheckMAC1_parts CheckMAC2_parts same_identity_def crypto_laws)
qed

lemma CreateReply_total:
  assumes "32 \<le> length msg"
  obtains c' rep where "CreateReply C now (Some r1) (Some r2) c msg recv src ty = (c', Inr rep)"
  using assms that by (fastforce simp: CreateReply_def Let_def split: prod.splits)

theorem cookie_exchange_witness:
  "\<exists>g1 stamped c1 rep g2 g3 m.
    AddMacs demo_crypto 0 (generator_Init demo_crypto zero_generator [7]) (replicate 40 0) = Some (g1, stamped) \<and>
    CreateReply demo_crypto 1 (Some [1]) (Some [2]) (checker_Init demo_crypto zero_checker [7]) stamped 9 [10] 3
      = (c1, Inr rep) \<and>
    ConsumeReply demo_crypto 2 g1 rep = (g2, True) \<and>
    AddMacs demo_crypto 3 g2 (replicate 50 0) = Some (g3, m) \<and> CheckMAC1 demo_crypto c1 m = Some True \<and>
    CheckMAC2 demo_crypto 4 c1 m [10] = Some (time_sub 4 (cc_secretSet c1) \<le> CookieRefreshTime)"
proof -
  obtain g1 stamped where s: "AddMacs demo_crypto 0 (generator_Init demo_crypto zero_generator [7]) (replicate 40 0) =
      Some (g1, stamped)" "length stamped = length (replicate 40 (0 :: byte))"
    by (rule AddMacs_total [OF demo_crypto_ok, of "replicate 40 0"]) (simp, blast)
  obtain c1 rep where r: "CreateReply demo_crypto 1 (Some [1]) (Some [2])
      (checker_Init demo_crypto zero_checker [7]) stamped 9 [10] 3 = (c1, Inr rep)"
    using s(2) by (elim CreateReply_total [rotated]) simp_all
  have "time_sub 3 2 \<le> CookieRefreshTime" by (simp add: time_sub_def CookieRefreshTime_def second_def)
  then show ?thesis
    using s r cookie_exchange [OF demo_crypto_ok same_identity_Init _ _ s(1) r, of "replicate 50 0" 3 2 4] by auto
qed

end
