(* ===== verification/Base64.thy ===== *)
theory Base64
  imports GoPrelude
begin

text \<open>
  \<open>base64.RawStdEncoding\<close> of the Go standard library: no padding. \<open>b64_decode\<close> gives the bytes that
  \<open>Decode\<close> writes before it stops, at the end of the input or at the first group with a character
  outside the alphabet; line breaks are skipped.
\<close>

definition b64_char :: "nat \<Rightarrow> byte" where
  "b64_char d =
     (if d < 26 then of_nat (65 + d) else if d < 52 then of_nat (97 + (d - 26))
      else if d < 62 then of_nat (48 + (d - 52)) else if d = 62 then 43 else 47)"

definition b64_val :: "byte \<Rightarrow> nat option" where
  "b64_val c =
     (let v = unat c
      in if 65 \<le> v \<and> v \<le> 90 then Some (v - 65)
         else if 97 \<le> v \<and> v \<le> 122 then Some (v - 97 + 26)
         else if 48 \<le> v \<and> v \<le> 57 then Some (v - 48 + 52)
         else if v = 43 then Some 62 else if v = 47 then Some 63 else None)"

fun b64_encode :: "bytes \<Rightarrow> bytes" where
  "b64_encode (a # b # c # rest) =
     (let v = unat a * 65536 + unat b * 256 + unat c
      in b64_char (v div 262144) # b64_char (v div 4096 mod 64) # b64_char (v div 64 mod 64) #
         b64_char (v mod 64) # b64_encode rest)"
| "b64_encode [a, b] =
     (let v = unat a * 1024 + unat b * 4
      in [b64_char (v div 4096), b64_char (v div 64 mod 64), b64_char (v mod 64)])"
| "b64_encode [a] = (let v = unat a * 16 in [b64_char (v div 64), b64_char (v mod 64)])"
| "b64_encode [] = []"

fun b64_groups :: "bytes \<Rightarrow> bytes" where
  "b64_groups (a # b # c # d # rest) =
     (case (b64_val a, b64_val b, b64_val c, b64_val d) of
        (Some p, Some q, Some r, Some s) \<Rightarrow>
          let v = p * 262144 + q * 4096 + r * 64 + s
          in of_nat (v div 65536) # of_nat (v div 256 mod 256) # of_nat (v mod 256) # b64_groups rest
      | _ \<Rightarrow> [])"
| "b64_groups [a, b, c] =
     (case (b64_val a, b64_val b, b64_val c) of
        (Some p, Some q, Some r) \<Rightarrow>
          let v = p * 4096 + q * 64 + r in [of_nat (v div 1024), of_nat (v div 4 mod 256)]
      | _ \<Rightarrow> [])"
| "b64_groups [a, b] =
     (case (b64_val a, b64_val b) of
        (Some p, Some q) \<Rightarrow> let v = p * 64 + q in [of_nat (v div 16)]
      | _ \<Rightarrow> [])"
| "b64_groups _ = []"

definition b64_decode :: "bytes \<Rightarrow> bytes" where
  "b64_decode src = b64_groups (filter (\<lambda>c. c \<noteq> 10 \<and> c \<noteq> 13) src)"

definition EncodedLen :: "int \<Rightarrow> int" where
  "EncodedLen n = n div 3 * 4 + (n mod 3 * 8 + 5) div 6"

definition DecodedLen :: "int \<Rightarrow> int" where
  "DecodedLen n = n div 4 * 3 + n mod 4 * 6 div 8"

lemma b64_char_cases:
  assumes "d < 64"
  shows "b64_val (b64_char d) = Some d \<and> b64_char d \<noteq> 10 \<and> b64_char d \<noteq> 13"
proof -
  have "\<forall>d \<in> set [0..<64]. b64_val (b64_char d) = Some d \<and> b64_char d \<noteq> 10 \<and> b64_char d \<noteq> 13"
    by code_simp
  then show ?thesis using assms by simp
qed

lemmas b64_val_char [simp] = b64_char_cases [THEN conjunct1]

lemma b64_char_not_break [simp]: "d < 64 \<Longrightarrow> b64_char d \<noteq> 10" "d < 64 \<Longrightarrow> b64_char d \<noteq> 13"
  using b64_char_cases by blast+

lemma of_nat_unat_byte [simp]: "of_nat (unat (b :: byte)) = b"
  by simp

lemma digits64_3: "(v :: nat) div 4096 * 4096 + v div 64 mod 64 * 64 + v mod 64 = v"
proof -
  have "v = v div 64 * 64 + v mod 64" by (rule div_mult_mod_eq [symmetric])
  moreover have "v div 64 = v div 4096 * 64 + v div 64 mod 64"
    using div_mult_mod_eq [of "v div 64" 64] by (simp add: div_mult2_eq [of v 64 64, simplified])
  ultimately show ?thesis by linarith
qed

lemma digits64_4: "(v :: nat) div 262144 * 262144 + v div 4096 mod 64 * 4096 + v div 64 mod 64 * 64 + v mod 64 = v"
proof -
  have "v div 4096 = v div 262144 * 64 + v div 4096 mod 64"
    using div_mult_mod_eq [of "v div 4096" 64] by (simp add: div_mult2_eq [of v 4096 64, simplified])
  then show ?thesis using digits64_3 [of v] by linarith
qed

lemma b64_group3:
  fixes a b c :: byte
  defines "v \<equiv> unat a * 65536 + unat b * 256 + unat c"
  shows "v div 262144 < 64" "v div 65536 = unat a" "v div 256 mod 256 = unat b" "v mod 256 = unat c"
proof -
  note less = unat_byte_less [of a] unat_byte_less [of b] unat_byte_less [of c]
  show "v div 262144 < 64" using less by (simp add: v_def less_mult_imp_div_less)
  show "v div 65536 = unat a" using less by (intro div_nat_eqI) (simp_all add: v_def)
  have "v div 256 = unat a * 256 + unat b" using less by (intro div_nat_eqI) (simp_all add: v_def)
  then show "v div 256 mod 256 = unat b" using less by simp
  have "v = unat c + 256 * (unat a * 256 + unat b)" by (simp add: v_def)
  then have "v mod 256 = unat c mod 256" by (simp only: mod_mult_self2)
  then show "v mod 256 = unat c" using less by simp
qed

lemma b64_group2:
  fixes a b :: byte
  defines "v \<equiv> unat a * 1024 + unat b * 4"
  shows "v div 4096 < 64" "v div 1024 = unat a" "v div 4 mod 256 = unat b"
proof -
  note less = unat_byte_less [of a] unat_byte_less [of b]
  show "v div 4096 < 64" using less by (simp add: v_def less_mult_imp_div_less)
  show "v div 1024 = unat a" using less by (intro div_nat_eqI) (simp_all add: v_def)
  have "v div 4 = unat a * 256 + unat b" using less by (intro div_nat_eqI) (simp_all add: v_def)
  then show "v div 4 mod 256 = unat b" using less by simp
qed

lemma b64_group1:
  fixes a :: byte
  defines "v \<equiv> unat a * 16"
  shows "v div 64 < 64" "v div 64 * 64 + v mod 64 = v" "v div 16 = unat a"
proof -
  show "v div 64 < 64" "v div 16 = unat a" using unat_byte_less [of a] by (simp_all add: v_def)
  show "v div 64 * 64 + v mod 64 = v" by (rule div_mult_mod_eq)
qed

text \<open>The three shapes of the encoding, over its digits.\<close>

lemma b64_encode_cases:
  "\<exists>p q r s. p < 64 \<and> q < 64 \<and> r < 64 \<and> s < 64 \<and>
     p * 262144 + q * 4096 + r * 64 + s = unat a * 65536 + unat b * 256 + unat c \<and>
     b64_encode (a # b # c # rest) = b64_char p # b64_char q # b64_char r # b64_char s # b64_encode rest"
  "\<exists>p q r. p < 64 \<and> q < 64 \<and> r < 64 \<and> p * 4096 + q * 64 + r = unat a * 1024 + unat b * 4 \<and>
     b64_encode [a, b] = [b64_char p, b64_char q, b64_char r]"
  "\<exists>p q. p < 64 \<and> q < 64 \<and> p * 64 + q = unat a * 16 \<and> b64_encode [a] = [b64_char p, b64_char q]"
proof -
  let ?u = "unat a * 65536 + unat b * 256 + unat c" and ?v = "unat a * 1024 + unat b * 4" and ?w = "unat a * 16"
  show "\<exists>p q r s. p < 64 \<and> q < 64 \<and> r < 64 \<and> s < 64 \<and> p * 262144 + q * 4096 + r * 64 + s = ?u \<and>
     b64_encode (a # b # c # rest) = b64_char p # b64_char q # b64_char r # b64_char s # b64_encode rest"
    by (rule exI [of _ "?u div 262144"], rule exI [of _ "?u div 4096 mod 64"],
        rule exI [of _ "?u div 64 mod 64"], rule exI [of _ "?u mod 64"])
      (simp only: b64_group3(1) digits64_4 b64_encode.simps(1) Let_def, simp)
  show "\<exists>p q r. p < 64 \<and> q < 64 \<and> r < 64 \<and> p * 4096 + q * 64 + r = ?v \<and>
     b64_encode [a, b] = [b64_char p, b64_char q, b64_char r]"
    by (rule exI [of _ "?v div 4096"], rule exI [of _ "?v div 64 mod 64"], rule exI [of _ "?v mod 64"])
      (simp only: b64_group2(1) digits64_3 b64_encode.simps(2) Let_def, simp)
  show "\<exists>p q. p < 64 \<and> q < 64 \<and> p * 64 + q = ?w \<and> b64_encode [a] = [b64_char p, b64_char q]"
    by (rule exI [of _ "?w div 64"], rule exI [of _ "?w mod 64"])
      (simp only: b64_group1(1,2) b64_encode.simps(3) Let_def, simp)
qed

lemma b64_no_breaks: "filter (\<lambda>c. c \<noteq> 10 \<and> c \<noteq> 13) (b64_encode bs) = b64_encode bs"
proof (induction bs rule: b64_encode.induct)
  case (1 a b c rest)
  then show ?case using b64_encode_cases(1) [of a b c rest] by (auto simp del: b64_encode.simps)
next
  case (2 a b)
  then show ?case using b64_encode_cases(2) [of a b] by (auto simp del: b64_encode.simps)
next
  case (3 a)
  then show ?case using b64_encode_cases(3) [of a] by (auto simp del: b64_encode.simps)
qed simp

lemma b64_groups_encode: "b64_groups (b64_encode bs) = bs"
proof (induction bs rule: b64_encode.induct)
  case (1 a b c rest)
  then show ?case using b64_encode_cases(1) [of a b c rest] b64_group3 [of a b c]
    by (auto simp: Let_def simp del: b64_encode.simps)
next
  case (2 a b)
  then show ?case using b64_encode_cases(2) [of a b] b64_group2 [of a b]
    by (auto simp: Let_def simp del: b64_encode.simps)
next
  case (3 a)
  then show ?case using b64_encode_cases(3) [of a] b64_group1 [of a]
    by (auto simp: Let_def simp del: b64_encode.simps)
qed simp

lemma b64_decode_encode: "b64_decode (b64_encode bs) = bs"
  by (simp add: b64_decode_def b64_no_breaks b64_groups_encode)

lemma EncodedLen_step: "EncodedLen (n + 3) = EncodedLen n + 4"
proof -
  have "(n + 3) div 3 = n div 3 + 1" by simp
  then show ?thesis by (simp add: EncodedLen_def)
qed

lemma length_b64_encode: "int (length (b64_encode bs)) = EncodedLen (int (length bs))"
proof (induction bs rule: b64_encode.induct)
  case (1 a b c rest)
  then show ?case using EncodedLen_step [of "int (length rest)"] by (simp add: Let_def add.commute)
qed (simp_all add: EncodedLen_def Let_def)

lemma DecodedLen_EncodedLen: "DecodedLen (EncodedLen n) = n"
proof -
  define q where "q = n div 3"
  have n: "n = q * 3 + n mod 3" by (simp add: q_def)
  consider "n mod 3 = 0" | "n mod 3 = 1" | "n mod 3 = 2" by linarith
  then show ?thesis
  proof cases
    case 1
    then have "EncodedLen n = q * 4" by (simp add: EncodedLen_def q_def)
    then show ?thesis using n 1 by (simp add: DecodedLen_def)
  next
    case 2
    then have "EncodedLen n = 2 + q * 4" by (simp add: EncodedLen_def q_def)
    then show ?thesis using n 2 by (simp add: DecodedLen_def)
  next
    case 3
    then have "EncodedLen n = 3 + q * 4" by (simp add: EncodedLen_def q_def)
    then show ?thesis using n 3 by (simp add: DecodedLen_def)
  qed
qed

end
