(* ===== verification/Obf.thy ===== *)
theory Obf
  imports GoStrings Base64
begin

text \<open>
  The obfuscation chains of src/device/obf.go and its elements (obf_*.go): the packets that a peer
  sends before a handshake initiation are built from a textual specification such as
  \<open><b 0xf6ab><r 10><t>\<close>. Lengths are Go \<open>int\<close>s, sums of them wrap at 64 bits; a slice expression or an
  index out of range panics, which is \<open>None\<close>. The clock and the random bytes of each element are
  arguments.
\<close>

subsection \<open>The elements\<close>

datatype obf =
    bytesObf bytes
  | timestampObf
  | randObf int
  | randCharObf int
  | randDigitObf int
  | dataObf
  | dataStringObf
  | dataSizeObf int

definition chars52 :: bytes where
  "chars52 = map (of_nat \<circ> of_char) ''abcdefghijklmnopqrstuvwxyzABCDEFGHIJKLMNOPQRSTUVWXYZ''"

definition digits10 :: bytes where
  "digits10 = map (of_nat \<circ> of_char) ''0123456789''"

text \<open>\<open>unicode.IsLetter\<close> and \<open>unicode.IsDigit\<close> on the code points below 256.\<close>

definition IsLetter :: "byte \<Rightarrow> bool" where
  "IsLetter b \<longleftrightarrow>
     (let v = unat b
      in (65 \<le> v \<and> v \<le> 90) \<or> (97 \<le> v \<and> v \<le> 122) \<or> v = 0xAA \<or> v = 0xB5 \<or> v = 0xBA \<or>
         (0xC0 \<le> v \<and> v \<le> 0xD6) \<or> (0xD8 \<le> v \<and> v \<le> 0xF6) \<or> 0xF8 \<le> v)"

definition IsDigit :: "byte \<Rightarrow> bool" where
  "IsDigit b \<longleftrightarrow> 48 \<le> unat b \<and> unat b \<le> 57"

fun ObfuscatedLen :: "obf \<Rightarrow> int \<Rightarrow> int" where
  "ObfuscatedLen (bytesObf data) n = int (length data)"
| "ObfuscatedLen timestampObf n = 4"
| "ObfuscatedLen (randObf l) n = l"
| "ObfuscatedLen (randCharObf l) n = l"
| "ObfuscatedLen (randDigitObf l) n = l"
| "ObfuscatedLen dataObf n = n"
| "ObfuscatedLen dataStringObf n = EncodedLen n"
| "ObfuscatedLen (dataSizeObf l) n = l"

fun DeobfuscatedLen :: "obf \<Rightarrow> int \<Rightarrow> int" where
  "DeobfuscatedLen dataObf n = n"
| "DeobfuscatedLen dataStringObf n = DecodedLen n"
| "DeobfuscatedLen _ n = 0"

text \<open>\<open>dst[:l]\<close>, which must lie in \<open>dst\<close>, overwritten by \<open>f\<close> of its bytes.\<close>

definition with_first :: "int \<Rightarrow> bytes \<Rightarrow> bytes \<Rightarrow> bytes option" where
  "with_first l b dst = (if l < 0 \<or> l > int (length dst) then None else Some (fill (nat l) b @ drop (nat l) dst))"

text \<open>The loop of \<open>dataSizeObf\<close>: the low byte of the size goes to index \<open>l - 1\<close>, and so on down.\<close>

fun put_size :: "nat \<Rightarrow> nat \<Rightarrow> bytes \<Rightarrow> bytes option" where
  "put_size 0 srcLen dst = Some dst"
| "put_size (Suc i) srcLen dst =
     (if i \<ge> length dst then None
      else put_size i (srcLen div 256) (dst[i := of_nat (srcLen mod 256)]))"

definition bytes_Obfuscate :: "bytes \<Rightarrow> bytes \<Rightarrow> bytes option" where
  "bytes_Obfuscate data dst = Some (copy_at 0 data dst)"

definition timestamp_Obfuscate :: "int \<Rightarrow> bytes \<Rightarrow> bytes option" where
  "timestamp_Obfuscate now dst =
     (if length dst < 4 then None else Some (copy_at 0 (put_be32 (of_int (now div second))) dst))"

definition rand_Obfuscate :: "int \<Rightarrow> bytes \<Rightarrow> bytes \<Rightarrow> bytes option" where
  "rand_Obfuscate l rnd dst = with_first l rnd dst"

definition randChar_Obfuscate :: "int \<Rightarrow> bytes \<Rightarrow> bytes \<Rightarrow> bytes option" where
  "randChar_Obfuscate l rnd dst = with_first l (map (\<lambda>b. chars52 ! (unat b mod 52)) (fill (nat l) rnd)) dst"

definition randDigit_Obfuscate :: "int \<Rightarrow> bytes \<Rightarrow> bytes \<Rightarrow> bytes option" where
  "randDigit_Obfuscate l rnd dst = with_first l (map (\<lambda>b. digits10 ! (unat b mod 10)) (fill (nat l) rnd)) dst"

definition data_Obfuscate :: "bytes \<Rightarrow> bytes \<Rightarrow> bytes option" where
  "data_Obfuscate dst src = Some (copy_at 0 src dst)"

definition dataString_Obfuscate :: "bytes \<Rightarrow> bytes \<Rightarrow> bytes option" where
  "dataString_Obfuscate dst src =
     (if length dst < length (b64_encode src) then None else Some (copy_at 0 (b64_encode src) dst))"

definition dataSize_Obfuscate :: "int \<Rightarrow> bytes \<Rightarrow> bytes \<Rightarrow> bytes option" where
  "dataSize_Obfuscate l dst src = put_size (nat l) (length src) dst"

definition Obfuscate :: "int \<Rightarrow> bytes \<Rightarrow> obf \<Rightarrow> bytes \<Rightarrow> bytes \<Rightarrow> bytes option" where
  "Obfuscate now rnd o' dst src =
     (case o' of
        bytesObf data \<Rightarrow> bytes_Obfuscate data dst
      | timestampObf \<Rightarrow> timestamp_Obfuscate now dst
      | randObf l \<Rightarrow> rand_Obfuscate l rnd dst
      | randCharObf l \<Rightarrow> randChar_Obfuscate l rnd dst
      | randDigitObf l \<Rightarrow> randDigit_Obfuscate l rnd dst
      | dataObf \<Rightarrow> data_Obfuscate dst src
      | dataStringObf \<Rightarrow> dataString_Obfuscate dst src
      | dataSizeObf l \<Rightarrow> dataSize_Obfuscate l dst src)"

lemmas Obfuscate_defs =
  Obfuscate_def bytes_Obfuscate_def timestamp_Obfuscate_def rand_Obfuscate_def randChar_Obfuscate_def
  randDigit_Obfuscate_def data_Obfuscate_def dataString_Obfuscate_def dataSize_Obfuscate_def

definition all_first :: "(byte \<Rightarrow> bool) \<Rightarrow> int \<Rightarrow> bytes \<Rightarrow> bool option" where
  "all_first P l src = (if l < 0 \<or> l > int (length src) then None else Some (list_all P (take (nat l) src)))"

definition bytes_Deobfuscate :: "bytes \<Rightarrow> bytes \<Rightarrow> bytes \<Rightarrow> (bytes \<times> bool) option" where
  "bytes_Deobfuscate data dst src =
     (if length src < length data then None else Some (dst, data = take (length data) src))"

definition timestamp_Deobfuscate :: "bytes \<Rightarrow> (bytes \<times> bool) option" where
  "timestamp_Deobfuscate dst = Some (dst, True)"

definition rand_Deobfuscate :: "bytes \<Rightarrow> (bytes \<times> bool) option" where
  "rand_Deobfuscate dst = Some (dst, True)"

definition randChar_Deobfuscate :: "int \<Rightarrow> bytes \<Rightarrow> bytes \<Rightarrow> (bytes \<times> bool) option" where
  "randChar_Deobfuscate l dst src = map_option (Pair dst) (all_first IsLetter l src)"

definition randDigit_Deobfuscate :: "int \<Rightarrow> bytes \<Rightarrow> bytes \<Rightarrow> (bytes \<times> bool) option" where
  "randDigit_Deobfuscate l dst src = map_option (Pair dst) (all_first IsDigit l src)"

definition data_Deobfuscate :: "bytes \<Rightarrow> bytes \<Rightarrow> (bytes \<times> bool) option" where
  "data_Deobfuscate dst src = Some (copy_at 0 src dst, True)"

definition dataString_Deobfuscate :: "bytes \<Rightarrow> bytes \<Rightarrow> (bytes \<times> bool) option" where
  "dataString_Deobfuscate dst src =
     (if length dst < length (b64_decode src) then None else Some (copy_at 0 (b64_decode src) dst, True))"

definition dataSize_Deobfuscate :: "bytes \<Rightarrow> (bytes \<times> bool) option" where
  "dataSize_Deobfuscate dst = Some (dst, True)"

definition Deobfuscate :: "obf \<Rightarrow> bytes \<Rightarrow> bytes \<Rightarrow> (bytes \<times> bool) option" where
  "Deobfuscate o' dst src =
     (case o' of
        bytesObf data \<Rightarrow> bytes_Deobfuscate data dst src
      | timestampObf \<Rightarrow> timestamp_Deobfuscate dst
      | randObf l \<Rightarrow> rand_Deobfuscate dst
      | randCharObf l \<Rightarrow> randChar_Deobfuscate l dst src
      | randDigitObf l \<Rightarrow> randDigit_Deobfuscate l dst src
      | dataObf \<Rightarrow> data_Deobfuscate dst src
      | dataStringObf \<Rightarrow> dataString_Deobfuscate dst src
      | dataSizeObf l \<Rightarrow> dataSize_Deobfuscate dst)"

lemmas Deobfuscate_defs =
  Deobfuscate_def bytes_Deobfuscate_def timestamp_Deobfuscate_def rand_Deobfuscate_def randChar_Deobfuscate_def
  randDigit_Deobfuscate_def data_Deobfuscate_def dataString_Deobfuscate_def dataSize_Deobfuscate_def

subsection \<open>Building elements\<close>

datatype build_error = EmptyArgument | OddSymbols | BadHexDigit | BadNumber | EmptyTag | UnknownTag string

definition newBytesObf :: "string \<Rightarrow> build_error + obf" where
  "newBytesObf val =
     (let val = TrimPrefix val ''0x''
      in if length val = 0 then Inl EmptyArgument
         else if length val mod 2 \<noteq> 0 then Inl OddSymbols
         else case hex_decode val of Inl _ \<Rightarrow> Inl BadHexDigit | Inr bytes \<Rightarrow> Inr (bytesObf bytes))"

definition newTimestampObf :: "string \<Rightarrow> build_error + obf" where
  "newTimestampObf val = Inr timestampObf"

definition newRandObf :: "string \<Rightarrow> build_error + obf" where
  "newRandObf val = (case Atoi val of Inl _ \<Rightarrow> Inl BadNumber | Inr l \<Rightarrow> Inr (randObf l))"

definition newRandCharObf :: "string \<Rightarrow> build_error + obf" where
  "newRandCharObf val = (case Atoi val of Inl _ \<Rightarrow> Inl BadNumber | Inr l \<Rightarrow> Inr (randCharObf l))"

definition newRandDigitsObf :: "string \<Rightarrow> build_error + obf" where
  "newRandDigitsObf val = (case Atoi val of Inl _ \<Rightarrow> Inl BadNumber | Inr l \<Rightarrow> Inr (randDigitObf l))"

definition newDataObf :: "string \<Rightarrow> build_error + obf" where
  "newDataObf val = Inr dataObf"

definition newDataStringObf :: "string \<Rightarrow> build_error + obf" where
  "newDataStringObf val = Inr dataStringObf"

definition newDataSizeObf :: "string \<Rightarrow> build_error + obf" where
  "newDataSizeObf val = (case Atoi val of Inl _ \<Rightarrow> Inl BadNumber | Inr l \<Rightarrow> Inr (dataSizeObf l))"

definition obfBuilders :: "string \<Rightarrow> (string \<Rightarrow> build_error + obf) option" where
  "obfBuilders key =
     (if key = ''b'' then Some newBytesObf
      else if key = ''t'' then Some newTimestampObf
      else if key = ''r'' then Some newRandObf
      else if key = ''rc'' then Some newRandCharObf
      else if key = ''rd'' then Some newRandDigitsObf
      else if key = ''d'' then Some newDataObf
      else if key = ''ds'' then Some newDataStringObf
      else if key = ''dz'' then Some newDataSizeObf
      else None)"

subsection \<open>Chains\<close>

record obfChain =
  Spec :: string
  obfs :: "obf list"

datatype chain_error = MissingEnclosing | TagErrors "build_error list"

text \<open>One tag, between its brackets.\<close>

definition build_tag :: "string \<Rightarrow> build_error + obf" where
  "build_tag tag =
     (let parts = Fields tag
      in case parts of
           [] \<Rightarrow> Inl EmptyTag
         | key # rest \<Rightarrow>
             (case obfBuilders key of
                None \<Rightarrow> Inl (UnknownTag key)
              | Some builder \<Rightarrow> builder (case rest of [] \<Rightarrow> '''' | val # _ \<Rightarrow> val)))"

function parse_tags :: "string \<Rightarrow> obf list \<Rightarrow> build_error list \<Rightarrow> chain_error + (obf list \<times> build_error list)" where
  "parse_tags remaining os errs =
     (case cut_at (CHR ''<'') remaining of
        None \<Rightarrow> Inr (os, errs)
      | Some (_, after) \<Rightarrow>
          (case cut_at (CHR ''>'') after of
             None \<Rightarrow> Inl MissingEnclosing
           | Some (tag, rest) \<Rightarrow>
               (case build_tag tag of
                  Inl e \<Rightarrow> parse_tags rest os (errs @ [e])
                | Inr b \<Rightarrow> parse_tags rest (os @ [b]) errs)))"
  by auto
termination
  by (relation "measure (\<lambda>(remaining, _). length remaining)") (auto dest!: cut_at_length)

declare parse_tags.simps [simp del]

definition newObfChain :: "string \<Rightarrow> chain_error + obfChain option" where
  "newObfChain spec =
     bindE (parse_tags spec [] []) (\<lambda>(os, errs).
       if errs \<noteq> [] then Inl (TagErrors errs)
       else if os = [] then Inr None
       else Inr (Some \<lparr>Spec = spec, obfs = os\<rparr>))"

definition chain_ObfuscatedLen :: "obfChain \<Rightarrow> int \<Rightarrow> int" where
  "chain_ObfuscatedLen c n = fold (\<lambda>ob total. wrap64 (total + ObfuscatedLen ob n)) (obfs c) 0"

definition chain_DeobfuscatedLen :: "obfChain \<Rightarrow> int \<Rightarrow> int" where
  "chain_DeobfuscatedLen c n =
     (let dynamicLen = wrap64 (n - chain_ObfuscatedLen c 0)
      in fold (\<lambda>ob total. wrap64 (total + DeobfuscatedLen ob dynamicLen)) (obfs c) 0)"

text \<open>\<open>dst[i:i+l]\<close> handed to \<open>f\<close>, which writes in place.\<close>

definition sub_slice :: "nat \<Rightarrow> int \<Rightarrow> bytes \<Rightarrow> bytes option" where
  "sub_slice i l b = (if l < 0 \<or> int i + l > int (length b) then None else Some (slice i (i + nat l) b))"

fun obfuscate_loop :: "int \<Rightarrow> bytes list \<Rightarrow> obf list \<Rightarrow> nat \<Rightarrow> bytes \<Rightarrow> bytes \<Rightarrow> bytes option" where
  "obfuscate_loop now rnds [] written dst src = Some dst"
| "obfuscate_loop now rnds (ob # os) written dst src =
     (let obfLen = ObfuscatedLen ob (int (length src))
      in Option.bind (sub_slice written obfLen dst) (\<lambda>part.
         Option.bind (Obfuscate now (hd (rnds @ [[]])) ob part src) (\<lambda>part'.
         obfuscate_loop now (tl rnds) os (written + nat obfLen) (copy_at written part' dst) src)))"

definition chain_Obfuscate :: "int \<Rightarrow> bytes list \<Rightarrow> obfChain \<Rightarrow> bytes \<Rightarrow> bytes \<Rightarrow> bytes option" where
  "chain_Obfuscate now rnds c dst src = obfuscate_loop now rnds (obfs c) 0 dst src"

fun deobfuscate_loop :: "int \<Rightarrow> obf list \<Rightarrow> nat \<Rightarrow> nat \<Rightarrow> bytes \<Rightarrow> bytes \<Rightarrow> (bytes \<times> bool) option" where
  "deobfuscate_loop dynamicLen [] written rd dst src = Some (dst, True)"
| "deobfuscate_loop dynamicLen (ob # os) written rd dst src =
     (let deobfLen = DeobfuscatedLen ob dynamicLen;
          obfLen = ObfuscatedLen ob deobfLen
      in Option.bind (sub_slice written deobfLen dst) (\<lambda>part.
         Option.bind (sub_slice rd obfLen src) (\<lambda>piece.
         Option.bind (Deobfuscate ob part piece) (\<lambda>(part', ok).
         if \<not> ok then Some (copy_at written part' dst, False)
         else deobfuscate_loop dynamicLen os (written + nat deobfLen) (rd + nat obfLen)
                (copy_at written part' dst) src))))"

definition chain_Deobfuscate :: "obfChain \<Rightarrow> bytes \<Rightarrow> bytes \<Rightarrow> (bytes \<times> bool) option" where
  "chain_Deobfuscate c dst src =
     deobfuscate_loop (wrap64 (int (length src) - chain_ObfuscatedLen c 0)) (obfs c) 0 0 dst src"

subsection \<open>What a chain writes\<close>

definition obf_ok :: "obf \<Rightarrow> bool" where
  "obf_ok ob \<longleftrightarrow> (case ob of randObf l \<Rightarrow> 0 \<le> l | randCharObf l \<Rightarrow> 0 \<le> l | randDigitObf l \<Rightarrow> 0 \<le> l
                 | dataSizeObf l \<Rightarrow> 0 \<le> l | _ \<Rightarrow> True)"

definition is_data :: "obf \<Rightarrow> bool" where
  "is_data ob \<longleftrightarrow> ob = dataObf \<or> ob = dataStringObf"

lemma EncodedLen_nonneg: "0 \<le> n \<Longrightarrow> 0 \<le> EncodedLen n"
  by (simp add: EncodedLen_def)

lemma ObfuscatedLen_nonneg: "obf_ok ob \<Longrightarrow> 0 \<le> n \<Longrightarrow> 0 \<le> ObfuscatedLen ob n"
  by (cases ob) (simp_all add: obf_ok_def EncodedLen_nonneg)

lemma put_size_total: "l \<le> length dst \<Longrightarrow> \<exists>d. put_size l n dst = Some d \<and> length d = length dst"
proof (induction l arbitrary: n dst)
  case (Suc l)
  then show ?case using Suc.IH [of "dst[l := of_nat (n mod 256)]" "n div 256"] by simp
qed simp

lemma chars52_letters: "n < 52 \<Longrightarrow> IsLetter (chars52 ! n)"
proof -
  assume "n < 52"
  moreover have "list_all IsLetter chars52" "length chars52 = 52" by code_simp+
  ultimately show ?thesis by (simp add: list_all_length)
qed

lemma digits10_digits: "n < 10 \<Longrightarrow> IsDigit (digits10 ! n)"
proof -
  assume "n < 10"
  moreover have "list_all IsDigit digits10" "length digits10 = 10" by code_simp+
  ultimately show ?thesis by (simp add: list_all_length)
qed

text \<open>
  The piece \<open>p\<close> that an element writes: it has the announced length, and reading it back at the
  dynamic length \<open>n\<close> succeeds and gives the payload.
\<close>

definition payload :: "obf \<Rightarrow> bytes \<Rightarrow> bytes" where
  "payload ob src = (if is_data ob then src else [])"

lemma Obfuscate_piece:
  assumes ok: "obf_ok ob" and len: "int (length dst) = ObfuscatedLen ob (int (length src))"
  obtains p where "Obfuscate now rnd ob dst src = Some p" "length p = length dst"
    "\<And>d. length d = length (payload ob src) \<Longrightarrow> Deobfuscate ob d p = Some (payload ob src, True)"
proof (cases ob)
  case (dataSizeObf l)
  then obtain p where "put_size (nat l) (length src) dst = Some p" "length p = length dst"
    using put_size_total [of "nat l" dst "length src"] len ok by (auto simp: obf_ok_def)
  then show ?thesis
    using dataSizeObf by (intro that [of p]) (simp_all add: Obfuscate_defs Deobfuscate_defs payload_def is_data_def)
next
  case (randCharObf l)
  let ?p = "map (\<lambda>b. chars52 ! (unat b mod 52)) (fill (nat l) rnd)"
  have "length ?p = length dst" "nat l = length dst" "int (length dst) = l"
    using randCharObf len ok by (simp_all add: obf_ok_def)
  moreover have "list_all IsLetter ?p" by (simp add: list_all_iff chars52_letters)
  ultimately show ?thesis using randCharObf
    by (intro that [of ?p]) (simp_all add: Obfuscate_defs Deobfuscate_defs with_first_def all_first_def
      payload_def is_data_def)
next
  case (randDigitObf l)
  let ?p = "map (\<lambda>b. digits10 ! (unat b mod 10)) (fill (nat l) rnd)"
  have "length ?p = length dst" "nat l = length dst" "int (length dst) = l"
    using randDigitObf len ok by (simp_all add: obf_ok_def)
  moreover have "list_all IsDigit ?p" by (simp add: list_all_iff digits10_digits)
  ultimately show ?thesis using randDigitObf
    by (intro that [of ?p]) (simp_all add: Obfuscate_defs Deobfuscate_defs with_first_def all_first_def
      payload_def is_data_def)
next
  case dataStringObf
  then have "length dst = length (b64_encode src)" using len by (simp flip: length_b64_encode)
  then show ?thesis using dataStringObf
    by (intro that [of "b64_encode src"]) (simp_all add: Obfuscate_defs Deobfuscate_defs copy_at_fits
      payload_def is_data_def b64_decode_encode)
qed (use ok len that in \<open>auto simp: Obfuscate_defs Deobfuscate_defs with_first_def payload_def is_data_def
       copy_at_fits obf_ok_def\<close>)

lemma copy_mid: "length p = length m \<Longrightarrow> copy_at (length a) p (a @ m @ b) = a @ p @ b"
  by (simp add: copy_at_fits)

lemma sub_slice_mid: "int (length m) = l \<Longrightarrow> sub_slice (length a) l (a @ m @ b) = Some m"
  by (auto simp: sub_slice_def slice_def)

fun obf_total :: "obf list \<Rightarrow> int \<Rightarrow> int" where
  "obf_total [] n = 0"
| "obf_total (ob # os) n = ObfuscatedLen ob n + obf_total os n"

lemma obf_total_nonneg: "list_all obf_ok os \<Longrightarrow> 0 \<le> n \<Longrightarrow> 0 \<le> obf_total os n"
  by (induction os) (simp_all add: ObfuscatedLen_nonneg)

text \<open>The pieces of a chain, in order, each with the property of \<open>Obfuscate_piece\<close>.\<close>

definition pieces_ok :: "obf list \<Rightarrow> bytes list \<Rightarrow> bytes \<Rightarrow> bool" where
  "pieces_ok os ps src \<longleftrightarrow>
     list_all2 (\<lambda>ob p. int (length p) = ObfuscatedLen ob (int (length src)) \<and>
       (\<forall>d. length d = length (payload ob src) \<longrightarrow> Deobfuscate ob d p = Some (payload ob src, True))) os ps"

lemma obfuscate_loop_pieces:
  assumes "list_all obf_ok os" "int (length m) = obf_total os (int (length src))"
  shows "\<exists>ps. obfuscate_loop now rnds os (length a) (a @ m @ b) src = Some (a @ concat ps @ b) \<and> pieces_ok os ps src"
  using assms
proof (induction os arbitrary: rnds a m)
  case Nil
  then show ?case by (simp add: pieces_ok_def)
next
  case (Cons ob os)
  let ?n = "int (length src)"
  have nn: "0 \<le> ObfuscatedLen ob ?n" "0 \<le> obf_total os ?n"
    using Cons.prems by (simp_all add: ObfuscatedLen_nonneg obf_total_nonneg)
  define m1 where "m1 = take (nat (ObfuscatedLen ob ?n)) m"
  define m2 where "m2 = drop (nat (ObfuscatedLen ob ?n)) m"
  have m: "m = m1 @ m2" "int (length m1) = ObfuscatedLen ob ?n" "int (length m2) = obf_total os ?n"
    using Cons.prems nn by (auto simp: m1_def m2_def)
  have "obf_ok ob" using Cons.prems(1) by simp
  then obtain p where p: "Obfuscate now (hd (rnds @ [[]])) ob m1 src = Some p" "length p = length m1"
    "\<And>d. length d = length (payload ob src) \<Longrightarrow> Deobfuscate ob d p = Some (payload ob src, True)"
    using m(2) by (rule Obfuscate_piece) blast
  obtain ps where ps: "obfuscate_loop now (tl rnds) os (length (a @ p)) ((a @ p) @ m2 @ b) src =
      Some ((a @ p) @ concat ps @ b)" "pieces_ok os ps src"
    using Cons.IH [of m2 "tl rnds" "a @ p"] Cons.prems(1) m(3) by auto
  have "sub_slice (length a) (ObfuscatedLen ob ?n) (a @ m @ b) = Some m1"
    using sub_slice_mid [of m1 _ a "m2 @ b"] m by simp
  moreover have "copy_at (length a) p (a @ m @ b) = (a @ p) @ m2 @ b"
    using copy_mid [of p m1 a "m2 @ b"] m(1) p(2) by simp
  moreover have "length a + nat (ObfuscatedLen ob ?n) = length (a @ p)" using m(2) p(2) by simp
  ultimately have "obfuscate_loop now rnds (ob # os) (length a) (a @ m @ b) src = Some (a @ concat (p # ps) @ b)"
    using p(1) ps(1) by (simp add: Let_def)
  moreover have "pieces_ok (ob # os) (p # ps) src"
    using ps(2) p m(2) by (simp add: pieces_ok_def)
  ultimately show ?case by blast
qed

lemma length_pieces: "pieces_ok os ps src \<Longrightarrow> int (length (concat ps)) = obf_total os (int (length src))"
  unfolding pieces_ok_def by (induction rule: list_all2_induct) simp_all

lemma deobfuscate_loop_pieces:
  assumes "pieces_ok os ps src"
    and "\<And>ob. ob \<in> set os \<Longrightarrow> DeobfuscatedLen ob dyn = int (length (payload ob src))"
    and "\<And>ob. ob \<in> set os \<Longrightarrow> \<not> is_data ob \<Longrightarrow> ObfuscatedLen ob 0 = ObfuscatedLen ob (int (length src))"
    and "length m = length (concat (map (\<lambda>ob. payload ob src) os))"
  shows "deobfuscate_loop dyn os (length a) (length x) (a @ m @ b) (x @ concat ps @ y) =
    Some (a @ concat (map (\<lambda>ob. payload ob src) os) @ b, True)"
  using assms
proof (induction os arbitrary: ps a m x)
  case Nil
  then show ?case by (simp add: pieces_ok_def)
next
  case (Cons ob os)
  obtain p ps' where ps: "ps = p # ps'" "pieces_ok os ps' src"
    "int (length p) = ObfuscatedLen ob (int (length src))"
    "\<And>d. length d = length (payload ob src) \<Longrightarrow> Deobfuscate ob d p = Some (payload ob src, True)"
    using Cons.prems(1) by (auto simp: pieces_ok_def list_all2_Cons1)
  define m1 where "m1 = take (length (payload ob src)) m"
  define m2 where "m2 = drop (length (payload ob src)) m"
  have m: "m = m1 @ m2" "length m1 = length (payload ob src)"
    "length m2 = length (concat (map (\<lambda>ob. payload ob src) os))"
    using Cons.prems(4) by (auto simp: m1_def m2_def)
  have d: "DeobfuscatedLen ob dyn = int (length (payload ob src))" using Cons.prems(2) by simp
  have o: "ObfuscatedLen ob (int (length (payload ob src))) = int (length p)"
    using Cons.prems(3) [of ob] ps(3) by (simp add: payload_def)
  have "sub_slice (length a) (int (length (payload ob src))) (a @ m @ b) = Some m1"
    using sub_slice_mid [of m1 _ a "m2 @ b"] m by simp
  moreover have "sub_slice (length x) (int (length p)) (x @ concat ps @ y) = Some p"
    using sub_slice_mid [of p _ x "concat ps' @ y"] ps by simp
  moreover have "copy_at (length a) (payload ob src) (a @ m @ b) = (a @ payload ob src) @ m2 @ b"
    using copy_mid [of "payload ob src" m1 a "m2 @ b"] m by simp
  ultimately show ?case
    using Cons.IH [OF ps(2) Cons.prems(2,3) m(3), of "a @ payload ob src" "x @ p"] ps(1,4) m(2) d o
    by (simp add: Let_def)
qed

lemma chain_ObfuscatedLen_total:
  assumes "list_all obf_ok (obfs c)" "0 \<le> n" "obf_total (obfs c) n < 2 ^ 63"
  shows "chain_ObfuscatedLen c n = obf_total (obfs c) n"
proof -
  have "fold (\<lambda>ob total. wrap64 (total + ObfuscatedLen ob n)) os t = t + obf_total os n"
    if "list_all obf_ok os" "0 \<le> t" "t + obf_total os n < 2 ^ 63" for os t
    using that
  proof (induction os arbitrary: t)
    case (Cons ob os)
    then have nn: "0 \<le> ObfuscatedLen ob n" "0 \<le> obf_total os n"
      using assms(2) by (simp_all add: ObfuscatedLen_nonneg obf_total_nonneg)
    then have "wrap64 (t + ObfuscatedLen ob n) = t + ObfuscatedLen ob n" using Cons.prems by simp
    then show ?case using Cons nn by simp
  qed simp
  from this [OF assms(1), of 0] assms(3) show ?thesis by (simp add: chain_ObfuscatedLen_def)
qed

lemma chain_Obfuscate_pieces:
  assumes ok: "list_all obf_ok (obfs c)" and bound: "obf_total (obfs c) (int (length src)) < 2 ^ 63"
  obtains ps where
    "chain_Obfuscate now rnds c (replicate (nat (chain_ObfuscatedLen c (int (length src)))) 0) src = Some (concat ps)"
    "pieces_ok (obfs c) ps src"
proof -
  let ?n = "int (length src)" let ?m = "replicate (nat (chain_ObfuscatedLen c ?n)) (0 :: byte)"
  have "chain_ObfuscatedLen c ?n = obf_total (obfs c) ?n" "0 \<le> obf_total (obfs c) ?n"
    using ok bound by (simp_all add: chain_ObfuscatedLen_total obf_total_nonneg)
  then have m: "int (length ?m) = obf_total (obfs c) ?n" by simp
  show thesis
    using obfuscate_loop_pieces [OF ok m, of now rnds "[]" "[]"] that by (auto simp: chain_Obfuscate_def)
qed



text \<open>Elements that carry no data have a length of their own.\<close>

lemma fixed_len: "\<not> is_data ob \<Longrightarrow> ObfuscatedLen ob i = ObfuscatedLen ob j"
  by (cases ob) (auto simp: is_data_def)

lemma obf_total_fixed: "list_all (\<lambda>ob. \<not> is_data ob) os \<Longrightarrow> obf_total os i = obf_total os j"
  by (induction os) (auto intro: fixed_len)

lemma obf_total_append: "obf_total (xs @ ys) i = obf_total xs i + obf_total ys i"
  by (induction xs) simp_all

lemma payload_fixed: "list_all (\<lambda>ob. \<not> is_data ob) os \<Longrightarrow> concat (map (\<lambda>ob. payload ob src) os) = []"
  by (induction os) (simp_all add: payload_def)

text \<open>The length beyond the fixed parts is that of the data element.\<close>

lemma dynamic_len:
  assumes c: "obfs c = pre @ [d] @ post" and d: "is_data d"
    and fixed: "list_all (\<lambda>ob. obf_ok ob \<and> \<not> is_data ob) (pre @ post)"
    and bound: "obf_total (obfs c) n < 2 ^ 63" and n: "0 \<le> n"
  shows "wrap64 (obf_total (obfs c) n - chain_ObfuscatedLen c 0) = ObfuscatedLen d n"
proof -
  have ok: "list_all obf_ok (obfs c)" using c d fixed by (auto simp: list_all_iff is_data_def obf_ok_def)
  have "list_all (\<lambda>ob. \<not> is_data ob) pre" "list_all (\<lambda>ob. \<not> is_data ob) post"
    using fixed by (auto simp: list_all_iff)
  note same = this [THEN obf_total_fixed, of n 0]
  have diff: "obf_total (obfs c) n - obf_total (obfs c) 0 = ObfuscatedLen d n"
    using d same by (auto simp: c obf_total_append is_data_def EncodedLen_def)
  have nn: "0 \<le> ObfuscatedLen d n" "0 \<le> obf_total (obfs c) 0"
    using ok n by (simp_all add: c ObfuscatedLen_nonneg obf_total_nonneg)
  then have "chain_ObfuscatedLen c 0 = obf_total (obfs c) 0"
    using ok bound diff by (intro chain_ObfuscatedLen_total) simp_all
  then show ?thesis using diff nn bound by simp
qed

text \<open>C23: A chain with one data element among fixed ones carries data faithfully: what \<open>Obfuscate\<close> writes,
  \<open>Deobfuscate\<close> accepts and turns back into the data, whatever random bytes were drawn.\<close>

theorem chain_roundtrip:
  assumes c: "obfs c = pre @ [d] @ post" and d: "is_data d"
    and fixed: "list_all (\<lambda>ob. obf_ok ob \<and> \<not> is_data ob) (pre @ post)"
    and bound: "obf_total (obfs c) (int (length src)) < 2 ^ 63"
    and out: "chain_Obfuscate now rnds c (replicate (nat (chain_ObfuscatedLen c (int (length src)))) 0) src = Some out"
  shows "chain_Deobfuscate c (replicate (length src) 0) out = Some (src, True)"
proof -
  let ?n = "int (length src)" let ?m = "replicate (nat (chain_ObfuscatedLen c ?n)) (0 :: byte)"
  have ok: "list_all obf_ok (obfs c)" using c d fixed by (auto simp: list_all_iff is_data_def obf_ok_def)
  obtain ps where "chain_Obfuscate now rnds c ?m src = Some (concat ps)" and pok: "pieces_ok (obfs c) ps src"
    using ok bound by (rule chain_Obfuscate_pieces)
  with out have ps: "out = concat ps" by simp
  have dyn: "wrap64 (int (length out) - chain_ObfuscatedLen c 0) = ObfuscatedLen d ?n"
    using dynamic_len [OF c d fixed bound] by (simp add: length_pieces [OF pok] ps)
  have dl: "DeobfuscatedLen ob (ObfuscatedLen d ?n) = int (length (payload ob src))" if "ob \<in> set (obfs c)" for ob
  proof -
    have "ob = d \<or> \<not> is_data ob" using that fixed by (auto simp: c list_all_iff)
    then show ?thesis
    proof
      assume "ob = d"
      then show ?thesis using d by (auto simp: payload_def is_data_def DecodedLen_EncodedLen)
    next
      assume "\<not> is_data ob"
      then show ?thesis by (cases ob) (simp_all add: payload_def is_data_def)
    qed
  qed
  have pay: "concat (map (\<lambda>ob. payload ob src) (obfs c)) = src"
  proof -
    have "list_all (\<lambda>ob. \<not> is_data ob) pre" "list_all (\<lambda>ob. \<not> is_data ob) post"
      using fixed by (auto simp: list_all_iff)
    note empty = this [THEN payload_fixed, of src]
    have "payload d src = src" using d by (simp add: payload_def)
    then show ?thesis by (simp add: c empty)
  qed
  have fl: "ObfuscatedLen ob 0 = ObfuscatedLen ob ?n" if "ob \<in> set (obfs c)" "\<not> is_data ob" for ob
    using that(2) by (rule fixed_len)
  have "deobfuscate_loop (ObfuscatedLen d ?n) (obfs c) (length ([] :: bytes)) (length ([] :: bytes)) ([] @ replicate (length src) 0 @ [])
      ([] @ concat ps @ []) = Some ([] @ concat (map (\<lambda>ob. payload ob src) (obfs c)) @ [], True)"
    using pay by (intro deobfuscate_loop_pieces pok dl fl) simp_all
  then show ?thesis by (simp add: chain_Deobfuscate_def dyn pay ps [symmetric])
qed

theorem chain_roundtrip_witness:
  "\<exists>out. chain_Obfuscate 5 [[7], [8], [9]] \<lparr>Spec = '''', obfs = [randCharObf 3, dataStringObf, timestampObf]\<rparr>
      (replicate (nat (chain_ObfuscatedLen \<lparr>Spec = '''', obfs = [randCharObf 3, dataStringObf, timestampObf]\<rparr>
        (int (length ([1, 2] :: bytes))))) 0) [1, 2] = Some out \<and>
    chain_Deobfuscate \<lparr>Spec = '''', obfs = [randCharObf 3, dataStringObf, timestampObf]\<rparr>
      (replicate (length ([1, 2] :: bytes)) 0) out = Some ([1, 2], True)"
  (is "\<exists>out. ?obf = Some out \<and> _")
proof -
  obtain out where out: "?obf = Some out"
    by (rule chain_Obfuscate_pieces [where src = "[1, 2]"
          and c = "\<lparr>Spec = '''', obfs = [randCharObf 3, dataStringObf, timestampObf]\<rparr>"])
      (simp_all add: obf_ok_def EncodedLen_def)
  have "chain_Deobfuscate \<lparr>Spec = '''', obfs = [randCharObf 3, dataStringObf, timestampObf]\<rparr>
      (replicate (length ([1, 2] :: bytes)) 0) out = Some ([1, 2], True)"
    by (rule chain_roundtrip [where pre = "[randCharObf 3]" and d = dataStringObf and post = "[timestampObf]", OF _ _ _ _ out])
      (simp_all add: is_data_def obf_ok_def EncodedLen_def)
  with out show ?thesis by blast
qed

text \<open>Property: A negative length in a specification is accepted, and announces a negative buffer size, at which the
  allocation of the packet panics when the handshake is sent.\<close>

theorem negative_length_accepted:
  "newObfChain ''<r -1>'' = Inr (Some \<lparr>Spec = ''<r -1>'', obfs = [randObf (- 1)]\<rparr>) \<and>
    chain_ObfuscatedLen \<lparr>Spec = ''<r -1>'', obfs = [randObf (- 1)]\<rparr> 0 < 0"
proof -
  have "Atoi ''-1'' = Inr (- 1)" by (simp add: Atoi_def ParseUint_def digit_val_def)
  moreover have "Fields ''r -1'' = [''r'', ''-1'']" by (simp add: Fields_def is_space_def)
  ultimately have "build_tag ''r -1'' = Inr (randObf (- 1))"
    by (simp add: build_tag_def obfBuilders_def newRandObf_def)
  then have "parse_tags ''<r -1>'' [] [] = Inr ([randObf (- 1)], [])"
    by (simp add: parse_tags.simps [of "''<r -1>''"] parse_tags.simps [of "[]"])
  then show ?thesis by (simp add: newObfChain_def chain_ObfuscatedLen_def wrap64_def)
qed

end
