(* ===== verification/DeviceState.thy ===== *)
theory DeviceState
  imports NoiseTypes Cookie Obf Replay Ratelimiter AllowedIPs Tai64n
begin

text \<open>
  The state of a device: the structs of src/device (device.go, peer.go, keypair.go, indextable.go,
  noise-protocol.go, timers.go, send.go, receive.go) as records.

  Pointers that the code compares or shares are numbers into a heap: peers and keypairs. A
  handshake is embedded in its peer, so a pointer to it is the number of the peer. A key map is
  an association list, its order the order of iteration. Queues are lists; the message buffers and
  pools, which only bound memory, and the mutexes are left out: each operation is one atomic step.

  What the world supplies is in \<open>Env\<close>: the clock, the bytes of \<open>rand.Read\<close> (which never fails in
  the Go version of go.mod), the words of \<open>fastrandn\<close>, the indices that \<open>randUint32\<close> draws, and the
  results of the next calls of the bind (\<open>Send\<close>, \<open>Open\<close> with the port it got, \<open>Close\<close>, \<open>SetMark\<close>) and of
  \<open>startRouteListener\<close>; a call for which nothing is listed succeeds. \<open>d_bindOpen\<close> says whether the bind is open. What the device does to the world is the list of datagrams
  sent and of packets written to the tunnel. A run-time panic is recorded in \<open>d_panicked\<close>; \<open>d_starved\<close>
  records that the loop that draws a free index did not end with the indices supplied.
\<close>

subsection \<open>Keypairs and handshakes\<close>

record Keypair =
  kp_sendNonce :: u64
  kp_send :: bytes
  kp_receive :: bytes
  kp_replayFilter :: Filter
  kp_isInitiator :: bool
  kp_created :: int
  kp_localIndex :: u32
  kp_remoteIndex :: u32

record Keypairs =
  ks_current :: "nat option"
  ks_previous :: "nat option"
  ks_next :: "nat option"

datatype handshakeState =
    handshakeZeroed
  | handshakeInitiationCreated
  | handshakeInitiationConsumed
  | handshakeResponseCreated
  | handshakeResponseConsumed

record Handshake =
  hs_state :: handshakeState
  hs_hash :: bytes
  hs_chainKey :: bytes
  hs_presharedKey :: bytes
  hs_localEphemeral :: bytes
  hs_localIndex :: u32
  hs_remoteIndex :: u32
  hs_remoteStatic :: bytes
  hs_remoteEphemeral :: bytes
  hs_precomputedStaticStatic :: bytes
  hs_lastTimestamp :: bytes
  hs_lastInitiationConsumption :: int
  hs_lastSentHandshake :: int

definition zero_handshake :: Handshake where
  "zero_handshake =
     \<lparr>hs_state = handshakeZeroed, hs_hash = replicate 32 0, hs_chainKey = replicate 32 0,
      hs_presharedKey = replicate 32 0, hs_localEphemeral = replicate 32 0, hs_localIndex = 0,
      hs_remoteIndex = 0, hs_remoteStatic = replicate 32 0, hs_remoteEphemeral = replicate 32 0,
      hs_precomputedStaticStatic = replicate 32 0, hs_lastTimestamp = replicate 12 0,
      hs_lastInitiationConsumption = zero_time, hs_lastSentHandshake = zero_time\<rparr>"

record IndexTableEntry =
  ie_peer :: "nat option"
  ie_handshake :: "nat option"
  ie_keypair :: "nat option"

definition no_entry :: IndexTableEntry where
  "no_entry = \<lparr>ie_peer = None, ie_handshake = None, ie_keypair = None\<rparr>"

subsection \<open>Peers\<close>

record Endpoint =
  ep_dst :: addrport
  ep_src :: bytes

text \<open>A timer with its \<open>duration\<close> field and the time at which the runtime calls it back.\<close>

record Timer =
  tm_duration :: int
  tm_deadline :: "int option"

record Timers =
  ts_retransmitHandshake :: Timer
  ts_sendKeepalive :: Timer
  ts_newHandshake :: Timer
  ts_zeroKeyMaterial :: Timer
  ts_persistentKeepalive :: Timer
  ts_handshakeAttempts :: u32
  ts_maxHandshakeAttempts :: u32
  ts_needAnotherKeepalive :: bool
  ts_sentLastMinuteHandshake :: bool

record QueueOutboundElement =
  oe_packet :: bytes
  oe_nonce :: u64
  oe_keypair :: "nat option"
  oe_padding :: u32
  oe_isKeepalive :: bool

text \<open>
  A container is locked while a worker still has to encrypt or decrypt its elements. The two
  counterparts of the program's containers of pointers hold the elements themselves.
\<close>

record QueueOutboundElementsContainer =
  oc_locked :: bool
  oc_elems :: "QueueOutboundElement list"

record QueueInboundElement =
  ib_packet :: "bytes option"
  ib_counter :: u64
  ib_keypair :: nat
  ib_endpoint :: Endpoint
  ib_padding :: u32

record QueueInboundElementsContainer =
  ic_locked :: bool
  ic_elems :: "QueueInboundElement list"

record Peer =
  p_isRunning :: bool
  p_keypairs :: Keypairs
  p_handshake :: Handshake
  p_txBytes :: u64
  p_rxBytes :: u64
  p_lastHandshakeNano :: int
  p_endpoint :: "Endpoint option"
  p_clearSrcOnTx :: bool
  p_disableRoaming :: bool
  p_timers :: Timers
  p_staged :: "QueueOutboundElementsContainer list"
  p_outbound :: "QueueOutboundElementsContainer list"
  p_inbound :: "QueueInboundElementsContainer list"
  p_cookieGenerator :: CookieGenerator
  p_persistentKeepaliveInterval :: UintRange

subsection \<open>The device\<close>

datatype deviceState = deviceStateDown | deviceStateUp | deviceStateClosed

record Junk =
  j_min :: u32
  j_max :: u32
  j_count :: u32

record Headers =
  h_init :: UintRange
  h_cookie :: UintRange
  h_response :: UintRange
  h_transport :: UintRange

record Paddings =
  s_init :: u32
  s_response :: u32
  s_cookie :: u32
  s_transport :: u32

record Timings =
  t_rekeyAfterTimeSec :: UintRange
  t_rekeyTimeoutSec :: UintRange
  t_rejectAfterTimeSec :: UintRange
  t_keepaliveTimeoutSec :: UintRange
  t_maxHandshakeAttemps :: UintRange

record QueueHandshakeElement =
  he_msgType :: u32
  he_packet :: bytes
  he_endpoint :: Endpoint

text \<open>The result of a call of the bind's \<open>Send\<close>; after \<open>ErrUDPGSODisabled\<close> the datagrams were sent once more.\<close>

datatype send_result = SendOk | GSODisabled bool | SendFailed

record Env =
  e_now :: int
  e_bytes :: "bytes list"
  e_words :: "u32 list"
  e_indices :: "u32 list"
  e_sends :: "send_result list"
  e_opens :: "u16 option list"
  e_closes :: "bool list"
  e_marks :: "bool list"
  e_listeners :: "bool list"

record Device =
  d_state :: deviceState
  d_bindOpen :: bool
  d_port :: u16
  d_fwmark :: u32
  d_brokenRoaming :: bool
  d_privateKey :: bytes
  d_publicKey :: bytes
  d_keyMap :: "(bytes \<times> nat) list"
  d_underLoadUntil :: int
  d_limiter :: "addr Ratelimiter"
  d_allowedips :: "nat AllowedIPs"
  d_indexTable :: "u32 \<rightharpoonup> IndexTableEntry"
  d_cookieChecker :: CookieChecker
  d_handshakeQueue :: "QueueHandshakeElement list"
  d_mtu :: int
  d_junk :: Junk
  d_headers :: Headers
  d_paddings :: Paddings
  d_ipackets :: "obfChain option list"
  d_headerKey :: bytes
  d_contentPaddingAddition :: UintRange
  d_timings :: Timings
  d_peers :: "nat \<Rightarrow> Peer"
  d_nextPeer :: nat
  d_keypairs :: "nat \<Rightarrow> Keypair"
  d_nextKeypair :: nat
  d_env :: Env
  d_sent :: "(bytes list \<times> Endpoint) list"
  d_written :: "bytes list"
  d_panicked :: bool
  d_starved :: bool

definition panic :: "Device \<Rightarrow> Device" where
  "panic dev = dev\<lparr>d_panicked := True\<rparr>"

abbreviation now :: "Device \<Rightarrow> int" where
  "now dev \<equiv> e_now (d_env dev)"

subsection \<open>Updating a peer or a keypair in place\<close>

definition upd_peer :: "nat \<Rightarrow> (Peer \<Rightarrow> Peer) \<Rightarrow> Device \<Rightarrow> Device" where
  "upd_peer p f dev = dev\<lparr>d_peers := (d_peers dev)(p := f (d_peers dev p))\<rparr>"

definition upd_keypair :: "nat \<Rightarrow> (Keypair \<Rightarrow> Keypair) \<Rightarrow> Device \<Rightarrow> Device" where
  "upd_keypair k f dev = dev\<lparr>d_keypairs := (d_keypairs dev)(k := f (d_keypairs dev k))\<rparr>"

abbreviation handshake :: "Device \<Rightarrow> nat \<Rightarrow> Handshake" where
  "handshake dev p \<equiv> p_handshake (d_peers dev p)"

definition upd_handshake :: "nat \<Rightarrow> (Handshake \<Rightarrow> Handshake) \<Rightarrow> Device \<Rightarrow> Device" where
  "upd_handshake p f = upd_peer p (\<lambda>peer. peer\<lparr>p_handshake := f (p_handshake peer)\<rparr>)"

definition upd_keypairs :: "nat \<Rightarrow> (Keypairs \<Rightarrow> Keypairs) \<Rightarrow> Device \<Rightarrow> Device" where
  "upd_keypairs p f = upd_peer p (\<lambda>peer. peer\<lparr>p_keypairs := f (p_keypairs peer)\<rparr>)"

definition upd_timers :: "nat \<Rightarrow> (Timers \<Rightarrow> Timers) \<Rightarrow> Device \<Rightarrow> Device" where
  "upd_timers p f = upd_peer p (\<lambda>peer. peer\<lparr>p_timers := f (p_timers peer)\<rparr>)"

subsection \<open>Draws from the world\<close>

definition rand_Read :: "nat \<Rightarrow> Device \<Rightarrow> bytes \<times> Device" where
  "rand_Read n dev =
     (case e_bytes (d_env dev) of
        [] \<Rightarrow> (replicate n 0, dev)
      | b # bs \<Rightarrow> (fill n b, dev\<lparr>d_env := (d_env dev)\<lparr>e_bytes := bs\<rparr>\<rparr>))"

definition rand_word :: "Device \<Rightarrow> u32 \<times> Device" where
  "rand_word dev =
     (case e_words (d_env dev) of
        [] \<Rightarrow> (0, dev)
      | w # ws \<Rightarrow> (w, dev\<lparr>d_env := (d_env dev)\<lparr>e_words := ws\<rparr>\<rparr>))"

definition pick_one :: "UintRange \<Rightarrow> Device \<Rightarrow> u32 \<times> Device" where
  "pick_one r dev = (let (w, dev) = rand_word dev in (PickOne r w, dev))"

end
