(* ===== verification/NoiseProtocol.thy ===== *)
theory NoiseProtocol
  imports DeviceState
begin

text \<open>
  The handshake of src/device/noise-protocol.go on the state of a device, with the index table
  (indextable.go) and the rotation of keypairs (keypair.go). Functions whose error paths leave a
  half-updated handshake return the state they leave.
\<close>

subsection \<open>The index table\<close>

definition index_Init :: "Device \<Rightarrow> Device" where
  "index_Init dev = dev\<lparr>d_indexTable := Map.empty\<rparr>"

definition index_Delete :: "u32 \<Rightarrow> Device \<Rightarrow> Device" where
  "index_Delete index dev = dev\<lparr>d_indexTable := (d_indexTable dev)(index := None)\<rparr>"

definition SwapIndexForKeypair :: "u32 \<Rightarrow> nat \<Rightarrow> Device \<Rightarrow> Device" where
  "SwapIndexForKeypair index kp dev =
     (case d_indexTable dev index of
        None \<Rightarrow> dev
      | Some entry \<Rightarrow> dev\<lparr>d_indexTable := (d_indexTable dev)(index \<mapsto>
          \<lparr>ie_peer = ie_peer entry, ie_handshake = None, ie_keypair = Some kp\<rparr>)\<rparr>)"

text \<open>
  The loop draws indices until one is free. \<open>None\<close> says that it still draws when the indices that
  the world supplies are used up.
\<close>

fun free_index :: "(u32 \<rightharpoonup> IndexTableEntry) \<Rightarrow> u32 list \<Rightarrow> (u32 \<times> u32 list) option" where
  "free_index tab [] = None"
| "free_index tab (i # is) = (if tab i \<noteq> None then free_index tab is else Some (i, is))"

definition NewIndexForHandshake :: "nat \<Rightarrow> Device \<Rightarrow> (u32 \<times> Device) option" where
  "NewIndexForHandshake p dev =
     (case free_index (d_indexTable dev) (e_indices (d_env dev)) of
        None \<Rightarrow> None
      | Some (index, is) \<Rightarrow>
          Some (index, dev\<lparr>d_env := (d_env dev)\<lparr>e_indices := is\<rparr>,
            d_indexTable := (d_indexTable dev)(index \<mapsto>
              \<lparr>ie_peer = Some p, ie_handshake = Some p, ie_keypair = None\<rparr>)\<rparr>))"

definition index_Lookup :: "u32 \<Rightarrow> Device \<Rightarrow> IndexTableEntry" where
  "index_Lookup i dev = (case d_indexTable dev i of None \<Rightarrow> no_entry | Some entry \<Rightarrow> entry)"

definition DeleteKeypair :: "nat option \<Rightarrow> Device \<Rightarrow> Device" where
  "DeleteKeypair kp dev =
     (case kp of None \<Rightarrow> dev | Some k \<Rightarrow> index_Delete (kp_localIndex (d_keypairs dev k)) dev)"

definition Current :: "nat \<Rightarrow> Device \<Rightarrow> nat option" where
  "Current p dev = ks_current (p_keypairs (d_peers dev p))"

definition LookupPeer :: "bytes \<Rightarrow> Device \<Rightarrow> nat option" where
  "LookupPeer pk dev = map_of (d_keyMap dev) pk"

subsection \<open>Constants and mixing\<close>

definition HandshakeInitationRate :: int where
  "HandshakeInitationRate = second div 50"

definition NoiseConstruction :: bytes where
  "NoiseConstruction = map (of_nat \<circ> of_char) ''Noise_IKpsk2_25519_ChaChaPoly_BLAKE2s''"

definition WGIdentifier :: bytes where
  "WGIdentifier = map (of_nat \<circ> of_char) ''WireGuard v1 zx2c4 Jason@zx2c4.com''"

definition mixKey :: "Crypto \<Rightarrow> bytes \<Rightarrow> bytes \<Rightarrow> bytes" where
  "mixKey C c data = KDF1 C c data"

definition mixHash :: "Crypto \<Rightarrow> bytes \<Rightarrow> bytes \<Rightarrow> bytes" where
  "mixHash C h data = blake2s_256 C (h @ data)"

definition InitialChainKey :: "Crypto \<Rightarrow> bytes" where
  "InitialChainKey C = blake2s_256 C NoiseConstruction"

definition InitialHash :: "Crypto \<Rightarrow> bytes" where
  "InitialHash C = mixHash C (InitialChainKey C) WGIdentifier"

definition ZeroNonce :: bytes where
  "ZeroNonce = replicate 12 0"

definition Clear :: "Handshake \<Rightarrow> Handshake" where
  "Clear h = h\<lparr>hs_localEphemeral := setZero (hs_localEphemeral h), hs_remoteEphemeral := setZero (hs_remoteEphemeral h),
     hs_chainKey := setZero (hs_chainKey h), hs_hash := setZero (hs_hash h), hs_localIndex := 0,
     hs_state := handshakeZeroed\<rparr>"

definition hs_mixHash :: "Crypto \<Rightarrow> bytes \<Rightarrow> Handshake \<Rightarrow> Handshake" where
  "hs_mixHash C data h = h\<lparr>hs_hash := mixHash C (hs_hash h) data\<rparr>"

definition hs_mixKey :: "Crypto \<Rightarrow> bytes \<Rightarrow> Handshake \<Rightarrow> Handshake" where
  "hs_mixKey C data h = h\<lparr>hs_chainKey := mixKey C (hs_chainKey h) data\<rparr>"

datatype noise_fail = ErrInvalidPublicKey | ErrNotConsumed | ErrInvalidState | ErrStillDrawing

subsection \<open>The initiation\<close>

text \<open>
  \<open>initiation_seal\<close> is the part of \<open>CreateMessageInitiation\<close> that works on the handshake alone:
  from the ephemeral key \<open>e\<close> to the sealed timestamp. It returns the fields of the message.
\<close>

definition initiation_seal ::
  "Crypto \<Rightarrow> bytes \<Rightarrow> bytes \<Rightarrow> bytes \<Rightarrow> Handshake \<Rightarrow> Handshake \<times> (noise_fail + bytes \<times> bytes \<times> bytes)"
where
  "initiation_seal C e devicePub timestamp h =
     (let h = h\<lparr>hs_hash := InitialHash C, hs_chainKey := InitialChainKey C, hs_localEphemeral := e\<rparr>;
          h = hs_mixHash C (hs_remoteStatic h) h;
          ephemeral = publicKey C (hs_localEphemeral h);
          h = hs_mixKey C ephemeral h;
          h = hs_mixHash C ephemeral h
      in case sharedSecret C (hs_localEphemeral h) (hs_remoteStatic h) of
           None \<Rightarrow> (h, Inl ErrInvalidPublicKey)
         | Some ss \<Rightarrow>
             let (ck, k) = KDF2 C (hs_chainKey h) ss;
                 h = h\<lparr>hs_chainKey := ck\<rparr>;
                 static = aead_seal C k ZeroNonce devicePub (hs_hash h);
                 h = hs_mixHash C static h
             in if isZero (hs_precomputedStaticStatic h) then (h, Inl ErrInvalidPublicKey)
                else
                let (ck, k) = KDF2 C (hs_chainKey h) (hs_precomputedStaticStatic h);
                    h = h\<lparr>hs_chainKey := ck\<rparr>;
                    ts = aead_seal C k ZeroNonce timestamp (hs_hash h)
                in (h, Inr (ephemeral, static, ts)))"

definition time_of :: "int \<Rightarrow> time" where
  "time_of t = \<lparr>unix = t div second, nanosecond = nat (t mod second)\<rparr>"

definition CreateMessageInitiation ::
  "Crypto \<Rightarrow> nat \<Rightarrow> Device \<Rightarrow> Device \<times> (noise_fail + MessageInitiation)"
where
  "CreateMessageInitiation C p dev =
     (let (r, dev) = rand_Read 32 dev;
          (msgType, dev) = pick_one (h_init (d_headers dev)) dev;
          (h, sealed) = initiation_seal C (clamp r) (d_publicKey dev) (stamp (time_of (now dev))) (handshake dev p);
          dev = upd_handshake p (\<lambda>_. h) dev
      in case sealed of
           Inl err \<Rightarrow> (dev, Inl err)
         | Inr (ephemeral, static, ts) \<Rightarrow>
             let dev = index_Delete (hs_localIndex h) dev
             in case NewIndexForHandshake p dev of
                  None \<Rightarrow> (dev\<lparr>d_starved := True\<rparr>, Inl ErrStillDrawing)
                | Some (sender, dev) \<Rightarrow>
                    let dev = upd_handshake p (\<lambda>h. (hs_mixHash C ts (h\<lparr>hs_localIndex := sender\<rparr>))
                                \<lparr>hs_state := handshakeInitiationCreated\<rparr>) dev
                    in (dev, Inr \<lparr>mi_Type = msgType, mi_Sender = sender, mi_Ephemeral = ephemeral,
                                  mi_Static = static, mi_Timestamp = ts,
                                  mi_MAC1 = replicate 16 0, mi_MAC2 = replicate 16 0\<rparr>))"

text \<open>
  The responder's computation on the message: \<open>initiation_open_static\<close> up to the peer's key,
  \<open>initiation_open_timestamp\<close> from the peer's precomputed secret to the timestamp. Both give the
  hash and the chain key they reach.
\<close>

definition initiation_open_static ::
  "Crypto \<Rightarrow> bytes \<Rightarrow> bytes \<Rightarrow> MessageInitiation \<Rightarrow> (bytes \<times> bytes \<times> bytes) option"
where
  "initiation_open_static C priv pub msg =
     (let hash = mixHash C (InitialHash C) pub;
          hash = mixHash C hash (mi_Ephemeral msg);
          chainKey = mixKey C (InitialChainKey C) (mi_Ephemeral msg)
      in Option.bind (sharedSecret C priv (mi_Ephemeral msg)) (\<lambda>ss.
         let (chainKey, k) = KDF2 C chainKey ss
         in Option.bind (aead_open C k ZeroNonce (mi_Static msg) hash) (\<lambda>peerPK.
            let hash = mixHash C hash (mi_Static msg) in Some (hash, chainKey, peerPK))))"

definition initiation_open_timestamp ::
  "Crypto \<Rightarrow> bytes \<Rightarrow> bytes \<Rightarrow> bytes \<Rightarrow> MessageInitiation \<Rightarrow> (bytes \<times> bytes \<times> bytes) option"
where
  "initiation_open_timestamp C hash chainKey precomputed msg =
     (if isZero precomputed then None
      else
      let (chainKey, k) = KDF2 C chainKey precomputed
      in Option.bind (aead_open C k ZeroNonce (mi_Timestamp msg) hash) (\<lambda>timestamp.
         let hash = mixHash C hash (mi_Timestamp msg) in Some (hash, chainKey, timestamp)))"

definition ConsumeMessageInitiation ::
  "Crypto \<Rightarrow> MessageInitiation \<Rightarrow> Device \<Rightarrow> Device \<times> nat option"
where
  "ConsumeMessageInitiation C msg dev =
     (if mi_Type msg \<noteq> MessageInitiationType then (dev, None)
      else case initiation_open_static C (d_privateKey dev) (d_publicKey dev) msg of
        None \<Rightarrow> (dev, None)
      | Some (hash, chainKey, peerPK) \<Rightarrow>
          (case LookupPeer peerPK dev of
             None \<Rightarrow> (dev, None)
           | Some p \<Rightarrow>
               if \<not> p_isRunning (d_peers dev p) then (dev, None)
               else case initiation_open_timestamp C hash chainKey (hs_precomputedStaticStatic (handshake dev p)) msg of
                 None \<Rightarrow> (dev, None)
               | Some (hash, chainKey, timestamp) \<Rightarrow>
                   let replay = \<not> After timestamp (hs_lastTimestamp (handshake dev p));
                       flood = time_sub (now dev) (hs_lastInitiationConsumption (handshake dev p)) \<le> HandshakeInitationRate
                   in if replay then (dev, None)
                      else if flood then (dev, None)
                      else
                      (upd_handshake p (\<lambda>h. h\<lparr>hs_hash := hash, hs_chainKey := chainKey,
                         hs_remoteIndex := mi_Sender msg, hs_remoteEphemeral := mi_Ephemeral msg,
                         hs_lastTimestamp := (if After timestamp (hs_lastTimestamp h) then timestamp else hs_lastTimestamp h),
                         hs_lastInitiationConsumption :=
                           (if now dev > hs_lastInitiationConsumption h then now dev else hs_lastInitiationConsumption h),
                         hs_state := handshakeInitiationConsumed\<rparr>) dev, Some p)))"

subsection \<open>The response\<close>

text \<open>The part of \<open>CreateMessageResponse\<close> after the ephemeral key \<open>e\<close> was made.\<close>

definition response_seal ::
  "Crypto \<Rightarrow> bytes \<Rightarrow> Handshake \<Rightarrow> Handshake \<times> (noise_fail + bytes \<times> bytes)"
where
  "response_seal C e h =
     (let h = h\<lparr>hs_localEphemeral := e\<rparr>;
          ephemeral = publicKey C (hs_localEphemeral h);
          h = hs_mixHash C ephemeral h;
          h = hs_mixKey C ephemeral h
      in case sharedSecret C (hs_localEphemeral h) (hs_remoteEphemeral h) of
           None \<Rightarrow> (h, Inl ErrInvalidPublicKey)
         | Some ss \<Rightarrow>
             let h = hs_mixKey C ss h
             in case sharedSecret C (hs_localEphemeral h) (hs_remoteStatic h) of
                  None \<Rightarrow> (h, Inl ErrInvalidPublicKey)
                | Some ss \<Rightarrow>
                    let h = hs_mixKey C ss h;
                        (ck, tau, k) = KDF3 C (hs_chainKey h) (hs_presharedKey h);
                        h = h\<lparr>hs_chainKey := ck\<rparr>;
                        h = hs_mixHash C tau h;
                        emptyc = aead_seal C k ZeroNonce [] (hs_hash h);
                        h = hs_mixHash C emptyc h
                    in (h\<lparr>hs_state := handshakeResponseCreated\<rparr>, Inr (ephemeral, emptyc)))"

definition CreateMessageResponse ::
  "Crypto \<Rightarrow> nat \<Rightarrow> Device \<Rightarrow> Device \<times> (noise_fail + MessageResponse)"
where
  "CreateMessageResponse C p dev =
     (if hs_state (handshake dev p) \<noteq> handshakeInitiationConsumed then (dev, Inl ErrNotConsumed)
      else
      let dev = index_Delete (hs_localIndex (handshake dev p)) dev
      in case NewIndexForHandshake p dev of
           None \<Rightarrow> (dev\<lparr>d_starved := True\<rparr>, Inl ErrStillDrawing)
         | Some (index, dev) \<Rightarrow>
             let dev = upd_handshake p (\<lambda>h. h\<lparr>hs_localIndex := index\<rparr>) dev;
                 (msgType, dev) = pick_one (h_response (d_headers dev)) dev;
                 (r, dev) = rand_Read 32 dev;
                 (h, sealed) = response_seal C (clamp r) (handshake dev p);
                 dev = upd_handshake p (\<lambda>_. h) dev
             in case sealed of
                  Inl err \<Rightarrow> (dev, Inl err)
                | Inr (ephemeral, emptyc) \<Rightarrow>
                    (dev, Inr \<lparr>mr_Type = msgType, mr_Sender = index, mr_Receiver = hs_remoteIndex h,
                               mr_Ephemeral = ephemeral, mr_Empty = emptyc,
                               mr_MAC1 = replicate 16 0, mr_MAC2 = replicate 16 0\<rparr>))"

definition response_open ::
  "Crypto \<Rightarrow> bytes \<Rightarrow> Handshake \<Rightarrow> MessageResponse \<Rightarrow> (bytes \<times> bytes) option"
where
  "response_open C priv h msg =
     (if hs_state h \<noteq> handshakeInitiationCreated then None
      else
      let hash = mixHash C (hs_hash h) (mr_Ephemeral msg);
          chainKey = mixKey C (hs_chainKey h) (mr_Ephemeral msg)
      in Option.bind (sharedSecret C (hs_localEphemeral h) (mr_Ephemeral msg)) (\<lambda>ss.
         let chainKey = mixKey C chainKey ss
         in Option.bind (sharedSecret C priv (mr_Ephemeral msg)) (\<lambda>ss.
            let chainKey = mixKey C chainKey ss;
                (chainKey, tau, k) = KDF3 C chainKey (hs_presharedKey h);
                hash = mixHash C hash tau
            in Option.bind (aead_open C k ZeroNonce (mr_Empty msg) hash) (\<lambda>_.
               Some (mixHash C hash (mr_Empty msg), chainKey)))))"

definition ConsumeMessageResponse ::
  "Crypto \<Rightarrow> MessageResponse \<Rightarrow> Device \<Rightarrow> Device \<times> nat option"
where
  "ConsumeMessageResponse C msg dev =
     (if mr_Type msg \<noteq> MessageResponseType then (dev, None)
      else
      let entry = index_Lookup (mr_Receiver msg) dev
      in case ie_handshake entry of
           None \<Rightarrow> (dev, None)
         | Some p \<Rightarrow>
             (case response_open C (d_privateKey dev) (handshake dev p) msg of
                None \<Rightarrow> (dev, None)
              | Some (hash, chainKey) \<Rightarrow>
                  (upd_handshake p (\<lambda>h. h\<lparr>hs_hash := hash, hs_chainKey := chainKey,
                     hs_remoteIndex := mr_Sender msg, hs_state := handshakeResponseConsumed\<rparr>) dev,
                   ie_peer entry)))"

subsection \<open>Sessions\<close>

text \<open>The keys that \<open>BeginSymmetricSession\<close> derives: sending, receiving, and whether as initiator.\<close>

definition session_keys :: "Crypto \<Rightarrow> Handshake \<Rightarrow> (bytes \<times> bytes \<times> bool) option" where
  "session_keys C h =
     (if hs_state h = handshakeResponseConsumed then
        let (sendKey, recvKey) = KDF2 C (hs_chainKey h) [] in Some (sendKey, recvKey, True)
      else if hs_state h = handshakeResponseCreated then
        let (recvKey, sendKey) = KDF2 C (hs_chainKey h) [] in Some (sendKey, recvKey, False)
      else None)"

definition new_keypair :: "bytes \<Rightarrow> bytes \<Rightarrow> bool \<Rightarrow> int \<Rightarrow> Handshake \<Rightarrow> Keypair" where
  "new_keypair sendKey recvKey isInitiator t h =
     \<lparr>kp_sendNonce = 0, kp_send = sendKey, kp_receive = recvKey, kp_replayFilter = Reset zero_filter,
      kp_isInitiator = isInitiator, kp_created = t, kp_localIndex = hs_localIndex h,
      kp_remoteIndex = hs_remoteIndex h\<rparr>"

definition rotate :: "nat \<Rightarrow> nat \<Rightarrow> bool \<Rightarrow> Device \<Rightarrow> Device" where
  "rotate p kp isInitiator dev =
     (let previous = ks_previous (p_keypairs (d_peers dev p));
          nxt = ks_next (p_keypairs (d_peers dev p));
          current = ks_current (p_keypairs (d_peers dev p))
      in if isInitiator then
           let dev = (if nxt \<noteq> None
                      then DeleteKeypair current (upd_keypairs p (\<lambda>ks. ks\<lparr>ks_next := None, ks_previous := nxt\<rparr>) dev)
                      else upd_keypairs p (\<lambda>ks. ks\<lparr>ks_previous := current\<rparr>) dev);
               dev = DeleteKeypair previous dev
           in upd_keypairs p (\<lambda>ks. ks\<lparr>ks_current := Some kp\<rparr>) dev
         else
           let dev = upd_keypairs p (\<lambda>ks. ks\<lparr>ks_next := Some kp\<rparr>) dev;
               dev = DeleteKeypair nxt dev;
               dev = upd_keypairs p (\<lambda>ks. ks\<lparr>ks_previous := None\<rparr>) dev
           in DeleteKeypair previous dev)"

definition BeginSymmetricSession :: "Crypto \<Rightarrow> nat \<Rightarrow> Device \<Rightarrow> Device \<times> (noise_fail + unit)" where
  "BeginSymmetricSession C p dev =
     (case session_keys C (handshake dev p) of
        None \<Rightarrow> (dev, Inl ErrInvalidState)
      | Some (sendKey, recvKey, isInitiator) \<Rightarrow>
          let dev = upd_handshake p (\<lambda>h. h\<lparr>hs_chainKey := setZero (hs_chainKey h), hs_hash := setZero (hs_hash h),
                      hs_localEphemeral := setZero (hs_localEphemeral h), hs_state := handshakeZeroed\<rparr>) dev;
              kp = d_nextKeypair dev;
              dev = dev\<lparr>d_nextKeypair := kp + 1, d_keypairs := (d_keypairs dev)
                      (kp := new_keypair sendKey recvKey isInitiator (now dev) (handshake dev p))\<rparr>;
              dev = SwapIndexForKeypair (hs_localIndex (handshake dev p)) kp dev;
              dev = upd_handshake p (\<lambda>h. h\<lparr>hs_localIndex := 0\<rparr>) dev
          in (rotate p kp isInitiator dev, Inr ()))"

definition ReceivedWithKeypair :: "nat \<Rightarrow> nat \<Rightarrow> Device \<Rightarrow> Device \<times> bool" where
  "ReceivedWithKeypair p kp dev =
     (if ks_next (p_keypairs (d_peers dev p)) \<noteq> Some kp then (dev, False)
      else
      let old = ks_previous (p_keypairs (d_peers dev p));
          dev = upd_keypairs p (\<lambda>ks. ks\<lparr>ks_previous := ks_current ks\<rparr>) dev;
          dev = DeleteKeypair old dev
      in (upd_keypairs p (\<lambda>ks. ks\<lparr>ks_current := ks_next ks, ks_next := None\<rparr>) dev, True))"

end
