(* ===== verification/Timers.thy ===== *)
theory Timers
  imports DeviceState
begin

text \<open>
  The timers of src/device/timers.go: the \<open>Timer\<close> wrapper, the timeouts derived from the
  configured ranges, and the hooks that the send and receive paths call. What a timer does when it
  expires calls the send path and is in theory \<open>Expiry\<close>. A duration is a Go \<open>int64\<close>.
\<close>

subsection \<open>One timer\<close>

definition Mod :: "int \<Rightarrow> int \<Rightarrow> Timer \<Rightarrow> Timer" where
  "Mod t d timer = timer\<lparr>tm_duration := d, tm_deadline := Some (t + d)\<rparr>"

definition Del :: "Timer \<Rightarrow> Timer" where
  "Del timer = timer\<lparr>tm_duration := 0, tm_deadline := None\<rparr>"

definition DelSync :: "Timer \<Rightarrow> Timer" where
  "DelSync timer = Del (Del timer)"

definition IsPending :: "Timer \<Rightarrow> bool" where
  "IsPending timer \<longleftrightarrow> tm_duration timer > 0"

definition NewTimer :: Timer where
  "NewTimer = \<lparr>tm_duration = 0, tm_deadline = None\<rparr>"

text \<open>
  The callback of \<open>NewTimer\<close>: the runtime's timer has fired. It gives the duration to hand to the
  expiration function, or nothing when the timer was deleted in the meantime.
\<close>

definition timer_fire :: "Timer \<Rightarrow> Timer \<times> int option" where
  "timer_fire timer =
     (let timer = timer\<lparr>tm_deadline := None\<rparr>
      in if tm_duration timer = 0 then (timer, None)
         else (timer\<lparr>tm_duration := 0\<rparr>, Some (tm_duration timer)))"

subsection \<open>Timeouts\<close>

definition RekeyAfterTime :: int where "RekeyAfterTime = second * 120"
definition RekeyTimeout :: int where "RekeyTimeout = second * 5"
definition MaxTimerHandshakes :: u32 where "MaxTimerHandshakes = 90 div 5"
definition RekeyTimeoutJitterMaxMs :: u32 where "RekeyTimeoutJitterMaxMs = 334"
definition RejectAfterTime :: int where "RejectAfterTime = second * 180"
definition KeepaliveTimeout :: int where "KeepaliveTimeout = second * 10"

lemmas timeout_consts =
  RekeyAfterTime_def RekeyTimeout_def MaxTimerHandshakes_def RekeyTimeoutJitterMaxMs_def
  RejectAfterTime_def KeepaliveTimeout_def second_def

definition seconds_of :: "u32 \<Rightarrow> int" where
  "seconds_of w = wrap64 (uint w * second)"

definition retransmitHandshakeTimeout :: "Device \<Rightarrow> int \<times> Device" where
  "retransmitHandshakeTimeout dev =
     (let t = t_rekeyTimeoutSec (d_timings dev)
      in if \<not> range_IsZero t then let (w, dev) = pick_one t dev in (seconds_of w, dev)
         else (RekeyTimeout, dev))"

definition sendKeepaliveTimeout :: "Device \<Rightarrow> int \<times> Device" where
  "sendKeepaliveTimeout dev =
     (let t = t_keepaliveTimeoutSec (d_timings dev)
      in if \<not> range_IsZero t then let (w, dev) = pick_one t dev in (seconds_of w, dev)
         else (KeepaliveTimeout, dev))"

definition newHandshakeTimeout :: "Device \<Rightarrow> int \<times> Device" where
  "newHandshakeTimeout dev =
     (let t = t_keepaliveTimeoutSec (d_timings dev);
          keepaliveTimeout = (if \<not> range_IsZero t then seconds_of (Hi t) else KeepaliveTimeout);
          (rekeyTimeout, dev) = retransmitHandshakeTimeout dev
      in (wrap64 (keepaliveTimeout + rekeyTimeout), dev))"

definition keyRefreshTimeoutSending :: "Device \<Rightarrow> int \<times> Device" where
  "keyRefreshTimeoutSending dev =
     (let t = t_rekeyAfterTimeSec (d_timings dev)
      in if \<not> range_IsZero t then let (w, dev) = pick_one t dev in (seconds_of w, dev)
         else (RekeyAfterTime, dev))"

definition keyRefreshTimeoutReceiving :: "Device \<Rightarrow> int \<times> Device" where
  "keyRefreshTimeoutReceiving dev =
     (let rejectT = t_rejectAfterTimeSec (d_timings dev);
          keepT = t_keepaliveTimeoutSec (d_timings dev);
          rekeyT = t_rekeyTimeoutSec (d_timings dev);
          (rejectAfterTime, dev) =
            (if \<not> range_IsZero rejectT then let (w, dev) = pick_one rejectT dev in (seconds_of w, dev)
             else (RejectAfterTime, dev));
          keepaliveTimeout = (if \<not> range_IsZero keepT then seconds_of (Lo keepT) else KeepaliveTimeout);
          rekeyTimeout = (if \<not> range_IsZero rekeyT then seconds_of (Lo rekeyT) else RekeyTimeout)
      in (max 0 (wrap64 (rejectAfterTime - keepaliveTimeout - rekeyTimeout)), dev))"

definition keychainExpireTime :: "Device \<Rightarrow> int" where
  "keychainExpireTime dev =
     (let t = t_rejectAfterTimeSec (d_timings dev)
      in if \<not> range_IsZero t then seconds_of (Hi t) else RejectAfterTime)"

definition rekeyMinTimeout :: "Device \<Rightarrow> int" where
  "rekeyMinTimeout dev =
     (let t = t_rekeyTimeoutSec (d_timings dev)
      in if \<not> range_IsZero t then seconds_of (Lo t) else RekeyTimeout)"

definition maxHandshakeAttemps :: "Device \<Rightarrow> u32 \<times> Device" where
  "maxHandshakeAttemps dev =
     (let t = t_maxHandshakeAttemps (d_timings dev)
      in if \<not> range_IsZero t then pick_one t dev else (MaxTimerHandshakes, dev))"

subsection \<open>The hooks\<close>

definition isUp :: "Device \<Rightarrow> bool" where
  "isUp dev \<longleftrightarrow> d_state dev = deviceStateUp"

definition isClosed :: "Device \<Rightarrow> bool" where
  "isClosed dev \<longleftrightarrow> d_state dev = deviceStateClosed"

definition timersActive :: "nat \<Rightarrow> Device \<Rightarrow> bool" where
  "timersActive p dev \<longleftrightarrow> p_isRunning (d_peers dev p) \<and> isUp dev"

abbreviation timers :: "Device \<Rightarrow> nat \<Rightarrow> Timers" where
  "timers dev p \<equiv> p_timers (d_peers dev p)"

definition jitter :: "Device \<Rightarrow> int \<times> Device" where
  "jitter dev = (let (w, dev) = rand_word dev in (uint (fastrandn w RekeyTimeoutJitterMaxMs) * 1000000, dev))"

definition timersDataSent :: "nat \<Rightarrow> Device \<Rightarrow> Device" where
  "timersDataSent p dev =
     (if timersActive p dev \<and> \<not> IsPending (ts_newHandshake (timers dev p)) then
        let (d, dev) = newHandshakeTimeout dev; (j, dev) = jitter dev
        in upd_timers p (\<lambda>ts. ts\<lparr>ts_newHandshake := Mod (now dev) (wrap64 (d + j)) (ts_newHandshake ts)\<rparr>) dev
      else dev)"

definition timersDataReceived :: "nat \<Rightarrow> Device \<Rightarrow> Device" where
  "timersDataReceived p dev =
     (if timersActive p dev then
        if \<not> IsPending (ts_sendKeepalive (timers dev p)) then
          let (d, dev) = sendKeepaliveTimeout dev
          in upd_timers p (\<lambda>ts. ts\<lparr>ts_sendKeepalive := Mod (now dev) d (ts_sendKeepalive ts)\<rparr>) dev
        else upd_timers p (\<lambda>ts. ts\<lparr>ts_needAnotherKeepalive := True\<rparr>) dev
      else dev)"

definition timersAnyAuthenticatedPacketSent :: "nat \<Rightarrow> Device \<Rightarrow> Device" where
  "timersAnyAuthenticatedPacketSent p dev =
     (if timersActive p dev
      then upd_timers p (\<lambda>ts. ts\<lparr>ts_sendKeepalive := Del (ts_sendKeepalive ts)\<rparr>) dev else dev)"

definition timersAnyAuthenticatedPacketReceived :: "nat \<Rightarrow> Device \<Rightarrow> Device" where
  "timersAnyAuthenticatedPacketReceived p dev =
     (if timersActive p dev
      then upd_timers p (\<lambda>ts. ts\<lparr>ts_newHandshake := Del (ts_newHandshake ts)\<rparr>) dev else dev)"

definition timersHandshakeInitiated :: "nat \<Rightarrow> Device \<Rightarrow> Device" where
  "timersHandshakeInitiated p dev =
     (if timersActive p dev then
        let (d, dev) = retransmitHandshakeTimeout dev; (j, dev) = jitter dev
        in upd_timers p (\<lambda>ts. ts\<lparr>ts_retransmitHandshake := Mod (now dev) (wrap64 (d + j)) (ts_retransmitHandshake ts)\<rparr>) dev
      else dev)"

definition timersHandshakeComplete :: "nat \<Rightarrow> Device \<Rightarrow> Device" where
  "timersHandshakeComplete p dev =
     (let dev = (if timersActive p dev
                 then upd_timers p (\<lambda>ts. ts\<lparr>ts_retransmitHandshake := Del (ts_retransmitHandshake ts)\<rparr>) dev else dev);
          (m, dev) = maxHandshakeAttemps dev;
          dev = upd_timers p (\<lambda>ts. ts\<lparr>ts_handshakeAttempts := 0, ts_maxHandshakeAttempts := m,
                  ts_sentLastMinuteHandshake := False\<rparr>) dev
      in upd_peer p (\<lambda>peer. peer\<lparr>p_lastHandshakeNano := now dev\<rparr>) dev)"

definition timersSessionDerived :: "nat \<Rightarrow> Device \<Rightarrow> Device" where
  "timersSessionDerived p dev =
     (if timersActive p dev
      then upd_timers p (\<lambda>ts. ts\<lparr>ts_zeroKeyMaterial :=
             Mod (now dev) (wrap64 (keychainExpireTime dev * 3)) (ts_zeroKeyMaterial ts)\<rparr>) dev
      else dev)"

definition timersAnyAuthenticatedPacketTraversal :: "nat \<Rightarrow> Device \<Rightarrow> Device" where
  "timersAnyAuthenticatedPacketTraversal p dev =
     (let keepalive = p_persistentKeepaliveInterval (d_peers dev p)
      in if \<not> range_IsZero keepalive \<and> timersActive p dev then
           let (w, dev) = pick_one keepalive dev
           in upd_timers p (\<lambda>ts. ts\<lparr>ts_persistentKeepalive := Mod (now dev) (seconds_of w) (ts_persistentKeepalive ts)\<rparr>) dev
         else dev)"

definition timersInit :: Timers where
  "timersInit =
     \<lparr>ts_retransmitHandshake = NewTimer, ts_sendKeepalive = NewTimer, ts_newHandshake = NewTimer,
      ts_zeroKeyMaterial = NewTimer, ts_persistentKeepalive = NewTimer, ts_handshakeAttempts = 0,
      ts_maxHandshakeAttempts = 0, ts_needAnotherKeepalive = False, ts_sentLastMinuteHandshake = False\<rparr>"

definition timersStart :: "nat \<Rightarrow> Device \<Rightarrow> Device" where
  "timersStart p dev =
     (let (m, dev) = maxHandshakeAttemps dev
      in upd_timers p (\<lambda>ts. ts\<lparr>ts_handshakeAttempts := 0, ts_maxHandshakeAttempts := m,
           ts_sentLastMinuteHandshake := False, ts_needAnotherKeepalive := False\<rparr>) dev)"

definition timersStop :: "nat \<Rightarrow> Device \<Rightarrow> Device" where
  "timersStop p = upd_timers p (\<lambda>ts. ts\<lparr>
      ts_retransmitHandshake := DelSync (ts_retransmitHandshake ts),
      ts_sendKeepalive := DelSync (ts_sendKeepalive ts),
      ts_newHandshake := DelSync (ts_newHandshake ts),
      ts_zeroKeyMaterial := DelSync (ts_zeroKeyMaterial ts),
      ts_persistentKeepalive := DelSync (ts_persistentKeepalive ts)\<rparr>)"

end
