(* ===== verification/PeerOps.thy ===== *)
theory PeerOps
  imports NoiseProtocol Timers
begin

text \<open>
  The operations of src/device/peer.go: creating, starting and stopping a peer, its endpoint, the
  removal of its keys, and its printed name. \<open>Stop\<close> first waits for the peer's two routines to work
  off their queues; the step here is what it does then.
\<close>

definition MaxPeers :: nat where
  "MaxPeers = 2 ^ 16"

definition RejectAfterMessages :: u64 where
  "RejectAfterMessages = of_int (2 ^ 64 - 2 ^ 13 - 1)"

definition RekeyAfterMessages :: u64 where
  "RekeyAfterMessages = 2 ^ 60"

datatype peer_error = DeviceClosed | TooManyPeers | ExistingPeer

definition zero_peer :: Peer where
  "zero_peer =
     \<lparr>p_isRunning = False, p_keypairs = \<lparr>ks_current = None, ks_previous = None, ks_next = None\<rparr>,
      p_handshake = zero_handshake, p_txBytes = 0, p_rxBytes = 0, p_lastHandshakeNano = 0,
      p_endpoint = None, p_clearSrcOnTx = False, p_disableRoaming = False, p_timers = timersInit,
      p_staged = [], p_outbound = [], p_inbound = [], p_cookieGenerator = zero_generator,
      p_persistentKeepaliveInterval = 0\<rparr>"

definition NewPeer :: "Crypto \<Rightarrow> bytes \<Rightarrow> Device \<Rightarrow> Device \<times> (peer_error + nat)" where
  "NewPeer C pk dev =
     (if isClosed dev then (dev, Inl DeviceClosed)
      else if length (d_keyMap dev) \<ge> MaxPeers then (dev, Inl TooManyPeers)
      else if LookupPeer pk dev \<noteq> None then (dev, Inl ExistingPeer)
      else
      let p = d_nextPeer dev;
          peer = zero_peer\<lparr>p_cookieGenerator := generator_Init C zero_generator pk,
            p_handshake := zero_handshake\<lparr>hs_precomputedStaticStatic := scalar_mult C (d_privateKey dev) pk,
              hs_remoteStatic := pk\<rparr>\<rparr>
      in (dev\<lparr>d_nextPeer := p + 1, d_peers := (d_peers dev)(p := peer), d_keyMap := (pk, p) # d_keyMap dev\<rparr>,
          Inr p))"

datatype send_error = NoEndpoint | BindFailed send_result | CreateFailed noise_fail | ReplyFailed | SessionFailed noise_fail

definition ClearSrc :: "Endpoint \<Rightarrow> Endpoint" where
  "ClearSrc e = e\<lparr>ep_src := []\<rparr>"

definition bind_Send :: "bytes list \<Rightarrow> Endpoint \<Rightarrow> Device \<Rightarrow> Device \<times> send_result" where
  "bind_Send buffers e dev =
     (let dev' = dev\<lparr>d_sent := d_sent dev @ [(buffers, e)]\<rparr>
      in case e_sends (d_env dev) of
           [] \<Rightarrow> (dev', SendOk)
         | r # rs \<Rightarrow> (dev'\<lparr>d_env := (d_env dev')\<lparr>e_sends := rs\<rparr>\<rparr>, r))"

definition SendBuffers :: "nat \<Rightarrow> bytes list \<Rightarrow> Device \<Rightarrow> Device \<times> (send_error + unit)" where
  "SendBuffers p buffers dev =
     (if isClosed dev then (dev, Inr ())
      else case p_endpoint (d_peers dev p) of
        None \<Rightarrow> (dev, Inl NoEndpoint)
      | Some e \<Rightarrow>
          let (dev, e) =
                (if p_clearSrcOnTx (d_peers dev p)
                 then (upd_peer p (\<lambda>peer. peer\<lparr>p_endpoint := Some (ClearSrc e), p_clearSrcOnTx := False\<rparr>) dev, ClearSrc e)
                 else (dev, e));
              (dev, r) = bind_Send buffers e dev
          in if r = SendOk
             then (upd_peer p (\<lambda>peer. peer\<lparr>p_txBytes := p_txBytes peer + sum_list (map (of_nat \<circ> length) buffers)\<rparr>) dev, Inr ())
             else (dev, Inl (BindFailed r)))"

definition Start :: "nat \<Rightarrow> Device \<Rightarrow> Device" where
  "Start p dev =
     (if isClosed dev then dev
      else if p_isRunning (d_peers dev p) then dev
      else
      let dev = upd_handshake p (\<lambda>h. h\<lparr>hs_lastSentHandshake := now dev - (rekeyMinTimeout dev + second)\<rparr>) dev;
          dev = timersStart p dev
      in upd_peer p (\<lambda>peer. peer\<lparr>p_inbound := [], p_outbound := [], p_isRunning := True\<rparr>) dev)"

definition FlushStagedPackets :: "nat \<Rightarrow> Device \<Rightarrow> Device" where
  "FlushStagedPackets p = upd_peer p (\<lambda>peer. peer\<lparr>p_staged := []\<rparr>)"

definition ZeroAndFlushAll :: "nat \<Rightarrow> Device \<Rightarrow> Device" where
  "ZeroAndFlushAll p dev =
     (let ks = p_keypairs (d_peers dev p);
          dev = DeleteKeypair (ks_previous ks) dev;
          dev = DeleteKeypair (ks_current ks) dev;
          dev = DeleteKeypair (ks_next ks) dev;
          dev = upd_keypairs p (\<lambda>ks. ks\<lparr>ks_previous := None, ks_current := None, ks_next := None\<rparr>) dev;
          dev = index_Delete (hs_localIndex (handshake dev p)) dev;
          dev = upd_handshake p Clear dev
      in FlushStagedPackets p dev)"

definition spend :: "nat option \<Rightarrow> Device \<Rightarrow> Device" where
  "spend kp dev =
     (case kp of None \<Rightarrow> dev | Some k \<Rightarrow> upd_keypair k (\<lambda>kp. kp\<lparr>kp_sendNonce := RejectAfterMessages\<rparr>) dev)"

definition ExpireCurrentKeypairs :: "nat \<Rightarrow> Device \<Rightarrow> Device" where
  "ExpireCurrentKeypairs p dev =
     (let dev = index_Delete (hs_localIndex (handshake dev p)) dev;
          dev = upd_handshake p (\<lambda>h. (Clear h)\<lparr>hs_lastSentHandshake := now dev - (rekeyMinTimeout dev + second)\<rparr>) dev;
          dev = spend (ks_current (p_keypairs (d_peers dev p))) dev
      in spend (ks_next (p_keypairs (d_peers dev p))) dev)"

definition Stop :: "nat \<Rightarrow> Device \<Rightarrow> Device" where
  "Stop p dev =
     (if \<not> p_isRunning (d_peers dev p) then dev
      else
      let dev = upd_peer p (\<lambda>peer. peer\<lparr>p_isRunning := False\<rparr>) dev;
          dev = timersStop p dev
      in ZeroAndFlushAll p dev)"

definition SetEndpointFromPacket :: "nat \<Rightarrow> Endpoint \<Rightarrow> Device \<Rightarrow> Device" where
  "SetEndpointFromPacket p e dev =
     (if p_disableRoaming (d_peers dev p) then dev
      else upd_peer p (\<lambda>peer. peer\<lparr>p_clearSrcOnTx := False, p_endpoint := Some e\<rparr>) dev)"

definition markEndpointSrcForClearing :: "nat \<Rightarrow> Device \<Rightarrow> Device" where
  "markEndpointSrcForClearing p dev =
     (if p_endpoint (d_peers dev p) = None then dev
      else upd_peer p (\<lambda>peer. peer\<lparr>p_clearSrcOnTx := True\<rparr>) dev)"

subsection \<open>The printed name\<close>

text \<open>The branch-free base64 digit of \<open>Peer.String\<close>; \<open>>>\<close> on an \<open>int\<close> is arithmetic.\<close>

definition b64 :: "byte \<Rightarrow> byte" where
  "b64 input =
     (let i = uint input
      in input + 65 + of_int (drop_bit 8 (25 - i) AND 6) - of_int (drop_bit 8 (51 - i) AND 75)
           - of_int (drop_bit 8 (61 - i) AND 15) + of_int (drop_bit 8 (62 - i) AND 3))"

definition peer_String :: "bytes \<Rightarrow> bytes \<times> bytes" where
  "peer_String src =
     ([b64 (drop_bit 2 (src ! 0) AND 63),
       b64 ((push_bit 4 (src ! 0) OR drop_bit 4 (src ! 1)) AND 63),
       b64 ((push_bit 2 (src ! 1) OR drop_bit 6 (src ! 2)) AND 63),
       b64 ((src ! 2) AND 63)],
      [b64 ((src ! 29) AND 63),
       b64 (drop_bit 2 (src ! 30) AND 63),
       b64 ((push_bit 4 (src ! 30) OR drop_bit 4 (src ! 31)) AND 63),
       b64 (push_bit 2 (src ! 31) AND 63)])"

subsection \<open>A device without peers\<close>

definition zero_device :: "Env \<Rightarrow> Device" where
  "zero_device env =
     \<lparr>d_state = deviceStateDown, d_bindOpen = False, d_port = 0, d_fwmark = 0, d_brokenRoaming = False,
      d_privateKey = replicate 32 0, d_publicKey = replicate 32 0, d_keyMap = [], d_underLoadUntil = 0,
      d_limiter = zero_ratelimiter, d_allowedips = empty_AllowedIPs, d_indexTable = Map.empty,
      d_cookieChecker = zero_checker, d_handshakeQueue = [], d_mtu = 0,
      d_junk = \<lparr>j_min = 0, j_max = 0, j_count = 0\<rparr>,
      d_headers = \<lparr>h_init = 0, h_cookie = 0, h_response = 0, h_transport = 0\<rparr>,
      d_paddings = \<lparr>s_init = 0, s_response = 0, s_cookie = 0, s_transport = 0\<rparr>,
      d_ipackets = replicate 5 None, d_headerKey = replicate 32 0, d_contentPaddingAddition = 0,
      d_timings = \<lparr>t_rekeyAfterTimeSec = 0, t_rekeyTimeoutSec = 0, t_rejectAfterTimeSec = 0,
        t_keepaliveTimeoutSec = 0, t_maxHandshakeAttemps = 0\<rparr>,
      d_peers = (\<lambda>_. zero_peer), d_nextPeer = 0, d_keypairs = (\<lambda>_. new_keypair [] [] False 0 zero_handshake),
      d_nextKeypair = 0, d_env = env, d_sent = [], d_written = [], d_panicked = False, d_starved = False\<rparr>"

end
