(* ===== verification/DeviceLemmas.thy ===== *)
theory DeviceLemmas
  imports PeerOps
begin

text \<open>
  What the small steps of a device change: the fields after an update of a peer, after a deletion
  in the index table and after a draw from the world.
\<close>

text \<open>An update of one peer or one keypair leaves the other fields alone.\<close>

lemma upd_peer_fields [simp]:
  "d_state (upd_peer p f dev) = d_state dev"
  "d_bindOpen (upd_peer p f dev) = d_bindOpen dev"
  "d_port (upd_peer p f dev) = d_port dev"
  "d_fwmark (upd_peer p f dev) = d_fwmark dev"
  "d_brokenRoaming (upd_peer p f dev) = d_brokenRoaming dev"
  "d_privateKey (upd_peer p f dev) = d_privateKey dev"
  "d_publicKey (upd_peer p f dev) = d_publicKey dev"
  "d_keyMap (upd_peer p f dev) = d_keyMap dev"
  "d_underLoadUntil (upd_peer p f dev) = d_underLoadUntil dev"
  "d_limiter (upd_peer p f dev) = d_limiter dev"
  "d_allowedips (upd_peer p f dev) = d_allowedips dev"
  "d_indexTable (upd_peer p f dev) = d_indexTable dev"
  "d_cookieChecker (upd_peer p f dev) = d_cookieChecker dev"
  "d_handshakeQueue (upd_peer p f dev) = d_handshakeQueue dev"
  "d_mtu (upd_peer p f dev) = d_mtu dev"
  "d_junk (upd_peer p f dev) = d_junk dev"
  "d_headers (upd_peer p f dev) = d_headers dev"
  "d_paddings (upd_peer p f dev) = d_paddings dev"
  "d_ipackets (upd_peer p f dev) = d_ipackets dev"
  "d_headerKey (upd_peer p f dev) = d_headerKey dev"
  "d_contentPaddingAddition (upd_peer p f dev) = d_contentPaddingAddition dev"
  "d_timings (upd_peer p f dev) = d_timings dev"
  "d_nextPeer (upd_peer p f dev) = d_nextPeer dev"
  "d_keypairs (upd_peer p f dev) = d_keypairs dev"
  "d_nextKeypair (upd_peer p f dev) = d_nextKeypair dev"
  "d_env (upd_peer p f dev) = d_env dev"
  "d_sent (upd_peer p f dev) = d_sent dev"
  "d_written (upd_peer p f dev) = d_written dev"
  "d_panicked (upd_peer p f dev) = d_panicked dev"
  "d_starved (upd_peer p f dev) = d_starved dev"
  "d_peers (upd_peer p f dev) q = (if q = p then f (d_peers dev p) else d_peers dev q)"
  by (simp_all add: upd_peer_def)

lemma upd_keypair_fields [simp]:
  "d_state (upd_keypair k g dev) = d_state dev"
  "d_bindOpen (upd_keypair k g dev) = d_bindOpen dev"
  "d_port (upd_keypair k g dev) = d_port dev"
  "d_fwmark (upd_keypair k g dev) = d_fwmark dev"
  "d_brokenRoaming (upd_keypair k g dev) = d_brokenRoaming dev"
  "d_privateKey (upd_keypair k g dev) = d_privateKey dev"
  "d_publicKey (upd_keypair k g dev) = d_publicKey dev"
  "d_keyMap (upd_keypair k g dev) = d_keyMap dev"
  "d_underLoadUntil (upd_keypair k g dev) = d_underLoadUntil dev"
  "d_limiter (upd_keypair k g dev) = d_limiter dev"
  "d_allowedips (upd_keypair k g dev) = d_allowedips dev"
  "d_indexTable (upd_keypair k g dev) = d_indexTable dev"
  "d_cookieChecker (upd_keypair k g dev) = d_cookieChecker dev"
  "d_handshakeQueue (upd_keypair k g dev) = d_handshakeQueue dev"
  "d_mtu (upd_keypair k g dev) = d_mtu dev"
  "d_junk (upd_keypair k g dev) = d_junk dev"
  "d_headers (upd_keypair k g dev) = d_headers dev"
  "d_paddings (upd_keypair k g dev) = d_paddings dev"
  "d_ipackets (upd_keypair k g dev) = d_ipackets dev"
  "d_headerKey (upd_keypair k g dev) = d_headerKey dev"
  "d_contentPaddingAddition (upd_keypair k g dev) = d_contentPaddingAddition dev"
  "d_timings (upd_keypair k g dev) = d_timings dev"
  "d_peers (upd_keypair k g dev) = d_peers dev"
  "d_nextPeer (upd_keypair k g dev) = d_nextPeer dev"
  "d_nextKeypair (upd_keypair k g dev) = d_nextKeypair dev"
  "d_env (upd_keypair k g dev) = d_env dev"
  "d_sent (upd_keypair k g dev) = d_sent dev"
  "d_written (upd_keypair k g dev) = d_written dev"
  "d_panicked (upd_keypair k g dev) = d_panicked dev"
  "d_starved (upd_keypair k g dev) = d_starved dev"
  "d_keypairs (upd_keypair k g dev) l = (if l = k then g (d_keypairs dev k) else d_keypairs dev l)"
  by (simp_all add: upd_keypair_def)

lemma upd_handshake_fields [simp]:
  "d_indexTable (upd_handshake p f dev) = d_indexTable dev"
  "d_keypairs (upd_handshake p f dev) = d_keypairs dev"
  "d_nextKeypair (upd_handshake p f dev) = d_nextKeypair dev"
  "d_env (upd_handshake p f dev) = d_env dev"
  "p_keypairs (d_peers (upd_handshake p f dev) q) = p_keypairs (d_peers dev q)"
  "handshake (upd_handshake p f dev) q = (if q = p then f (handshake dev p) else handshake dev q)"
  by (simp_all add: upd_handshake_def upd_peer_def)

lemma upd_keypairs_fields [simp]:
  "d_indexTable (upd_keypairs p g dev) = d_indexTable dev"
  "d_keypairs (upd_keypairs p g dev) = d_keypairs dev"
  "d_nextKeypair (upd_keypairs p g dev) = d_nextKeypair dev"
  "d_env (upd_keypairs p g dev) = d_env dev"
  "p_keypairs (d_peers (upd_keypairs p g dev) q) =
     (if q = p then g (p_keypairs (d_peers dev p)) else p_keypairs (d_peers dev q))"
  "handshake (upd_keypairs p g dev) q = handshake dev q"
  by (simp_all add: upd_keypairs_def upd_peer_def)

lemma index_Delete_fields [simp]:
  "d_indexTable (index_Delete i dev) = (d_indexTable dev)(i := None)"
  "d_keypairs (index_Delete i dev) = d_keypairs dev" "d_nextKeypair (index_Delete i dev) = d_nextKeypair dev"
  "d_env (index_Delete i dev) = d_env dev" "d_peers (index_Delete i dev) = d_peers dev"
  by (simp_all add: index_Delete_def)

lemma DeleteKeypair_fields [simp]:
  "d_keypairs (DeleteKeypair kp dev) = d_keypairs dev" "d_nextKeypair (DeleteKeypair kp dev) = d_nextKeypair dev"
  "d_env (DeleteKeypair kp dev) = d_env dev" "d_peers (DeleteKeypair kp dev) = d_peers dev"
  by (simp_all add: DeleteKeypair_def split: option.splits)

text \<open>Draws of bytes and words change only what the world still supplies of them.\<close>

lemma rand_Read_shape:
  assumes "rand_Read n dev = (b, dev')"
  shows "length b = n \<and> (\<exists>bs. dev' = dev\<lparr>d_env := (d_env dev)\<lparr>e_bytes := bs\<rparr>\<rparr>)"
proof (cases "e_bytes (d_env dev)")
  case Nil
  then have "(d_env dev)\<lparr>e_bytes := []\<rparr> = d_env dev" by (cases "d_env dev") simp
  then have "dev = dev\<lparr>d_env := (d_env dev)\<lparr>e_bytes := []\<rparr>\<rparr>" by simp
  moreover have "length b = n" "dev' = dev" using assms Nil by (auto simp: rand_Read_def)
  ultimately show ?thesis by metis
next
  case (Cons c cs)
  then show ?thesis using assms by (auto simp: rand_Read_def)
qed

lemma pick_one_shape:
  assumes "pick_one r dev = (w, dev')"
  shows "\<exists>rnd ws. w = PickOne r rnd \<and> dev' = dev\<lparr>d_env := (d_env dev)\<lparr>e_words := ws\<rparr>\<rparr>"
proof (cases "e_words (d_env dev)")
  case Nil
  then have "(d_env dev)\<lparr>e_words := []\<rparr> = d_env dev" by (cases "d_env dev") simp
  then have "dev = dev\<lparr>d_env := (d_env dev)\<lparr>e_words := []\<rparr>\<rparr>" by simp
  moreover have "w = PickOne r 0" "dev' = dev" using assms Nil by (auto simp: pick_one_def rand_word_def)
  ultimately show ?thesis by metis
next
  case (Cons c cs)
  then show ?thesis using assms by (auto simp: pick_one_def rand_word_def)
qed

end
