(* ===== verification/IndexInvariant.thy ===== *)
theory IndexInvariant
  imports DeviceLemmas Runs
begin

text \<open>
  The invariant of the index table. The table holds exactly one entry for every peer with a
  handshake in progress and one for every keypair that a peer still holds, each under the index
  that the handshake or the keypair has. Every operation of the handshake keeps it, so a received
  index leads to the handshake or the keypair it was given out for, and to nothing else.

  Index 0 also means \<open>no index\<close> in a handshake, and the source does not keep the random generator from
  drawing it: the entry under 0 can then be that of a handshake which is over, or be deleted for another
  peer. The invariant is about all other indices, whatever is drawn.
\<close>

definition slots :: "Keypairs \<Rightarrow> nat set" where
  "slots ks = set_option (ks_current ks) \<union> set_option (ks_previous ks) \<union> set_option (ks_next ks)"

definition slots_distinct :: "Keypairs \<Rightarrow> bool" where
  "slots_distinct ks \<longleftrightarrow>
     (ks_current ks \<noteq> None \<longrightarrow> ks_current ks \<noteq> ks_previous ks \<and> ks_current ks \<noteq> ks_next ks) \<and>
     (ks_previous ks \<noteq> None \<longrightarrow> ks_previous ks \<noteq> ks_next ks)"

definition entry_h :: "nat \<Rightarrow> IndexTableEntry" where
  "entry_h p = \<lparr>ie_peer = Some p, ie_handshake = Some p, ie_keypair = None\<rparr>"

definition entry_k :: "nat \<Rightarrow> nat \<Rightarrow> IndexTableEntry" where
  "entry_k p k = \<lparr>ie_peer = Some p, ie_handshake = None, ie_keypair = Some k\<rparr>"

lemma entry_inject [simp]:
  "entry_h p = entry_h q \<longleftrightarrow> p = q" "entry_k p k = entry_k q l \<longleftrightarrow> p = q \<and> k = l"
  "entry_h p \<noteq> entry_k q k" "entry_k q k \<noteq> entry_h p"
  by (simp_all add: entry_h_def entry_k_def)

subsection \<open>The table against its owners\<close>

text \<open>
  A view of the device: the table \<open>m\<close>, the local index of each peer's handshake, the keypairs each
  peer holds, and the index of each keypair.
\<close>

definition owners :: "(nat \<Rightarrow> u32) \<Rightarrow> (nat \<Rightarrow> nat set) \<Rightarrow> (nat \<Rightarrow> u32) \<Rightarrow> (u32 \<times> IndexTableEntry) set" where
  "owners loc sl ki = {(loc p, entry_h p) | p. loc p \<noteq> 0} \<union> {(ki k, entry_k p k) | p k. k \<in> sl p}"

definition view_inv ::
  "(u32 \<rightharpoonup> IndexTableEntry) \<Rightarrow> (nat \<Rightarrow> u32) \<Rightarrow> (nat \<Rightarrow> nat set) \<Rightarrow> (nat \<Rightarrow> u32) \<Rightarrow> bool"
where
  "view_inv m loc sl ki \<longleftrightarrow> (\<forall>i e. i \<noteq> 0 \<longrightarrow> (m i = Some e \<longleftrightarrow> (i, e) \<in> owners loc sl ki))"

lemma owners_iff:
  "(i, e) \<in> owners loc sl ki \<longleftrightarrow>
     (\<exists>p. i = loc p \<and> e = entry_h p \<and> i \<noteq> 0) \<or> (\<exists>p k. i = ki k \<and> e = entry_k p k \<and> k \<in> sl p)"
  by (auto simp: owners_def)

lemma view_iff: "view_inv m loc sl ki \<Longrightarrow> i \<noteq> 0 \<Longrightarrow> m i = Some e \<longleftrightarrow> (i, e) \<in> owners loc sl ki"
  by (simp add: view_inv_def)

lemma view_owner:
  assumes "view_inv m loc sl ki"
  shows "loc p \<noteq> 0 \<Longrightarrow> m (loc p) = Some (entry_h p)" "ki k \<noteq> 0 \<Longrightarrow> k \<in> sl p \<Longrightarrow> m (ki k) = Some (entry_k p k)"
  by (auto simp: view_iff [OF assms] owners_iff)

lemma view_entry:
  assumes "view_inv m loc sl ki" "m i = Some e" "i \<noteq> 0"
  obtains (handshake) p where "i = loc p" "e = entry_h p"
    | (keypair) p k where "i = ki k" "e = entry_k p k" "k \<in> sl p"
proof -
  have "(i, e) \<in> owners loc sl ki" using assms(2) by (simp add: view_iff [OF assms(1,3)])
  then show thesis using that by (auto simp: owners_iff)
qed

text \<open>What happens under index 0 does not matter; and the four ways in which the operations change the view.\<close>

lemma view_at_zero: "view_inv (m(0 := x)) loc sl ki \<longleftrightarrow> view_inv m loc sl ki"
  by (auto simp: view_inv_def)

lemma view_cong:
  assumes "view_inv m loc sl ki" "\<And>i. i \<noteq> 0 \<Longrightarrow> m' i = m i"
    and "\<And>i e. i \<noteq> 0 \<Longrightarrow> (i, e) \<in> owners loc' sl' ki' \<longleftrightarrow> (i, e) \<in> owners loc sl ki"
  shows "view_inv m' loc' sl' ki'"
  using assms by (simp add: view_inv_def)

lemma view_clear_local:
  assumes v: "view_inv m loc sl ki"
  shows "view_inv (m(loc p := None)) (loc(p := 0)) sl ki"
proof -
  have "(m(loc p := None)) i = Some e \<longleftrightarrow> (i, e) \<in> owners (loc(p := 0)) sl ki" if nz: "i \<noteq> 0" for i e
  proof
    assume "(m(loc p := None)) i = Some e"
    then have i: "i \<noteq> loc p" and m: "m i = Some e" by (auto split: if_splits)
    from v m nz show "(i, e) \<in> owners (loc(p := 0)) sl ki"
      by (cases rule: view_entry) (use i nz in \<open>auto simp: owners_iff\<close>)
  next
    assume "(i, e) \<in> owners (loc(p := 0)) sl ki"
    then consider q where "i = loc q" "e = entry_h q" "q \<noteq> p"
      | q k where "i = ki k" "e = entry_k q k" "k \<in> sl q"
      by (auto simp: owners_iff split: if_splits)
    then show "(m(loc p := None)) i = Some e"
    proof cases
      case 1
      then have "m i = Some e" using view_owner(1) [OF v, of q] nz by simp
      moreover have "i \<noteq> loc p" using 1 nz calculation view_owner(1) [OF v, of p] by auto
      ultimately show ?thesis by simp
    next
      case 2
      then have "m i = Some e" using view_owner(2) [OF v, of k q] nz by simp
      moreover have "i \<noteq> loc p" using 2 nz calculation view_owner(1) [OF v, of p] by auto
      ultimately show ?thesis by simp
    qed
  qed
  then show ?thesis by (simp add: view_inv_def)
qed

lemma view_insert:
  assumes v: "view_inv m loc sl ki" and i: "m i = None \<or> i = 0"
    and o: "\<And>j e. j \<noteq> 0 \<Longrightarrow> (j, e) \<in> owners loc' sl' ki' \<longleftrightarrow> (j, e) = (i, x) \<or> (j, e) \<in> owners loc sl ki"
  shows "view_inv (m(i \<mapsto> x)) loc' sl' ki'"
proof -
  have no: "(i, e) \<notin> owners loc sl ki" if "i \<noteq> 0" for e using i that by (simp flip: view_iff [OF v that])
  have "(m(i \<mapsto> x)) j = Some e \<longleftrightarrow> (j, e) \<in> owners loc' sl' ki'" if "j \<noteq> 0" for j e
    by (cases "j = i") (use no that in \<open>auto simp: o view_iff [OF v]\<close>)
  then show ?thesis by (simp add: view_inv_def)
qed

lemma view_set_local:
  assumes v: "view_inv m loc sl ki" and "loc p = 0" "m i = None"
  shows "view_inv (m(i \<mapsto> entry_h p)) (loc(p := i)) sl ki"
proof -
  have "(j, e) \<in> owners (loc(p := i)) sl ki \<longleftrightarrow> (j, e) = (i, entry_h p) \<or> (j, e) \<in> owners loc sl ki" if "j \<noteq> 0" for j e
    using assms(2) that by (auto simp: owners_iff)
  then show ?thesis using assms(3) by (intro view_insert [OF v]) simp_all
qed

lemma owners_drop_keypair:
  assumes "k \<in> sl p"
  shows "(i, e) \<in> owners loc (sl(p := sl p - {k})) ki \<longleftrightarrow> (i, e) \<in> owners loc sl ki \<and> e \<noteq> entry_k p k"
proof -
  have "l \<in> (sl(p := sl p - {k})) q \<longleftrightarrow> l \<in> sl q \<and> entry_k q l \<noteq> entry_k p k" for q l
    by auto
  then show ?thesis unfolding owners_iff by auto
qed

lemma view_drop_keypair:
  assumes v: "view_inv m loc sl ki" and k: "k \<in> sl p"
  shows "view_inv (m(ki k := None)) loc (sl(p := sl p - {k})) ki"
proof -
  have at: "i = ki k" if "(i, entry_k p k) \<in> owners loc sl ki" for i
    using that by (auto simp: owners_iff)
  have "(m(ki k := None)) i = Some e \<longleftrightarrow> (i, e) \<in> owners loc sl ki \<and> e \<noteq> entry_k p k" if nz: "i \<noteq> 0" for i e
  proof (cases "i = ki k")
    case True
    then have "m i = Some (entry_k p k)" using view_owner(2) [OF v _ k] nz by simp
    then show ?thesis using True view_iff [OF v nz, of e] by auto
  next
    case False
    then show ?thesis using at by (auto simp: view_iff [OF v nz])
  qed
  then show ?thesis by (simp add: view_inv_def owners_drop_keypair [where sl = sl and p = p, OF k])
qed

lemma view_add_keypair:
  assumes v: "view_inv m loc sl ki" and fresh: "\<And>q. k \<notin> sl q" and "m i = None \<or> i = 0"
  shows "view_inv (m(i \<mapsto> entry_k p k)) loc (sl(p := insert k (sl p))) (ki(k := i))"
proof -
  have "(j, e) \<in> owners loc (sl(p := insert k (sl p))) (ki(k := i)) \<longleftrightarrow>
      (j, e) = (i, entry_k p k) \<or> (j, e) \<in> owners loc sl ki" for j e
  proof
    assume "(j, e) \<in> owners loc (sl(p := insert k (sl p))) (ki(k := i))"
    then consider q where "j = loc q" "e = entry_h q" "j \<noteq> 0"
      | q l where "j = (ki(k := i)) l" "e = entry_k q l" "l \<in> (sl(p := insert k (sl p))) q"
      by (auto simp: owners_iff)
    then show "(j, e) = (i, entry_k p k) \<or> (j, e) \<in> owners loc sl ki"
    proof cases
      case 1
      then show ?thesis by (auto simp: owners_iff)
    next
      case 2
      then show ?thesis using fresh [of q] by (cases "l = k"; cases "q = p") (auto simp: owners_iff)
    qed
  next
    assume "(j, e) = (i, entry_k p k) \<or> (j, e) \<in> owners loc sl ki"
    then consider "j = i" "e = entry_k p k" | q where "j = loc q" "e = entry_h q" "j \<noteq> 0"
      | q l where "j = ki l" "e = entry_k q l" "l \<in> sl q"
      by (auto simp: owners_iff)
    then show "(j, e) \<in> owners loc (sl(p := insert k (sl p))) (ki(k := i))"
    proof cases
      case 3
      then have "l \<noteq> k" "l \<in> (sl(p := insert k (sl p))) q" using fresh by auto
      then show ?thesis using 3 by (auto simp: owners_iff)
    qed (auto simp: owners_iff)
  qed
  then show ?thesis by (intro view_insert [OF v assms(3)])
qed

subsection \<open>The invariant of a device\<close>

abbreviation local_index :: "Device \<Rightarrow> nat \<Rightarrow> u32" where
  "local_index dev \<equiv> \<lambda>p. hs_localIndex (handshake dev p)"

abbreviation held :: "Device \<Rightarrow> nat \<Rightarrow> nat set" where
  "held dev \<equiv> \<lambda>p. slots (p_keypairs (d_peers dev p))"

abbreviation keypair_index :: "Device \<Rightarrow> nat \<Rightarrow> u32" where
  "keypair_index dev \<equiv> \<lambda>k. kp_localIndex (d_keypairs dev k)"

definition index_inv :: "Device \<Rightarrow> bool" where
  "index_inv dev \<longleftrightarrow>
     view_inv (d_indexTable dev) (local_index dev) (held dev) (keypair_index dev) \<and>
     (\<forall>p. slots_distinct (p_keypairs (d_peers dev p))) \<and>
     (\<forall>p. \<forall>k \<in> held dev p. k < d_nextKeypair dev)"

text \<open>Operations that leave all of this alone.\<close>

lemma index_inv_same:
  assumes "index_inv dev" "d_indexTable dev' = d_indexTable dev" "local_index dev' = local_index dev"
    "(\<lambda>p. p_keypairs (d_peers dev' p)) = (\<lambda>p. p_keypairs (d_peers dev p))"
    "keypair_index dev' = keypair_index dev" "d_nextKeypair dev' = d_nextKeypair dev"
  shows "index_inv dev'"
proof -
  have "p_keypairs (d_peers dev' p) = p_keypairs (d_peers dev p)" for p using assms(4) by meson
  then show ?thesis using assms(1-3,5-6) unfolding index_inv_def by auto
qed

subsection \<open>Every operation keeps it\<close>

lemma free_index_Some:
  "free_index tab is = Some (i, is') \<Longrightarrow> tab i = None \<and> i \<in> set is \<and> set is' \<subseteq> set is"
  by (induction "is") (auto split: if_splits)

lemma NewIndex_Some:
  assumes "NewIndexForHandshake p dev = Some (i, dev')"
  obtains is' where "d_indexTable dev i = None" "i \<in> set (e_indices (d_env dev))"
    "set is' \<subseteq> set (e_indices (d_env dev))"
    "dev' = dev\<lparr>d_env := (d_env dev)\<lparr>e_indices := is'\<rparr>, d_indexTable := (d_indexTable dev)(i \<mapsto> entry_h p)\<rparr>"
  using assms that
  by (auto simp: NewIndexForHandshake_def entry_h_def dest!: free_index_Some split: option.splits)

lemma inv_assign:
  assumes inv: "index_inv dev"
    and new: "NewIndexForHandshake p (index_Delete (local_index dev p) dev) = Some (i, dev')"
    and f: "hs_localIndex (f (handshake dev p)) = i"
  shows "index_inv (upd_handshake p f dev')"
proof -
  define D where "D = index_Delete (local_index dev p) dev"
  have tab: "d_indexTable D = (d_indexTable dev)(local_index dev p := None)"
    and D: "d_env D = d_env dev" "d_peers D = d_peers dev" "d_keypairs D = d_keypairs dev" "d_nextKeypair D = d_nextKeypair dev"
    by (simp_all add: D_def)
  obtain is' where i: "d_indexTable D i = None" "i \<in> set (e_indices (d_env D))" "set is' \<subseteq> set (e_indices (d_env D))"
    and dev': "dev' = D\<lparr>d_env := (d_env D)\<lparr>e_indices := is'\<rparr>, d_indexTable := (d_indexTable D)(i \<mapsto> entry_h p)\<rparr>"
    using new unfolding D_def [symmetric] by (rule NewIndex_Some)
  have v: "view_inv (d_indexTable dev) (local_index dev) (held dev) (keypair_index dev)" 
    using inv by (simp add: index_inv_def)
  have "view_inv ((d_indexTable D)(i \<mapsto> entry_h p)) ((local_index dev)(p := 0, p := i)) (held dev) (keypair_index dev)"
    using i(1) unfolding tab by (intro view_set_local view_clear_local [OF v]) simp_all
  moreover have "local_index (upd_handshake p f dev') = (local_index dev)(p := 0, p := i)"
    using f by (simp add: fun_eq_iff dev' D)
  moreover have "held (upd_handshake p f dev') = held dev" "keypair_index (upd_handshake p f dev') = keypair_index dev"
    "d_indexTable (upd_handshake p f dev') = (d_indexTable D)(i \<mapsto> entry_h p)"
    "d_nextKeypair (upd_handshake p f dev') = d_nextKeypair dev"
    "\<And>q. p_keypairs (d_peers (upd_handshake p f dev') q) = p_keypairs (d_peers dev q)"
    by (simp_all add: dev' D)
  ultimately show ?thesis using inv unfolding index_inv_def by simp
qed

lemma seal_localIndex:
  "hs_localIndex (fst (initiation_seal C e pub ts h)) = hs_localIndex h"
  "hs_state (fst (initiation_seal C e pub ts h)) = hs_state h"
  "hs_localIndex (fst (response_seal C e h)) = hs_localIndex h"
  by (simp_all add: initiation_seal_def response_seal_def Let_def hs_mixHash_def hs_mixKey_def split_beta
      split: option.splits)

lemma inv_upd_handshake:
  assumes "index_inv dev" "hs_localIndex (f (handshake dev p)) = local_index dev p"
  shows "index_inv (upd_handshake p f dev)"
  using assms(2) by (intro index_inv_same [OF assms(1)]) (auto simp: fun_eq_iff)

lemma inv_upd_peer:
  assumes "index_inv dev" "p_handshake (f (d_peers dev p)) = handshake dev p"
    "p_keypairs (f (d_peers dev p)) = p_keypairs (d_peers dev p)"
  shows "index_inv (upd_peer p f dev)"
proof -
  have "handshake (upd_peer p f dev) q = handshake dev q" "p_keypairs (d_peers (upd_peer p f dev) q) = p_keypairs (d_peers dev q)" for q
    using assms(2,3) by (simp_all add: upd_peer_def)
  then show ?thesis
    by (intro index_inv_same [OF assms(1)]) (simp_all add: upd_peer_def)
qed

lemma inv_upd_keypair:
  assumes "index_inv dev" "kp_localIndex (f (d_keypairs dev k)) = keypair_index dev k"
  shows "index_inv (upd_keypair k f dev)"
proof -
  have "keypair_index (upd_keypair k f dev) = keypair_index dev"
    using assms(2) by (simp add: upd_keypair_def fun_eq_iff)
  then show ?thesis
    by (intro index_inv_same [OF assms(1)]) (simp_all add: upd_keypair_def)
qed

lemma inv_rand_Read:
  assumes "index_inv dev" "rand_Read n dev = (b, dev')"
  shows "index_inv dev'"
proof -
  obtain bs where "dev' = dev\<lparr>d_env := (d_env dev)\<lparr>e_bytes := bs\<rparr>\<rparr>" using rand_Read_shape [OF assms(2)] by blast
  then show ?thesis by (intro index_inv_same [OF assms(1)]) simp_all
qed

lemma inv_pick_one:
  assumes "index_inv dev" "pick_one r dev = (w, dev')"
  shows "index_inv dev'"
proof -
  obtain ws where "dev' = dev\<lparr>d_env := (d_env dev)\<lparr>e_words := ws\<rparr>\<rparr>" using pick_one_shape [OF assms(2)] by blast
  then show ?thesis by (intro index_inv_same [OF assms(1)]) simp_all
qed

lemma inv_CreateMessageInitiation:
  assumes inv: "index_inv dev" and res: "CreateMessageInitiation C p dev = (dev', r)" and r: "\<not> d_starved dev'"
  shows "index_inv dev'"
proof -
  obtain b dev1 where d1: "rand_Read 32 dev = (b, dev1)" by force
  obtain w dev2 where d2: "pick_one (h_init (d_headers dev1)) dev1 = (w, dev2)" by force
  obtain h x where s: "initiation_seal C (clamp b) (d_publicKey dev2) (stamp (time_of (now dev2))) (handshake dev2 p) = (h, x)"
    by force
  have hl: "hs_localIndex h = local_index dev2 p" "hs_state h = hs_state (handshake dev2 p)"
    using seal_localIndex(1,2) [of C "clamp b"] s by (metis fst_conv)+
  have inv2: "index_inv dev2" by (rule inv_pick_one [OF inv_rand_Read [OF inv d1] d2])
  have inv3: "index_inv (upd_handshake p (\<lambda>_. h) dev2)" using hl by (intro inv_upd_handshake [OF inv2]) simp_all
  show ?thesis
  proof (cases x)
    case (Inl e)
    then show ?thesis using res inv3 by (simp add: CreateMessageInitiation_def d1 d2 s)
  next
    case (Inr y)
    obtain e st ts where y: "y = (e, st, ts)" by (cases y)
    let ?D = "index_Delete (hs_localIndex h) (upd_handshake p (\<lambda>_. h) dev2)"
    obtain i dev4 where n: "NewIndexForHandshake p ?D = Some (i, dev4)"
      using res r by (auto simp: CreateMessageInitiation_def d1 d2 s Inr y Let_def split: option.splits)
    then show ?thesis
      using res inv_assign [OF inv3, of p i dev4 "\<lambda>h. (hs_mixHash C ts (h\<lparr>hs_localIndex := i\<rparr>))\<lparr>hs_state := handshakeInitiationCreated\<rparr>"]
      by (auto simp: CreateMessageInitiation_def d1 d2 s Inr y hs_mixHash_def)
  qed
qed

lemma inv_ConsumeMessageInitiation:
  "index_inv dev \<Longrightarrow> index_inv (fst (ConsumeMessageInitiation C msg dev))"
  by (auto simp: ConsumeMessageInitiation_def Let_def intro!: inv_upd_handshake split: option.splits)

lemma inv_CreateMessageResponse:
  assumes inv: "index_inv dev" and res: "CreateMessageResponse C p dev = (dev', r)" and r: "\<not> d_starved dev'"
  shows "index_inv dev'"
proof (cases "hs_state (handshake dev p) = handshakeInitiationConsumed")
  case False
  then show ?thesis using res inv by (simp add: CreateMessageResponse_def)
next
  case True
  obtain i dev1 where n: "NewIndexForHandshake p (index_Delete (local_index dev p) dev) = Some (i, dev1)"
    using res r True by (auto simp: CreateMessageResponse_def Let_def split: option.splits)
  let ?d2 = "upd_handshake p (\<lambda>h. h\<lparr>hs_localIndex := i\<rparr>) dev1"
  have inv2: "index_inv ?d2" using inv_assign [OF inv n, of "\<lambda>h. h\<lparr>hs_localIndex := i\<rparr>"] by simp
  obtain w dev3 where d3: "pick_one (h_response (d_headers ?d2)) ?d2 = (w, dev3)" by force
  obtain b dev4 where d4: "rand_Read 32 dev3 = (b, dev4)" by force
  obtain h x where s: "response_seal C (clamp b) (handshake dev4 p) = (h, x)" by force
  have inv4: "index_inv dev4" by (rule inv_rand_Read [OF inv_pick_one [OF inv2 d3] d4])
  have "local_index dev4 p = i" using pick_one_shape [OF d3] rand_Read_shape [OF d4] by auto
  then have hl: "hs_localIndex h = i" using seal_localIndex(3) [of C "clamp b" "handshake dev4 p"] s by simp
  then have "index_inv (upd_handshake p (\<lambda>_. h) dev4)"
    using \<open>local_index dev4 p = i\<close> by (intro inv_upd_handshake [OF inv4]) simp
  then show ?thesis
    using res by (auto simp: CreateMessageResponse_def True n d3 d4 s Let_def split: sum.splits)
qed

lemma inv_ConsumeMessageResponse:
  "index_inv dev \<Longrightarrow> index_inv (fst (ConsumeMessageResponse C msg dev))"
  by (auto simp: ConsumeMessageResponse_def Let_def intro!: inv_upd_handshake split: option.splits)

definition del_opt :: "(nat \<Rightarrow> u32) \<Rightarrow> nat option \<Rightarrow> (u32 \<rightharpoonup> IndexTableEntry) \<Rightarrow> (u32 \<rightharpoonup> IndexTableEntry)" where
  "del_opt ki x m = (case x of None \<Rightarrow> m | Some k \<Rightarrow> m(ki k := None))"

lemma del_opt_None [simp]: "del_opt ki None m = m"
  by (simp add: del_opt_def)

lemma DeleteKeypair_table [simp]: "d_indexTable (DeleteKeypair x dev) = del_opt (keypair_index dev) x (d_indexTable dev)"
  by (simp add: DeleteKeypair_def del_opt_def split: option.splits)

lemma view_del_opt:
  "view_inv m loc sl ki \<Longrightarrow> set_option x \<subseteq> sl p \<Longrightarrow> view_inv (del_opt ki x m) loc (sl(p := sl p - set_option x)) ki"
  by (cases x) (simp_all add: del_opt_def view_drop_keypair)

lemma del_opt_twist: "(\<And>k. x = Some k \<Longrightarrow> ki k \<noteq> i) \<Longrightarrow> del_opt ki x (m(i := v)) = (del_opt ki x m)(i := v)"
  by (cases x) (auto simp: del_opt_def)

lemma del_opt_cong: "(\<And>k. x = Some k \<Longrightarrow> ki k = ki' k) \<Longrightarrow> del_opt ki x m = del_opt ki' x m"
  by (cases x) (auto simp: del_opt_def)

lemma view_session:
  assumes v: "view_inv m loc sl ki" and fresh: "\<And>q. kp \<notin> sl q"
    and T: "loc p \<noteq> 0 \<Longrightarrow> T = m(loc p \<mapsto> entry_k p kp)" "\<And>j. loc p = 0 \<Longrightarrow> j \<noteq> 0 \<Longrightarrow> T j = m j"
    and xy: "set_option x \<subseteq> sl p" "set_option y \<subseteq> sl p - set_option x"
  shows "view_inv (del_opt (ki(kp := loc p)) y (del_opt (ki(kp := loc p)) x T))
     (loc(p := 0)) (sl(p := insert kp (sl p - set_option x - set_option y))) (ki(kp := loc p))"
proof -
  let ?m1 = "m(loc p := None)" let ?sl1 = "sl(p := sl p - set_option x)"
  let ?m3 = "del_opt ki y (del_opt ki x ?m1)" let ?sl3 = "?sl1(p := ?sl1 p - set_option y)"
  have v1: "view_inv ?m1 (loc(p := 0)) sl ki" by (rule view_clear_local [OF v])
  have "view_inv ?m3 (loc(p := 0)) ?sl3 ki"
    using xy by (intro view_del_opt [OF view_del_opt [OF v1]]) simp_all
  moreover have "?m3 (loc p) = None" by (cases x; cases y) (simp_all add: del_opt_def)
  ultimately have v3: "view_inv (?m3(loc p \<mapsto> entry_k p kp)) (loc(p := 0)) (?sl3(p := insert kp (?sl3 p))) (ki(kp := loc p))"
    using fresh by (intro view_add_keypair) auto
  have new: "k \<noteq> kp" if "x = Some k \<or> y = Some k" for k using that xy fresh [of p] by auto
  have same: "del_opt (ki(kp := loc p)) y (del_opt (ki(kp := loc p)) x T) = del_opt ki y (del_opt ki x T)"
    using new by (simp add: del_opt_cong [of x "ki(kp := loc p)" ki] del_opt_cong [of y "ki(kp := loc p)" ki])
  have "(del_opt ki y (del_opt ki x T)) j = (?m3(loc p \<mapsto> entry_k p kp)) j" if nz: "j \<noteq> 0" for j
  proof (cases "loc p = 0")
    case True
    then show ?thesis using T(2) [OF True nz] nz by (cases x; cases y) (simp_all add: del_opt_def)
  next
    case False
    have "ki k \<noteq> loc p" if "k \<in> sl p" for k
      using view_owner(1) [OF v False] view_owner(2) [OF v _ that] False by fastforce
    then have "ki k \<noteq> loc p" if "x = Some k \<or> y = Some k" for k using that xy by auto
    then show ?thesis using T(1) [OF False] by (simp add: del_opt_twist)
  qed
  then have "view_inv (del_opt ki y (del_opt ki x T)) (loc(p := 0)) (?sl3(p := insert kp (?sl3 p))) (ki(kp := loc p))"
    by (rule view_cong [OF v3]) simp_all
  then show ?thesis by (simp add: same)
qed

text \<open>The rotation: which keypairs leave, and what the slots become.\<close>

definition rotated :: "nat \<Rightarrow> bool \<Rightarrow> Keypairs \<Rightarrow> Keypairs" where
  "rotated kp isInitiator ks =
     (if isInitiator then
        if ks_next ks \<noteq> None then \<lparr>ks_current = Some kp, ks_previous = ks_next ks, ks_next = None\<rparr>
        else \<lparr>ks_current = Some kp, ks_previous = ks_current ks, ks_next = None\<rparr>
      else \<lparr>ks_current = ks_current ks, ks_previous = None, ks_next = Some kp\<rparr>)"

definition leaving :: "bool \<Rightarrow> Keypairs \<Rightarrow> nat option" where
  "leaving isInitiator ks =
     (if isInitiator then if ks_next ks \<noteq> None then ks_current ks else None else ks_next ks)"

lemma rotate_fields:
  fixes dev p kp isI
  defines "ks \<equiv> p_keypairs (d_peers dev p)"
  shows "d_indexTable (rotate p kp isI dev) =
      del_opt (keypair_index dev) (ks_previous ks) (del_opt (keypair_index dev) (leaving isI ks) (d_indexTable dev))"
    "p_keypairs (d_peers (rotate p kp isI dev) q) = (if q = p then rotated kp isI ks else p_keypairs (d_peers dev q))"
    "handshake (rotate p kp isI dev) q = handshake dev q" "d_keypairs (rotate p kp isI dev) = d_keypairs dev"
    "d_nextKeypair (rotate p kp isI dev) = d_nextKeypair dev" "d_env (rotate p kp isI dev) = d_env dev"
  unfolding ks_def
  by (cases isI; cases "ks_next (p_keypairs (d_peers dev p))";
      simp add: rotate_def rotated_def leaving_def Let_def)+

lemma rotated_slots:
  assumes "slots_distinct ks" "kp \<notin> slots ks"
  shows "slots (rotated kp isI ks) = insert kp (slots ks - set_option (leaving isI ks) - set_option (ks_previous ks))"
    "slots_distinct (rotated kp isI ks)"
    "set_option (leaving isI ks) \<subseteq> slots ks" "set_option (ks_previous ks) \<subseteq> slots ks - set_option (leaving isI ks)"
  using assms by (auto simp: slots_def slots_distinct_def rotated_def leaving_def)

text \<open>A session that begins, before the rotation and after it: what its index in the table then leads to.\<close>

definition swapped :: "nat \<Rightarrow> Device \<Rightarrow> (u32 \<rightharpoonup> IndexTableEntry)" where
  "swapped p dev =
     (case d_indexTable dev (local_index dev p) of
        None \<Rightarrow> d_indexTable dev
      | Some e \<Rightarrow> (d_indexTable dev)(local_index dev p \<mapsto>
          \<lparr>ie_peer = ie_peer e, ie_handshake = None, ie_keypair = Some (d_nextKeypair dev)\<rparr>))"

lemma swapped_entry:
  "d_indexTable dev (local_index dev p) = Some (entry_h p) \<Longrightarrow>
     swapped p dev = (d_indexTable dev)(local_index dev p \<mapsto> entry_k p (d_nextKeypair dev))"
  by (simp add: swapped_def entry_h_def entry_k_def)

lemma swapped_other: "j \<noteq> local_index dev p \<Longrightarrow> swapped p dev j = d_indexTable dev j"
  by (simp add: swapped_def split: option.splits)

definition session_started :: "nat \<Rightarrow> Keypair \<Rightarrow> Device \<Rightarrow> Device" where
  "session_started p kp dev =
     upd_handshake p (\<lambda>h. h\<lparr>hs_chainKey := setZero (hs_chainKey h), hs_hash := setZero (hs_hash h),
         hs_localEphemeral := setZero (hs_localEphemeral h), hs_state := handshakeZeroed, hs_localIndex := 0\<rparr>)
       (dev\<lparr>d_nextKeypair := d_nextKeypair dev + 1, d_keypairs := (d_keypairs dev)(d_nextKeypair dev := kp),
         d_indexTable := swapped p dev\<rparr>)"

lemma upd_handshake_commute:
  "(upd_handshake p f dev)\<lparr>d_nextKeypair := n, d_keypairs := kps\<rparr> = upd_handshake p f (dev\<lparr>d_nextKeypair := n, d_keypairs := kps\<rparr>)"
  "(upd_handshake p f dev)\<lparr>d_indexTable := m\<rparr> = upd_handshake p f (dev\<lparr>d_indexTable := m\<rparr>)"
  "upd_handshake p f (upd_handshake p g dev) = upd_handshake p (\<lambda>h. f (g h)) dev"
  by (simp_all add: upd_handshake_def upd_peer_def)

lemma Device_same_table: "dev\<lparr>d_nextKeypair := n, d_keypairs := kps, d_indexTable := d_indexTable dev\<rparr> = dev\<lparr>d_nextKeypair := n, d_keypairs := kps\<rparr>"
  by simp

lemma BeginSymmetricSession_eq:
  assumes keys: "session_keys C (handshake dev p) = Some (sk, rk, isI)"
  shows "BeginSymmetricSession C p dev =
    (rotate p (d_nextKeypair dev) isI
      (session_started p (new_keypair sk rk isI (now dev) (handshake dev p)) dev), Inr ())"
proof -
  have "new_keypair sk rk isI t ((handshake dev p)\<lparr>hs_chainKey := a, hs_hash := b, hs_localEphemeral := c, hs_state := d\<rparr>) =
      new_keypair sk rk isI t (handshake dev p)" for t a b c d
    by (simp add: new_keypair_def)
  then show ?thesis
    by (simp add: BeginSymmetricSession_def keys Let_def session_started_def SwapIndexForKeypair_def swapped_def
        upd_handshake_commute split: option.splits)
qed

lemma session_started_fields:
  fixes dev p kp
  defines "D \<equiv> session_started p kp dev"
  shows "d_indexTable D = swapped p dev"
    "p_keypairs (d_peers D q) = p_keypairs (d_peers dev q)"
    "d_keypairs D = (d_keypairs dev)(d_nextKeypair dev := kp)"
    "d_nextKeypair D = d_nextKeypair dev + 1" "d_env D = d_env dev"
    "local_index D = (local_index dev)(p := 0)"
    "keypair_index D = (keypair_index dev)(d_nextKeypair dev := kp_localIndex kp)"
    "hs_state (handshake D q) = (if q = p then handshakeZeroed else hs_state (handshake dev q))"
  by (auto simp: D_def session_started_def fun_eq_iff)

lemma inv_BeginSymmetricSession:
  assumes inv: "index_inv dev"
  shows "index_inv (fst (BeginSymmetricSession C p dev))"
proof (cases "session_keys C (handshake dev p)")
  case None
  then show ?thesis using inv by (simp add: BeginSymmetricSession_def)
next
  case (Some keys)
  obtain sk rk isI where keys: "keys = (sk, rk, isI)" by (cases keys)
  let ?i = "local_index dev p" and ?kp = "d_nextKeypair dev" and ?ks = "p_keypairs (d_peers dev p)"
  have v: "view_inv (d_indexTable dev) (local_index dev) (held dev) (keypair_index dev)"
    and dis: "slots_distinct ?ks" and less: "\<And>q k. k \<in> held dev q \<Longrightarrow> k < ?kp"
    using inv by (auto simp: index_inv_def)
  have fresh: "\<And>q. ?kp \<notin> held dev q" using less by blast
  note rs = rotated_slots [OF dis fresh [of p], of isI]
  let ?D = "session_started p (new_keypair sk rk isI (now dev) (handshake dev p)) dev"
  define dev' where "dev' = fst (BeginSymmetricSession C p dev)"
  have dev': "dev' = rotate p ?kp isI ?D"
    using BeginSymmetricSession_eq [OF Some [unfolded keys]] by (simp add: dev'_def)
  have kl: "kp_localIndex (new_keypair sk rk isI (now dev) (handshake dev p)) = ?i" by (simp add: new_keypair_def)
  have f: "d_indexTable dev' = del_opt ((keypair_index dev)(?kp := ?i)) (ks_previous ?ks)
      (del_opt ((keypair_index dev)(?kp := ?i)) (leaving isI ?ks) (swapped p dev))"
    "p_keypairs (d_peers dev' q) = (if q = p then rotated ?kp isI ?ks else p_keypairs (d_peers dev q))"
    "local_index dev' = (local_index dev)(p := 0)"
    "keypair_index dev' = (keypair_index dev)(?kp := ?i)" "d_nextKeypair dev' = ?kp + 1" "d_env dev' = d_env dev"
    "hs_state (handshake dev' q) = (if q = p then handshakeZeroed else hs_state (handshake dev q))" for q
    by (simp_all only: dev' rotate_fields session_started_fields(1,2,4-8) kl)
  have "view_inv (d_indexTable dev') ((local_index dev)(p := 0))
      ((held dev)(p := insert ?kp (held dev p - set_option (leaving isI ?ks) - set_option (ks_previous ?ks))))
      ((keypair_index dev)(?kp := ?i))"
    unfolding f(1)
    by (rule view_session [OF v fresh _ _ rs(3,4)]) (use view_owner(1) [OF v, of p] swapped_entry swapped_other in auto)
  moreover have "held dev' = (held dev)(p := insert ?kp (held dev p - set_option (leaving isI ?ks) - set_option (ks_previous ?ks)))"
    by (simp add: fun_eq_iff f(2) rs(1))
  moreover have "\<forall>q. slots_distinct (p_keypairs (d_peers dev' q))" using inv rs(2) by (simp add: f(2) index_inv_def)
  moreover have "\<forall>q. \<forall>k \<in> held dev' q. k < ?kp + 1" using less by (auto simp: f(2) rs(1) intro: less_SucI)
  ultimately show ?thesis using inv unfolding index_inv_def dev'_def [symmetric] f(3-6) by simp
qed

lemma inv_ReceivedWithKeypair:
  assumes inv: "index_inv dev"
  shows "index_inv (fst (ReceivedWithKeypair p kp dev))"
proof (cases "ks_next (p_keypairs (d_peers dev p)) = Some kp")
  case False
  then show ?thesis using inv by (simp add: ReceivedWithKeypair_def)
next
  case True
  let ?ks = "p_keypairs (d_peers dev p)"
  let ?ks' = "\<lparr>ks_current = ks_next ?ks, ks_previous = ks_current ?ks, ks_next = None\<rparr>"
  have v: "view_inv (d_indexTable dev) (local_index dev) (held dev) (keypair_index dev)"
    and dis: "slots_distinct ?ks" using inv by (auto simp: index_inv_def)
  have s: "slots ?ks' = held dev p - set_option (ks_previous ?ks)" "slots_distinct ?ks'"
    "set_option (ks_previous ?ks) \<subseteq> held dev p"
    using dis by (auto simp: slots_def slots_distinct_def)
  define dev' where "dev' = fst (ReceivedWithKeypair p kp dev)"
  have f: "d_indexTable dev' = del_opt (keypair_index dev) (ks_previous ?ks) (d_indexTable dev)"
    "p_keypairs (d_peers dev' q) = (if q = p then ?ks' else p_keypairs (d_peers dev q))"
    "handshake dev' q = handshake dev q" "d_keypairs dev' = d_keypairs dev"
    "d_nextKeypair dev' = d_nextKeypair dev" "d_env dev' = d_env dev" for q
    using True by (simp_all add: dev'_def ReceivedWithKeypair_def Let_def)
  have "view_inv (d_indexTable dev') (local_index dev) ((held dev)(p := held dev p - set_option (ks_previous ?ks))) (keypair_index dev)"
    unfolding f(1) by (rule view_del_opt [OF v s(3)])
  moreover have "held dev' = (held dev)(p := held dev p - set_option (ks_previous ?ks))"
    by (simp add: fun_eq_iff f(2) s(1))
  moreover have "\<forall>q. slots_distinct (p_keypairs (d_peers dev' q))" using inv s(2) by (simp add: f(2) index_inv_def)
  moreover have "\<forall>q. \<forall>k \<in> held dev' q. k < d_nextKeypair dev" using inv by (auto simp: f(2) s(1) index_inv_def)
  ultimately show ?thesis using inv unfolding index_inv_def dev'_def [symmetric] f(3-6) by simp
qed

text \<open>The index of a handshake that is given up.\<close>

lemma inv_clear_handshake:
  assumes inv: "index_inv dev"
    and f: "hs_localIndex (f (handshake dev p)) = 0"
  shows "index_inv (upd_handshake p f (index_Delete (local_index dev p) dev))"
proof -
  define dev' where "dev' = upd_handshake p f (index_Delete (local_index dev p) dev)"
  have v: "view_inv (d_indexTable dev) (local_index dev) (held dev) (keypair_index dev)"
    using inv by (simp add: index_inv_def)
  have "view_inv (d_indexTable dev') ((local_index dev)(p := 0)) (held dev) (keypair_index dev)"
    using view_clear_local [OF v, of p] by (simp add: dev'_def)
  moreover have "local_index dev' = (local_index dev)(p := 0)" using f by (simp add: fun_eq_iff dev'_def)
  moreover have "p_keypairs (d_peers dev' q) = p_keypairs (d_peers dev q)" for q by (simp add: dev'_def)
  moreover have "d_keypairs dev' = d_keypairs dev" "d_nextKeypair dev' = d_nextKeypair dev" "d_env dev' = d_env dev"
    by (simp_all add: dev'_def)
  ultimately show ?thesis using inv unfolding index_inv_def dev'_def [symmetric] by simp
qed

lemma Clear_fields: "hs_localIndex (Clear h) = 0" "hs_state (Clear h) = handshakeZeroed"
  by (simp_all add: Clear_def)

lemma inv_drop_all:
  fixes dev :: Device and p :: nat
  assumes inv: "index_inv dev"
  defines "ks \<equiv> p_keypairs (d_peers dev p)"
  shows "index_inv (upd_keypairs p (\<lambda>ks. ks\<lparr>ks_previous := None, ks_current := None, ks_next := None\<rparr>)
    (DeleteKeypair (ks_next ks) (DeleteKeypair (ks_current ks) (DeleteKeypair (ks_previous ks) dev))))"
    (is "index_inv ?dev'")
proof -
  have v: "view_inv (d_indexTable dev) (local_index dev) (held dev) (keypair_index dev)"
    and dis: "slots_distinct ks" using inv by (auto simp: index_inv_def ks_def)
  let ?s1 = "(held dev)(p := held dev p - set_option (ks_previous ks))"
  let ?s2 = "?s1(p := ?s1 p - set_option (ks_current ks))"
  let ?s3 = "?s2(p := ?s2 p - set_option (ks_next ks))"
  have "set_option (ks_previous ks) \<subseteq> held dev p" "set_option (ks_current ks) \<subseteq> ?s1 p" "set_option (ks_next ks) \<subseteq> ?s2 p"
    using dis by (auto simp: slots_def slots_distinct_def ks_def)
  then have "view_inv (del_opt (keypair_index dev) (ks_next ks) (del_opt (keypair_index dev) (ks_current ks)
      (del_opt (keypair_index dev) (ks_previous ks) (d_indexTable dev)))) (local_index dev) ?s3 (keypair_index dev)"
    by (intro view_del_opt v)
  moreover have "?s3 = (held dev)(p := {})" by (auto simp: fun_eq_iff slots_def ks_def)
  moreover have "held ?dev' = (held dev)(p := {})" by (simp add: fun_eq_iff slots_def)
  moreover have "\<forall>q. slots_distinct (p_keypairs (d_peers ?dev' q))" "\<forall>q. \<forall>k \<in> held ?dev' q. k < d_nextKeypair dev"
    using inv by (auto simp: index_inv_def slots_distinct_def slots_def)
  ultimately show ?thesis using inv unfolding index_inv_def by simp
qed

lemma inv_ZeroAndFlushAll: "index_inv dev \<Longrightarrow> index_inv (ZeroAndFlushAll p dev)"
proof -
  assume inv: "index_inv dev"
  let ?ks = "p_keypairs (d_peers dev p)"
  define dev1 where "dev1 = upd_keypairs p (\<lambda>ks. ks\<lparr>ks_previous := None, ks_current := None, ks_next := None\<rparr>)
    (DeleteKeypair (ks_next ?ks) (DeleteKeypair (ks_current ?ks) (DeleteKeypair (ks_previous ?ks) dev)))"
  have "index_inv dev1" unfolding dev1_def by (rule inv_drop_all [OF inv])
  then have "index_inv (upd_handshake p Clear (index_Delete (local_index dev1 p) dev1))"
    by (rule inv_clear_handshake) (simp_all add: Clear_fields)
  moreover have "ZeroAndFlushAll p dev = FlushStagedPackets p (upd_handshake p Clear (index_Delete (local_index dev1 p) dev1))"
    by (simp add: ZeroAndFlushAll_def dev1_def Let_def)
  ultimately show ?thesis by (simp add: FlushStagedPackets_def inv_upd_peer)
qed

lemma inv_spend: "index_inv dev \<Longrightarrow> index_inv (spend kp dev)"
  by (cases kp) (simp_all add: spend_def inv_upd_keypair)

lemma inv_ExpireCurrentKeypairs: "index_inv dev \<Longrightarrow> index_inv (ExpireCurrentKeypairs p dev)"
  unfolding ExpireCurrentKeypairs_def Let_def
  by (intro inv_spend inv_clear_handshake) (simp_all add: Clear_fields)

end
