(* ===== verification/NoiseAgreement.thy ===== *)
theory NoiseAgreement
  imports IndexInvariant
begin

text \<open>
  The two sides of the handshake agree: what the responder computes from the messages of the
  initiator is what the initiator computed, so that the keypairs the two devices derive match.
\<close>

subsection \<open>The transcripts\<close>

lemma initiation_seal_fields:
  assumes "initiation_seal C e pub ts h = (h', Inr (E, S, T))"
  obtains es ck1 k1 ck2 k2 where
    "sharedSecret C e (hs_remoteStatic h) = Some es" "E = publicKey C e" "\<not> isZero (hs_precomputedStaticStatic h)"
    "KDF2 C (mixKey C (InitialChainKey C) E) es = (ck1, k1)" "KDF2 C ck1 (hs_precomputedStaticStatic h) = (ck2, k2)"
    "S = aead_seal C k1 ZeroNonce pub (mixHash C (mixHash C (InitialHash C) (hs_remoteStatic h)) E)"
    "hs_hash h' = mixHash C (mixHash C (mixHash C (InitialHash C) (hs_remoteStatic h)) E) S"
    "T = aead_seal C k2 ZeroNonce ts (hs_hash h')" "hs_chainKey h' = ck2"
    "hs_localEphemeral h' = e" "hs_presharedKey h' = hs_presharedKey h"
proof -
  obtain es where es: "sharedSecret C e (hs_remoteStatic h) = Some es"
    using assms by (simp add: initiation_seal_def Let_def hs_mixHash_def hs_mixKey_def split: option.splits)
  let ?ck0 = "mixKey C (InitialChainKey C) (publicKey C e)"
  obtain ck1 k1 where k1: "KDF2 C ?ck0 es = (ck1, k1)" by force
  obtain ck2 k2 where k2: "KDF2 C ck1 (hs_precomputedStaticStatic h) = (ck2, k2)" by force
  show thesis
    using assms es k1 k2
    by (intro that [of es ck1 k1 ck2 k2])
      (auto simp: initiation_seal_def Let_def hs_mixHash_def hs_mixKey_def split: if_splits)
qed

text \<open>The responder opens what the initiator sealed, and reaches the same hash and chain key.\<close>

lemma initiation_agree:
  assumes C: "crypto_ok C" and seal: "initiation_seal C e pubA ts h = (h', Inr (E, S, T))"
    and rs: "hs_remoteStatic h = publicKey C privB" and pub: "pubB = publicKey C privB"
    and msg: "mi_Ephemeral m = E" "mi_Static m = S" "mi_Timestamp m = T"
  obtains hash ck where
    "initiation_open_static C privB pubB m = Some (hash, ck, pubA)"
    "initiation_open_timestamp C hash ck (hs_precomputedStaticStatic h) m =
       Some (mixHash C (hs_hash h') T, hs_chainKey h', ts)"
    "E = publicKey C e"
proof -
  obtain es ck1 k1 ck2 k2 where f:
    "sharedSecret C e (hs_remoteStatic h) = Some es" "E = publicKey C e" "\<not> isZero (hs_precomputedStaticStatic h)"
    "KDF2 C (mixKey C (InitialChainKey C) E) es = (ck1, k1)" "KDF2 C ck1 (hs_precomputedStaticStatic h) = (ck2, k2)"
    "S = aead_seal C k1 ZeroNonce pubA (mixHash C (mixHash C (InitialHash C) (hs_remoteStatic h)) E)"
    "hs_hash h' = mixHash C (mixHash C (mixHash C (InitialHash C) (hs_remoteStatic h)) E) S"
    "T = aead_seal C k2 ZeroNonce ts (hs_hash h')" "hs_chainKey h' = ck2"
    using seal by (rule initiation_seal_fields)
  have es: "sharedSecret C privB E = Some es" using f(1,2) rs C by (simp add: sharedSecret_agree)
  have "initiation_open_static C privB pubB m = Some (hs_hash h', ck1, pubA)"
    using es f(4,6,7) C by (simp add: initiation_open_static_def Let_def msg pub rs crypto_laws)
  moreover have "initiation_open_timestamp C (hs_hash h') ck1 (hs_precomputedStaticStatic h) m =
      Some (mixHash C (hs_hash h') T, ck2, ts)"
    using f(3,5,8) C by (simp add: initiation_open_timestamp_def msg crypto_laws)
  ultimately show thesis using that f(2,9) by simp
qed

lemma response_seal_fields:
  assumes "response_seal C e h = (h', Inr (E, M))"
  obtains ee se ck tau k where
    "sharedSecret C e (hs_remoteEphemeral h) = Some ee" "sharedSecret C e (hs_remoteStatic h) = Some se"
    "E = publicKey C e"
    "KDF3 C (mixKey C (mixKey C (mixKey C (hs_chainKey h) E) ee) se) (hs_presharedKey h) = (ck, tau, k)"
    "M = aead_seal C k ZeroNonce [] (mixHash C (mixHash C (hs_hash h) E) tau)"
    "h' = h\<lparr>hs_localEphemeral := e, hs_chainKey := ck,
       hs_hash := mixHash C (mixHash C (mixHash C (hs_hash h) E) tau) M, hs_state := handshakeResponseCreated\<rparr>"
proof -
  obtain ee where ee: "sharedSecret C e (hs_remoteEphemeral h) = Some ee"
    using assms by (simp add: response_seal_def Let_def hs_mixHash_def hs_mixKey_def split: option.splits)
  obtain se where se: "sharedSecret C e (hs_remoteStatic h) = Some se"
    using assms ee by (simp add: response_seal_def Let_def hs_mixHash_def hs_mixKey_def split: option.splits)
  obtain ck tau k where k: "KDF3 C (mixKey C (mixKey C (mixKey C (hs_chainKey h) (publicKey C e)) ee) se) (hs_presharedKey h)
      = (ck, tau, k)" by (metis prod_cases3)
  show thesis
    using assms ee se k
    by (intro that [of ee se ck tau k]) (auto simp: response_seal_def Let_def hs_mixHash_def hs_mixKey_def)
qed

lemma response_agree:
  assumes C: "crypto_ok C" and seal: "response_seal C e2 hB = (hB', Inr (E, M))"
    and tr: "hs_hash hA = hs_hash hB" "hs_chainKey hA = hs_chainKey hB" "hs_presharedKey hA = hs_presharedKey hB"
    and keys: "hs_remoteEphemeral hB = publicKey C (hs_localEphemeral hA)" "hs_remoteStatic hB = publicKey C privA"
    and st: "hs_state hA = handshakeInitiationCreated"
    and msg: "mr_Ephemeral m = E" "mr_Empty m = M"
  shows "response_open C privA hA m = Some (hs_hash hB', hs_chainKey hB')"
proof -
  obtain ee se ck tau k where f:
    "sharedSecret C e2 (hs_remoteEphemeral hB) = Some ee" "sharedSecret C e2 (hs_remoteStatic hB) = Some se"
    "E = publicKey C e2"
    "KDF3 C (mixKey C (mixKey C (mixKey C (hs_chainKey hB) E) ee) se) (hs_presharedKey hB) = (ck, tau, k)"
    "M = aead_seal C k ZeroNonce [] (mixHash C (mixHash C (hs_hash hB) E) tau)"
    "hB' = hB\<lparr>hs_localEphemeral := e2, hs_chainKey := ck,
       hs_hash := mixHash C (mixHash C (mixHash C (hs_hash hB) E) tau) M, hs_state := handshakeResponseCreated\<rparr>"
    using seal by (rule response_seal_fields)
  have "sharedSecret C (hs_localEphemeral hA) E = Some ee" "sharedSecret C privA E = Some se"
    using f(1-3) keys C by (simp_all add: sharedSecret_agree)
  then show ?thesis
    using f(4-6) C by (simp add: response_open_def Let_def st msg tr crypto_laws)
qed

lemma session_keys_agree:
  assumes "hs_state hA = handshakeResponseConsumed" "hs_state hB = handshakeResponseCreated"
    "hs_chainKey hA = hs_chainKey hB"
  obtains k1 k2 where "session_keys C hA = Some (k1, k2, True)" "session_keys C hB = Some (k2, k1, False)"
  using assms that by (cases "KDF2 C (hs_chainKey hB) []") (simp add: session_keys_def)

subsection \<open>The messages of a device\<close>

text \<open>What a handshake never changes of a device.\<close>

definition same_identity_as :: "Device \<Rightarrow> Device \<Rightarrow> bool" where
  "same_identity_as dev dev' \<longleftrightarrow>
     d_privateKey dev' = d_privateKey dev \<and> d_publicKey dev' = d_publicKey dev \<and>
     d_nextKeypair dev' = d_nextKeypair dev \<and> d_keypairs dev' = d_keypairs dev \<and>
     (\<forall>q. p_keypairs (d_peers dev' q) = p_keypairs (d_peers dev q))"

lemma CreateMessageInitiation_success:
  assumes "CreateMessageInitiation C p dev = (dev', Inr mi)"
  obtains e h E S T where
    "initiation_seal C e (d_publicKey dev) (stamp (time_of (now dev))) (handshake dev p) = (h, Inr (E, S, T))"
    "mi_Ephemeral mi = E" "mi_Static mi = S" "mi_Timestamp mi = T"
    "handshake dev' p = (hs_mixHash C T (h\<lparr>hs_localIndex := mi_Sender mi\<rparr>))\<lparr>hs_state := handshakeInitiationCreated\<rparr>"
    "d_indexTable dev' (mi_Sender mi) = Some (entry_h p)" "same_identity_as dev dev'"
    "d_starved dev' = d_starved dev"
proof -
  obtain b dev1 where d1: "rand_Read 32 dev = (b, dev1)" by force
  obtain w dev2 where d2: "pick_one (h_init (d_headers dev1)) dev1 = (w, dev2)" by force
  obtain h x where s: "initiation_seal C (clamp b) (d_publicKey dev2) (stamp (time_of (now dev2))) (handshake dev2 p) = (h, x)"
    by force
  obtain bs ws where D: "dev1 = dev\<lparr>d_env := (d_env dev)\<lparr>e_bytes := bs\<rparr>\<rparr>"
    "dev2 = dev1\<lparr>d_env := (d_env dev1)\<lparr>e_words := ws\<rparr>\<rparr>"
    using rand_Read_shape [OF d1] pick_one_shape [OF d2] by blast
  obtain E S T where x: "x = Inr (E, S, T)"
    using assms by (cases x) (auto simp: CreateMessageInitiation_def d1 d2 s)
  obtain i dev4 where n: "NewIndexForHandshake p (index_Delete (hs_localIndex h) (upd_handshake p (\<lambda>_. h) dev2)) = Some (i, dev4)"
    using assms by (auto simp: CreateMessageInitiation_def d1 d2 s x Let_def split: option.splits)
  then obtain is' where dev4: "dev4 = (index_Delete (hs_localIndex h) (upd_handshake p (\<lambda>_. h) dev2))
      \<lparr>d_env := (d_env dev2)\<lparr>e_indices := is'\<rparr>,
       d_indexTable := (d_indexTable dev2)(hs_localIndex h := None, i \<mapsto> entry_h p)\<rparr>"
    by (rule NewIndex_Some) simp
  have res: "dev' = upd_handshake p (\<lambda>h. (hs_mixHash C T (h\<lparr>hs_localIndex := i\<rparr>))\<lparr>hs_state := handshakeInitiationCreated\<rparr>) dev4"
    "mi = \<lparr>mi_Type = w, mi_Sender = i, mi_Ephemeral = E, mi_Static = S, mi_Timestamp = T,
       mi_MAC1 = replicate 16 0, mi_MAC2 = replicate 16 0\<rparr>"
    using assms by (auto simp: CreateMessageInitiation_def d1 d2 s x n Let_def)
  show thesis
  proof (rule that)
    show "initiation_seal C (clamp b) (d_publicKey dev) (stamp (time_of (now dev))) (handshake dev p) = (h, Inr (E, S, T))"
      using s x by (simp add: D)
    show "same_identity_as dev dev'" "d_starved dev' = d_starved dev"
      by (simp_all add: same_identity_as_def res dev4 D upd_handshake_def upd_peer_def index_Delete_def)
  qed (simp_all add: res dev4)
qed

lemma CreateMessageResponse_success:
  assumes "CreateMessageResponse C p dev = (dev', Inr mr)"
  obtains e h E M where
    "hs_state (handshake dev p) = handshakeInitiationConsumed"
    "response_seal C e ((handshake dev p)\<lparr>hs_localIndex := mr_Sender mr\<rparr>) = (h, Inr (E, M))"
    "mr_Ephemeral mr = E" "mr_Empty mr = M" "mr_Receiver mr = hs_remoteIndex (handshake dev p)"
    "handshake dev' p = h" "same_identity_as dev dev'" "d_starved dev' = d_starved dev"
proof -
  have st: "hs_state (handshake dev p) = handshakeInitiationConsumed"
    using assms by (auto simp: CreateMessageResponse_def split: if_splits)
  obtain i dev1 where n: "NewIndexForHandshake p (index_Delete (local_index dev p) dev) = Some (i, dev1)"
    using assms st by (auto simp: CreateMessageResponse_def Let_def split: option.splits)
  then obtain is' where dev1: "dev1 = (index_Delete (local_index dev p) dev)
      \<lparr>d_env := (d_env dev)\<lparr>e_indices := is'\<rparr>,
       d_indexTable := (d_indexTable dev)(local_index dev p := None, i \<mapsto> entry_h p)\<rparr>"
    by (rule NewIndex_Some) simp
  let ?d2 = "upd_handshake p (\<lambda>h. h\<lparr>hs_localIndex := i\<rparr>) dev1"
  obtain w dev3 where d3: "pick_one (h_response (d_headers ?d2)) ?d2 = (w, dev3)" by force
  obtain b dev4 where d4: "rand_Read 32 dev3 = (b, dev4)" by force
  obtain ws bs where D: "dev3 = ?d2\<lparr>d_env := (d_env ?d2)\<lparr>e_words := ws\<rparr>\<rparr>"
    "dev4 = dev3\<lparr>d_env := (d_env dev3)\<lparr>e_bytes := bs\<rparr>\<rparr>"
    using pick_one_shape [OF d3] rand_Read_shape [OF d4] by blast
  obtain h x where s: "response_seal C (clamp b) (handshake dev4 p) = (h, x)" by force
  obtain E M where x: "x = Inr (E, M)"
    using assms by (cases x) (auto simp: CreateMessageResponse_def st n d3 d4 s Let_def)
  have res: "dev' = upd_handshake p (\<lambda>_. h) dev4" "mr_Sender mr = i" "mr_Receiver mr = hs_remoteIndex h"
    "mr_Ephemeral mr = E" "mr_Empty mr = M"
    using assms by (auto simp: CreateMessageResponse_def st n d3 d4 s x Let_def)
  have s': "response_seal C (clamp b) ((handshake dev p)\<lparr>hs_localIndex := i\<rparr>) = (h, Inr (E, M))"
    using s x by (simp add: D dev1)
  then have "hs_remoteIndex h = hs_remoteIndex (handshake dev p)"
    by (rule response_seal_fields) simp
  moreover have "same_identity_as dev dev'" "d_starved dev' = d_starved dev"
    by (simp_all add: same_identity_as_def res D dev1 upd_handshake_def upd_peer_def index_Delete_def)
  ultimately show thesis using that [OF st] s' res by simp
qed

lemma NewIndex_first:
  assumes "e_indices (d_env dev) = i # is" "d_indexTable dev i = None"
  obtains dev' where "NewIndexForHandshake p (index_Delete j dev) = Some (i, dev')"
    "d_peers dev' = d_peers dev" "e_bytes (d_env dev') = e_bytes (d_env dev)"
proof -
  have "((d_indexTable dev)(j := None)) i = None" using assms(2) by simp
  then have "free_index ((d_indexTable dev)(j := None)) (i # is) = Some (i, is)" by (simp only: free_index.simps) simp
  then show thesis using that assms(1) by (simp add: NewIndexForHandshake_def index_Delete_def)
qed

lemma CreateMessageInitiation_total:
  assumes "fst (rand_Read 32 dev) = r" "sharedSecret C (clamp r) (hs_remoteStatic (handshake dev p)) \<noteq> None"
    "\<not> isZero (hs_precomputedStaticStatic (handshake dev p))"
    "e_indices (d_env dev) = i # is" "d_indexTable dev i = None"
  shows "\<exists>dev' mi. CreateMessageInitiation C p dev = (dev', Inr mi) \<and> mi_Sender mi = i"
proof -
  obtain dev1 where d1: "rand_Read 32 dev = (r, dev1)" using assms(1) by (metis prod.collapse)
  obtain w dev2 where d2: "pick_one (h_init (d_headers dev1)) dev1 = (w, dev2)" by force
  obtain bs ws where D: "dev1 = dev\<lparr>d_env := (d_env dev)\<lparr>e_bytes := bs\<rparr>\<rparr>"
    "dev2 = dev1\<lparr>d_env := (d_env dev1)\<lparr>e_words := ws\<rparr>\<rparr>"
    using rand_Read_shape [OF d1] pick_one_shape [OF d2] by blast
  have "\<exists>h' x. initiation_seal C (clamp r) pub ts (handshake dev2 p) = (h', Inr x)" for pub ts
    using assms(2,3) by (auto simp: D initiation_seal_def Let_def hs_mixHash_def hs_mixKey_def split: prod.splits)
  then obtain h' x where s: "initiation_seal C (clamp r) (d_publicKey dev2) (stamp (time_of (now dev2))) (handshake dev2 p) = (h', Inr x)"
    by blast
  have "e_indices (d_env (upd_handshake p (\<lambda>_. h') dev2)) = i # is" "d_indexTable (upd_handshake p (\<lambda>_. h') dev2) i = None"
    using assms(4,5) by (simp_all add: D upd_handshake_def upd_peer_def)
  then obtain dev4 where "NewIndexForHandshake p (index_Delete (hs_localIndex h') (upd_handshake p (\<lambda>_. h') dev2)) = Some (i, dev4)"
    by (rule NewIndex_first)
  then show ?thesis by (cases x) (simp add: CreateMessageInitiation_def d1 d2 s Let_def)
qed

lemma CreateMessageResponse_total:
  assumes "hs_state (handshake dev p) = handshakeInitiationConsumed" "fst (rand_Read 32 dev) = r"
    "sharedSecret C (clamp r) (hs_remoteEphemeral (handshake dev p)) \<noteq> None"
    "sharedSecret C (clamp r) (hs_remoteStatic (handshake dev p)) \<noteq> None"
    "e_indices (d_env dev) = i # is" "d_indexTable dev i = None"
  shows "\<exists>dev' mr. CreateMessageResponse C p dev = (dev', Inr mr) \<and> mr_Sender mr = i"
proof -
  obtain dev1 where n: "NewIndexForHandshake p (index_Delete (local_index dev p) dev) = Some (i, dev1)"
    and d1: "d_peers dev1 = d_peers dev" "e_bytes (d_env dev1) = e_bytes (d_env dev)"
    using assms(5,6) by (rule NewIndex_first)
  let ?d2 = "upd_handshake p (\<lambda>h. h\<lparr>hs_localIndex := i\<rparr>) dev1"
  obtain w dev3 where d3: "pick_one (h_response (d_headers ?d2)) ?d2 = (w, dev3)" by force
  obtain ws where D3: "dev3 = ?d2\<lparr>d_env := (d_env ?d2)\<lparr>e_words := ws\<rparr>\<rparr>" using pick_one_shape [OF d3] by blast
  have "fst (rand_Read 32 dev3) = r" using assms(2) d1(2) by (simp add: D3 rand_Read_def split: list.splits)
  then obtain dev4 where d4: "rand_Read 32 dev3 = (r, dev4)" by (metis prod.collapse)
  obtain bs where D4: "dev4 = dev3\<lparr>d_env := (d_env dev3)\<lparr>e_bytes := bs\<rparr>\<rparr>" using rand_Read_shape [OF d4] by blast
  have "\<exists>h' x. response_seal C (clamp r) (handshake dev4 p) = (h', Inr x)"
    using assms(3,4) by (auto simp: D4 D3 d1 response_seal_def Let_def hs_mixHash_def hs_mixKey_def split: prod.splits)
  then obtain h' x where s: "response_seal C (clamp r) (handshake dev4 p) = (h', Inr x)" by blast
  show ?thesis
    by (cases x) (simp add: CreateMessageResponse_def assms(1) n d3 d4 s Let_def)
qed

subsection \<open>Two devices\<close>

definition keypairs_match :: "Keypair \<Rightarrow> Keypair \<Rightarrow> bool" where
  "keypairs_match kA kB \<longleftrightarrow>
     kp_send kA = kp_receive kB \<and> kp_receive kA = kp_send kB \<and>
     kp_remoteIndex kA = kp_localIndex kB \<and> kp_remoteIndex kB = kp_localIndex kA \<and>
     kp_isInitiator kA \<and> \<not> kp_isInitiator kB \<and> kp_sendNonce kA = 0 \<and> kp_sendNonce kB = 0"

text \<open>Device \<open>A\<close> has \<open>B\<close> as its peer \<open>a\<close>, and \<open>B\<close> has \<open>A\<close> as its peer \<open>b\<close>, with the same preshared key.\<close>

definition peers_know :: "Crypto \<Rightarrow> Device \<Rightarrow> nat \<Rightarrow> Device \<Rightarrow> nat \<Rightarrow> bool" where
  "peers_know C A a B b \<longleftrightarrow>
     d_publicKey A = publicKey C (d_privateKey A) \<and> d_publicKey B = publicKey C (d_privateKey B) \<and>
     hs_remoteStatic (handshake A a) = d_publicKey B \<and> hs_remoteStatic (handshake B b) = d_publicKey A \<and>
     hs_precomputedStaticStatic (handshake A a) = scalar_mult C (d_privateKey A) (d_publicKey B) \<and>
     hs_precomputedStaticStatic (handshake B b) = scalar_mult C (d_privateKey B) (d_publicKey A) \<and>
     hs_presharedKey (handshake A a) = hs_presharedKey (handshake B b) \<and>
     LookupPeer (d_publicKey A) B = Some b \<and> p_isRunning (d_peers B b)"

text \<open>What survives of a message on its way: all but its type and its MACs.\<close>

definition same_initiation :: "MessageInitiation \<Rightarrow> MessageInitiation \<Rightarrow> bool" where
  "same_initiation m m' \<longleftrightarrow>
     mi_Type m' = MessageInitiationType \<and> mi_Sender m' = mi_Sender m \<and> mi_Ephemeral m' = mi_Ephemeral m \<and>
     mi_Static m' = mi_Static m \<and> mi_Timestamp m' = mi_Timestamp m"

definition same_response :: "MessageResponse \<Rightarrow> MessageResponse \<Rightarrow> bool" where
  "same_response m m' \<longleftrightarrow>
     mr_Type m' = MessageResponseType \<and> mr_Sender m' = mr_Sender m \<and> mr_Receiver m' = mr_Receiver m \<and>
     mr_Ephemeral m' = mr_Ephemeral m \<and> mr_Empty m' = mr_Empty m"

lemma initiation_accepted:
  assumes C: "crypto_ok C" and know: "peers_know C A a B b"
    and create: "CreateMessageInitiation C a A = (A1, Inr mi)" and same: "same_initiation mi m"
    and new: "After (stamp (time_of (now A))) (hs_lastTimestamp (handshake B b))"
    and calm: "time_sub (now B) (hs_lastInitiationConsumption (handshake B b)) > HandshakeInitationRate"
  obtains B1 where "ConsumeMessageInitiation C m B = (B1, Some b)"
    "hs_hash (handshake B1 b) = hs_hash (handshake A1 a)" "hs_chainKey (handshake B1 b) = hs_chainKey (handshake A1 a)"
    "hs_remoteIndex (handshake B1 b) = mi_Sender mi"
    "hs_remoteEphemeral (handshake B1 b) = publicKey C (hs_localEphemeral (handshake A1 a))"
    "hs_remoteStatic (handshake B1 b) = d_publicKey A" "hs_presharedKey (handshake B1 b) = hs_presharedKey (handshake A1 a)"
    "d_starved B1 = d_starved B" "same_identity_as B B1" "hs_state (handshake B1 b) = handshakeInitiationConsumed"
    "d_env B1 = d_env B" "d_indexTable B1 = d_indexTable B"
proof -
  obtain e h E S T where f:
    "initiation_seal C e (d_publicKey A) (stamp (time_of (now A))) (handshake A a) = (h, Inr (E, S, T))"
    "mi_Ephemeral mi = E" "mi_Static mi = S" "mi_Timestamp mi = T"
    "handshake A1 a = (hs_mixHash C T (h\<lparr>hs_localIndex := mi_Sender mi\<rparr>))\<lparr>hs_state := handshakeInitiationCreated\<rparr>"
    using create by (rule CreateMessageInitiation_success)
  have rs: "hs_remoteStatic (handshake A a) = publicKey C (d_privateKey B)"
    and pub: "d_publicKey B = publicKey C (d_privateKey B)"
    and pre: "hs_precomputedStaticStatic (handshake B b) = hs_precomputedStaticStatic (handshake A a)"
    using know C by (auto simp: peers_know_def publicKey_def dh_agree)
  obtain hash ck where o: "initiation_open_static C (d_privateKey B) (d_publicKey B) m = Some (hash, ck, d_publicKey A)"
    "initiation_open_timestamp C hash ck (hs_precomputedStaticStatic (handshake A a)) m =
       Some (mixHash C (hs_hash h) T, hs_chainKey h, stamp (time_of (now A)))" "E = publicKey C e"
    using C f(1) rs pub by (rule initiation_agree [where m = m]) (use same f in \<open>simp_all add: same_initiation_def\<close>)
  have e: "hs_localEphemeral h = e" "hs_presharedKey h = hs_presharedKey (handshake A a)"
    using f(1) by (rule initiation_seal_fields, simp)+
  have lk: "LookupPeer (d_publicKey A) B = Some b" "p_isRunning (d_peers B b)" and ty: "mi_Type m = MessageInitiationType"
    using know same unfolding peers_know_def same_initiation_def by blast+
  show thesis
  proof (rule that)
    show "ConsumeMessageInitiation C m B = (upd_handshake b (\<lambda>h'. h'\<lparr>hs_hash := mixHash C (hs_hash h) T, hs_chainKey := hs_chainKey h,
        hs_remoteIndex := mi_Sender m, hs_remoteEphemeral := mi_Ephemeral m,
        hs_lastTimestamp := (if After (stamp (time_of (now A))) (hs_lastTimestamp h') then stamp (time_of (now A)) else hs_lastTimestamp h'),
        hs_lastInitiationConsumption := (if now B > hs_lastInitiationConsumption h' then now B else hs_lastInitiationConsumption h'),
        hs_state := handshakeInitiationConsumed\<rparr>) B, Some b)" (is "_ = (?B1, _)")
      using new calm by (simp add: ConsumeMessageInitiation_def ty lk o(1,2) pre Let_def)
  qed (use know same f e o(3) in \<open>simp_all add: same_initiation_def peers_know_def hs_mixHash_def same_identity_as_def
      upd_handshake_def upd_peer_def\<close>)
qed

lemma response_accepted:
  assumes C: "crypto_ok C" and inv: "index_inv A1"
    and create: "CreateMessageResponse C b B1 = (B2, Inr mr)" and same: "same_response mr m"
    and tr: "hs_hash (handshake B1 b) = hs_hash (handshake A1 a)" "hs_chainKey (handshake B1 b) = hs_chainKey (handshake A1 a)"
      "hs_presharedKey (handshake B1 b) = hs_presharedKey (handshake A1 a)"
      "hs_remoteEphemeral (handshake B1 b) = publicKey C (hs_localEphemeral (handshake A1 a))"
      "hs_remoteStatic (handshake B1 b) = publicKey C (d_privateKey A1)"
      "hs_remoteIndex (handshake B1 b) = local_index A1 a"
    and st: "hs_state (handshake A1 a) = handshakeInitiationCreated" and nz: "local_index A1 a \<noteq> 0"
  obtains A2 where "ConsumeMessageResponse C m A1 = (A2, Some a)"
    "hs_state (handshake A2 a) = handshakeResponseConsumed" "hs_state (handshake B2 b) = handshakeResponseCreated"
    "hs_chainKey (handshake A2 a) = hs_chainKey (handshake B2 b)"
    "hs_remoteIndex (handshake A2 a) = local_index B2 b" "local_index A2 a = local_index A1 a"
    "hs_remoteIndex (handshake B2 b) = local_index A1 a" "same_identity_as A1 A2" "d_starved A2 = d_starved A1"
proof -
  obtain e h E M where f:
    "response_seal C e ((handshake B1 b)\<lparr>hs_localIndex := mr_Sender mr\<rparr>) = (h, Inr (E, M))"
    "mr_Ephemeral mr = E" "mr_Empty mr = M" "mr_Receiver mr = hs_remoteIndex (handshake B1 b)" "handshake B2 b = h"
    using create by (rule CreateMessageResponse_success)
  have o: "response_open C (d_privateKey A1) (handshake A1 a) m = Some (hs_hash h, hs_chainKey h)"
    using C f(1) by (rule response_agree) (use tr st same f in \<open>simp_all add: same_response_def\<close>)
  have h: "hs_state h = handshakeResponseCreated" "hs_localIndex h = mr_Sender mr" "hs_remoteIndex h = local_index A1 a"
    using f(1) by (rule response_seal_fields, use tr(6) in simp)+
  have v: "view_inv (d_indexTable A1) (local_index A1) (held A1) (keypair_index A1)"
    using inv by (simp add: index_inv_def)
  have "d_indexTable A1 (local_index A1 a) = Some (entry_h a)" using nz by (rule view_owner(1) [OF v])
  then have lk: "index_Lookup (mr_Receiver m) A1 = entry_h a"
    using same f(4) tr(6) by (simp add: index_Lookup_def same_response_def)
  have ty: "mr_Type m = MessageResponseType" using same by (simp add: same_response_def)
  show thesis
  proof (rule that)
    show "ConsumeMessageResponse C m A1 = (upd_handshake a (\<lambda>h'. h'\<lparr>hs_hash := hs_hash h, hs_chainKey := hs_chainKey h,
        hs_remoteIndex := mr_Sender m, hs_state := handshakeResponseConsumed\<rparr>) A1, Some a)"
      using ty by (simp add: ConsumeMessageResponse_def lk o entry_h_def)
  qed (use same f h in \<open>simp_all add: same_response_def same_identity_as_def upd_handshake_def upd_peer_def\<close>)
qed

text \<open>The keypair that a session begins with, where it is found, and under which index.\<close>

lemma session_begun:
  assumes inv: "index_inv dev" and keys: "session_keys C (handshake dev p) = Some (sk, rk, isI)" and nz: "local_index dev p \<noteq> 0"
  obtains dev' where "BeginSymmetricSession C p dev = (dev', Inr ())" "index_inv dev'"
    "d_keypairs dev' (d_nextKeypair dev) = new_keypair sk rk isI (now dev) (handshake dev p)"
    "if isI then Current p dev' = Some (d_nextKeypair dev)
     else ks_next (p_keypairs (d_peers dev' p)) = Some (d_nextKeypair dev)"
    "index_Lookup (local_index dev p) dev' = entry_k p (d_nextKeypair dev)" "d_starved dev' = d_starved dev"
proof -
  note eq = BeginSymmetricSession_eq [OF keys]
  let ?D = "session_started p (new_keypair sk rk isI (now dev) (handshake dev p)) dev"
  let ?dev' = "rotate p (d_nextKeypair dev) isI ?D"
  have inv': "index_inv ?dev'" using inv_BeginSymmetricSession [OF inv, of C p] by (simp add: eq)
  then have v': "view_inv (d_indexTable ?dev') (local_index ?dev') (held ?dev') (keypair_index ?dev')"
    by (simp add: index_inv_def)
  have kp: "d_keypairs ?dev' (d_nextKeypair dev) = new_keypair sk rk isI (now dev) (handshake dev p)"
    by (simp add: rotate_fields session_started_fields)
  have "d_nextKeypair dev \<in> held ?dev' p" by (simp add: rotate_fields session_started_fields rotated_def slots_def)
  then have tab: "d_indexTable ?dev' (local_index dev p) = Some (entry_k p (d_nextKeypair dev))"
    using view_owner(2) [OF v', of "d_nextKeypair dev" p] kp nz by (simp add: new_keypair_def)
  have lk: "index_Lookup (local_index dev p) ?dev' = entry_k p (d_nextKeypair dev)"
    unfolding index_Lookup_def tab by simp
  have st: "d_starved ?dev' = d_starved dev"
    by (simp add: rotate_def session_started_def upd_handshake_def upd_keypairs_def upd_peer_def DeleteKeypair_def
        index_Delete_def Let_def split: option.splits)
  show thesis
    by (rule that [OF eq inv' kp _ lk st])
      (simp add: Current_def rotate_fields session_started_fields rotated_def)
qed

lemma created_initiation:
  assumes "CreateMessageInitiation C p dev = (dev', Inr mi)"
  shows "local_index dev' p = mi_Sender mi" "hs_state (handshake dev' p) = handshakeInitiationCreated"
    "same_identity_as dev dev'" "d_starved dev' = d_starved dev"
  using assms by (rule CreateMessageInitiation_success, simp add: hs_mixHash_def)+

lemma created_response:
  assumes "CreateMessageResponse C p dev = (dev', Inr mr)"
  shows "same_identity_as dev dev'" "d_starved dev' = d_starved dev" "local_index dev' p = mr_Sender mr"
proof -
  obtain e h E M where f: "response_seal C e ((handshake dev p)\<lparr>hs_localIndex := mr_Sender mr\<rparr>) = (h, Inr (E, M))"
    "handshake dev' p = h" "same_identity_as dev dev'" "d_starved dev' = d_starved dev"
    using assms by (rule CreateMessageResponse_success)
  have "hs_localIndex h = mr_Sender mr" using f(1) by (rule response_seal_fields) simp
  with f show "same_identity_as dev dev'" "d_starved dev' = d_starved dev" "local_index dev' p = mr_Sender mr" by simp_all
qed

text \<open>The end of a handshake: the initiator has a session in use, the responder one that waits for its first packet.\<close>

definition sessions_match :: "Device \<Rightarrow> nat \<Rightarrow> Device \<Rightarrow> nat \<Rightarrow> bool" where
  "sessions_match A a B b \<longleftrightarrow>
     (case (Current a A, ks_next (p_keypairs (d_peers B b))) of
        (Some kA, Some kB) \<Rightarrow>
          keypairs_match (d_keypairs A kA) (d_keypairs B kB) \<and>
          index_Lookup (kp_localIndex (d_keypairs A kA)) A = entry_k a kA \<and>
          index_Lookup (kp_localIndex (d_keypairs B kB)) B = entry_k b kB
      | _ \<Rightarrow> False)"

lemma sessions_begin:
  assumes inv: "index_inv A" "index_inv B"
    and st: "hs_state (handshake A a) = handshakeResponseConsumed" "hs_state (handshake B b) = handshakeResponseCreated"
      "hs_chainKey (handshake A a) = hs_chainKey (handshake B b)"
    and ix: "hs_remoteIndex (handshake A a) = local_index B b" "hs_remoteIndex (handshake B b) = local_index A a"
      "local_index A a \<noteq> 0" "local_index B b \<noteq> 0"
  obtains A' B' where "BeginSymmetricSession C a A = (A', Inr ())" "BeginSymmetricSession C b B = (B', Inr ())"
    "index_inv A'" "index_inv B'" "sessions_match A' a B' b"
proof -
  obtain k1 k2 where k: "session_keys C (handshake A a) = Some (k1, k2, True)"
    "session_keys C (handshake B b) = Some (k2, k1, False)"
    using st by (rule session_keys_agree)
  obtain A' where A': "BeginSymmetricSession C a A = (A', Inr ())" "index_inv A'"
    "d_keypairs A' (d_nextKeypair A) = new_keypair k1 k2 True (now A) (handshake A a)"
    "if True then Current a A' = Some (d_nextKeypair A) else ks_next (p_keypairs (d_peers A' a)) = Some (d_nextKeypair A)"
    "index_Lookup (local_index A a) A' = entry_k a (d_nextKeypair A)"
    by (rule session_begun [OF inv(1) k(1) ix(3)])
  obtain B' where B': "BeginSymmetricSession C b B = (B', Inr ())" "index_inv B'"
    "d_keypairs B' (d_nextKeypair B) = new_keypair k2 k1 False (now B) (handshake B b)"
    "if False then Current b B' = Some (d_nextKeypair B) else ks_next (p_keypairs (d_peers B' b)) = Some (d_nextKeypair B)"
    "index_Lookup (local_index B b) B' = entry_k b (d_nextKeypair B)"
    by (rule session_begun [OF inv(2) k(2) ix(4)])
  show thesis
    by (rule that [OF A'(1) B'(1) A'(2) B'(2)])
      (use A' B' ix in \<open>simp add: sessions_match_def keypairs_match_def new_keypair_def\<close>)
qed

subsection \<open>The whole handshake\<close>

text \<open>C1: when a device creates an initiation and a peer that knows it, has not seen a later timestamp and
  is not flooded receives it, the peer accepts it; when the peer's response arrives, the initiator
  accepts it; and the sessions both begin have matching keys, point to each other's index, and are
  found under these indices in the two index tables. Both tables are in order before, and neither device
  draws index 0, which stands for no index.\<close>

theorem handshake_agrees:
  assumes "crypto_ok C" and "peers_know C A a B b" and "index_inv A" and "index_inv B"
    and "\<not> d_starved A" and "\<not> d_starved B"
    and "CreateMessageInitiation C a A = (A1, Inr mi)" and "same_initiation mi mi'"
    and "After (stamp (time_of (now A))) (hs_lastTimestamp (handshake B b))"
    and "time_sub (now B) (hs_lastInitiationConsumption (handshake B b)) > HandshakeInitationRate"
    and "CreateMessageResponse C b (fst (ConsumeMessageInitiation C mi' B)) = (B2, Inr mr)" and "same_response mr mr'"
    and "mi_Sender mi \<noteq> 0" and "mr_Sender mr \<noteq> 0"
  shows "snd (ConsumeMessageInitiation C mi' B) = Some b \<and>
    snd (ConsumeMessageResponse C mr' A1) = Some a \<and>
    sessions_match (fst (BeginSymmetricSession C a (fst (ConsumeMessageResponse C mr' A1)))) a
      (fst (BeginSymmetricSession C b B2)) b"
proof -
  obtain B1 where B1: "ConsumeMessageInitiation C mi' B = (B1, Some b)"
    "hs_hash (handshake B1 b) = hs_hash (handshake A1 a)" "hs_chainKey (handshake B1 b) = hs_chainKey (handshake A1 a)"
    "hs_remoteIndex (handshake B1 b) = mi_Sender mi"
    "hs_remoteEphemeral (handshake B1 b) = publicKey C (hs_localEphemeral (handshake A1 a))"
    "hs_remoteStatic (handshake B1 b) = d_publicKey A" "hs_presharedKey (handshake B1 b) = hs_presharedKey (handshake A1 a)"
    "d_starved B1 = d_starved B" "same_identity_as B B1"
    using assms(1,2,7,8,9,10) by (rule initiation_accepted)
  note A1 = created_initiation [OF assms(7)]
  have resp: "CreateMessageResponse C b B1 = (B2, Inr mr)" using assms(11) B1(1) by simp
  note B2 = created_response [OF resp]
  have iA1: "index_inv A1" using inv_CreateMessageInitiation [OF assms(3,7)] A1(4) assms(5) by simp
  have iB1: "index_inv B1" using inv_ConsumeMessageInitiation [OF assms(4), of C mi'] B1(1) by simp
  have iB2: "index_inv B2" using inv_CreateMessageResponse [OF iB1 resp] B2(2) B1(8) assms(6) by simp
  have pub: "d_publicKey A = publicKey C (d_privateKey A1)"
    using assms(2) A1(3) by (simp add: peers_know_def same_identity_as_def)
  have rs: "hs_remoteStatic (handshake B1 b) = publicKey C (d_privateKey A1)"
    and ri: "hs_remoteIndex (handshake B1 b) = local_index A1 a" using B1(4,6) A1(1) pub by simp_all
  obtain A2 where A2: "ConsumeMessageResponse C mr' A1 = (A2, Some a)"
    "hs_state (handshake A2 a) = handshakeResponseConsumed" "hs_state (handshake B2 b) = handshakeResponseCreated"
    "hs_chainKey (handshake A2 a) = hs_chainKey (handshake B2 b)"
    "hs_remoteIndex (handshake A2 a) = local_index B2 b" "local_index A2 a = local_index A1 a"
    "hs_remoteIndex (handshake B2 b) = local_index A1 a"
    by (rule response_accepted [OF assms(1) iA1 resp assms(12) B1(2,3,7,5) rs ri A1(2)]) (simp add: A1(1) assms(13))
  have iA2: "index_inv A2" using inv_ConsumeMessageResponse [OF iA1, of C mr'] A2(1) by simp
  obtain A3 B3 where S: "BeginSymmetricSession C a A2 = (A3, Inr ())" "BeginSymmetricSession C b B2 = (B3, Inr ())"
    "sessions_match A3 a B3 b"
    using iA2 iB2 A2(2-5) by (rule sessions_begin) (use A2(6,7) A1(1) B2(3) assms(13,14) in simp_all)
  show ?thesis using B1(1) A2(1) S by simp
qed

text \<open>Two devices that know each other.\<close>

definition demo_env :: "u32 \<Rightarrow> Env" where
  "demo_env i = \<lparr>e_now = 5000000000, e_bytes = [], e_words = [], e_indices = [i], e_sends = [],
     e_opens = [], e_closes = [], e_marks = [], e_listeners = []\<rparr>"

definition demo_device :: "byte \<Rightarrow> byte \<Rightarrow> u32 \<Rightarrow> Device" where
  "demo_device sk peer_sk i =
     (zero_device (demo_env i))\<lparr>d_state := deviceStateUp, d_privateKey := replicate 32 sk,
        d_publicKey := publicKey demo_crypto (replicate 32 sk), d_nextPeer := 1,
        d_headers := \<lparr>h_init = 1 + push_bit 32 1, h_cookie = 3 + push_bit 32 3, h_response = 2 + push_bit 32 2,
          h_transport = 4 + push_bit 32 4\<rparr>,
        d_keyMap := [(publicKey demo_crypto (replicate 32 peer_sk), 0)],
        d_peers := (\<lambda>_. zero_peer)(0 := zero_peer\<lparr>p_isRunning := True,
          p_handshake := zero_handshake\<lparr>hs_remoteStatic := publicKey demo_crypto (replicate 32 peer_sk),
            hs_precomputedStaticStatic :=
              scalar_mult demo_crypto (replicate 32 sk) (publicKey demo_crypto (replicate 32 peer_sk))\<rparr>\<rparr>)\<rparr>"

lemma demo_device_inv: "index_inv (demo_device sk peer_sk i)"
  by (simp add: index_inv_def view_inv_def owners_def demo_device_def zero_device_def zero_peer_def zero_handshake_def
      slots_def slots_distinct_def)

lemma demo_devices_know: "peers_know demo_crypto (demo_device 1 2 7) 0 (demo_device 2 1 9) 0"
  by (simp add: peers_know_def demo_device_def zero_device_def zero_peer_def zero_handshake_def LookupPeer_def)

lemma demo_secret: "sharedSecret demo_crypto (clamp (replicate 32 0)) pk \<noteq> None"
proof -
  have c: "clamp (replicate 32 0) = replicate 31 0 @ [64]" by (simp add: clamp_def numeral_eq_Suc)
  have "last (scalar_mult demo_crypto (clamp (replicate 32 0)) pk) \<noteq> 0" "scalar_mult demo_crypto (clamp (replicate 32 0)) pk \<noteq> []"
    by (simp_all add: demo_crypto_def c last_conv_nth pad_to_def nth_append or_eq_0_iff)
  then show ?thesis unfolding sharedSecret_def Let_def isZero_iff by (metis last_in_set option.distinct(1))
qed

lemma demo_random: "fst (rand_Read 32 (demo_device a b i)) = replicate 32 0"
  by (simp add: rand_Read_def demo_device_def zero_device_def demo_env_def)

lemma demo_fields:
  "d_indexTable (demo_device a b i) = Map.empty" "d_env (demo_device a b i) = demo_env i"
  "e_indices (demo_env i) = [i]" "e_bytes (demo_env i) = []" "e_now (demo_env i) = 5000000000"
  "hs_lastTimestamp (handshake (demo_device a b i) p) = replicate 12 0"
  "hs_lastInitiationConsumption (handshake (demo_device a b i) p) = zero_time"
  by (simp_all add: demo_device_def zero_device_def demo_env_def zero_peer_def zero_handshake_def)

lemma demo_precomputed: "\<not> isZero (hs_precomputedStaticStatic (handshake (demo_device 1 2 7) 0))"
proof -
  have "\<not> isZero (scalar_mult demo_crypto (replicate 32 1) (publicKey demo_crypto (replicate 32 2)))" by code_simp
  then show ?thesis by (simp add: demo_device_def zero_device_def)
qed

lemma demo_fresh:
  "After (stamp (time_of 5000000000)) (replicate 12 0)" "time_sub 5000000000 zero_time > HandshakeInitationRate"
proof -
  have n: "(8 :: nat) = Suc (Suc (Suc (Suc (Suc (Suc (Suc (Suc 0)))))))"
    and r: "replicate 12 (0 :: byte) = 0 # replicate 11 0" by (simp_all add: numeral_eq_Suc)
  have "0 < bytes_compare (put_be 8 4611686018427387919 @ put_be32 0) (replicate 12 0)"
    unfolding n r by (simp add: put_be_def)
  then show "After (stamp (time_of 5000000000)) (replicate 12 0)"
    by (simp add: After_def stamp_def time_of_def second_def base_def put_be64_def)
  show "time_sub 5000000000 zero_time > HandshakeInitationRate"
    by (simp add: second_def time_sub_def zero_time_def HandshakeInitationRate_def)
qed

theorem handshake_agrees_witness:
  "\<exists>A1 mi B2 mr.
     CreateMessageInitiation demo_crypto 0 (demo_device 1 2 7) = (A1, Inr mi) \<and>
     snd (ConsumeMessageInitiation demo_crypto (mi\<lparr>mi_Type := MessageInitiationType\<rparr>) (demo_device 2 1 9)) = Some 0 \<and>
     CreateMessageResponse demo_crypto 0
       (fst (ConsumeMessageInitiation demo_crypto (mi\<lparr>mi_Type := MessageInitiationType\<rparr>) (demo_device 2 1 9))) = (B2, Inr mr) \<and>
     snd (ConsumeMessageResponse demo_crypto (mr\<lparr>mr_Type := MessageResponseType\<rparr>) A1) = Some 0 \<and>
     sessions_match (fst (BeginSymmetricSession demo_crypto 0
       (fst (ConsumeMessageResponse demo_crypto (mr\<lparr>mr_Type := MessageResponseType\<rparr>) A1)))) 0
       (fst (BeginSymmetricSession demo_crypto 0 B2)) 0"
proof -
  let ?A = "demo_device 1 2 7" and ?B = "demo_device 2 1 9"
  obtain A1 mi where i: "CreateMessageInitiation demo_crypto 0 ?A = (A1, Inr mi)" "mi_Sender mi = 7"
    using CreateMessageInitiation_total [where dev = ?A and C = demo_crypto and p = 0, OF demo_random demo_secret]
    by (auto simp: demo_fields demo_precomputed)
  let ?mi = "mi\<lparr>mi_Type := MessageInitiationType\<rparr>"
  have after: "After (stamp (time_of (now ?A))) (hs_lastTimestamp (handshake ?B 0))"
    "time_sub (now ?B) (hs_lastInitiationConsumption (handshake ?B 0)) > HandshakeInitationRate"
    by (simp_all only: demo_fields demo_fresh)
  have same: "same_initiation mi ?mi" by (simp add: same_initiation_def)
  obtain B1 where B1: "ConsumeMessageInitiation demo_crypto ?mi ?B = (B1, Some 0)" "hs_state (handshake B1 0) = handshakeInitiationConsumed"
    "d_env B1 = d_env ?B" "d_indexTable B1 = d_indexTable ?B"
    by (rule initiation_accepted [OF demo_crypto_ok demo_devices_know i(1) same after])
  obtain B2 mr where r: "CreateMessageResponse demo_crypto 0 B1 = (B2, Inr mr)" "mr_Sender mr = 9"
    using CreateMessageResponse_total [where dev = B1 and C = demo_crypto and p = 0, OF B1(2) _ demo_secret demo_secret]
    by (auto simp: B1(3,4) demo_fields rand_Read_def)
  have same': "same_response mr (mr\<lparr>mr_Type := MessageResponseType\<rparr>)" by (simp add: same_response_def)
  have up: "\<not> d_starved ?A" "\<not> d_starved ?B" by (simp_all add: demo_device_def zero_device_def)
  have "CreateMessageResponse demo_crypto 0 (fst (ConsumeMessageInitiation demo_crypto ?mi ?B)) = (B2, Inr mr)"
    using B1 r(1) by simp
  moreover have "mi_Sender mi \<noteq> 0" "mr_Sender mr \<noteq> 0" using i(2) r(2) by simp_all
  ultimately show ?thesis
    using i(1) handshake_agrees [OF demo_crypto_ok demo_devices_know demo_device_inv demo_device_inv up i(1) same after _ same'] by auto
qed

end
