(* ===== verification/Framing.thy ===== *)
theory Framing
  imports DeviceLemmas
begin

text \<open>
  The outer layer of a datagram: random padding in front of the message, the header protection
  that hides its first fields, the classification of what arrives (the functions
  \<open>HeaderProtectionCipher\<close> and \<open>JunkPackets\<close> of src/device/noise-protocol.go, \<open>applyHash\<close> and
  \<open>DeterminePacketTypeAndPadding\<close> of receive.go), and the size of the padding inside a transport
  message (send.go).
\<close>

subsection \<open>Constants\<close>

definition MaxSegmentSize :: nat where "MaxSegmentSize = 2 ^ 16 - 1"
definition MaxMessageSize :: nat where "MaxMessageSize = MaxSegmentSize"
definition MinMessageSize :: nat where "MinMessageSize = MessageKeepaliveSize"
definition MaxContentSize :: nat where "MaxContentSize = MaxSegmentSize - MessageTransportSize"
definition HeaderCipherNonceSize :: nat where "HeaderCipherNonceSize = 12"
definition PaddingMultiple :: int where "PaddingMultiple = 16"

subsection \<open>Header protection\<close>

text \<open>A ChaCha20 cipher with the number of key stream bytes it has used.\<close>

record Cipher =
  ci_key :: bytes
  ci_nonce :: bytes
  ci_pos :: nat

definition HeaderProtectionCipher :: "Device \<Rightarrow> bytes \<Rightarrow> Cipher option" where
  "HeaderProtectionCipher dev salt =
     (if key_IsZero (d_headerKey dev) then None
      else Some \<lparr>ci_key = d_headerKey dev, ci_nonce = salt, ci_pos = 0\<rparr>)"

definition XORKeyStream :: "Crypto \<Rightarrow> Cipher \<Rightarrow> bytes \<Rightarrow> bytes \<times> Cipher" where
  "XORKeyStream C cip src =
     (map2 (XOR) src (drop (ci_pos cip) (chacha20_stream C (ci_key cip) (ci_nonce cip) (ci_pos cip + length src))),
      cip\<lparr>ci_pos := ci_pos cip + length src\<rparr>)"

text \<open>
  The padding of a message. \<open>pad_room\<close> is the size check of \<open>make([]byte, padding+size)\<close> and
  \<open>buf[:padding]\<close>, whose sum wraps at 32 bits; \<open>protect\<close> the encryption of the message behind its
  padding, with \<open>crypt[:HeaderCipherNonceSize]\<close>, a slice of the whole buffer, as the nonce.
\<close>

definition pad_room :: "u32 \<Rightarrow> nat \<Rightarrow> nat option" where
  "pad_room padding sz = (if padding \<le> padding + of_nat sz then Some (unat padding) else None)"

definition protect :: "Crypto \<Rightarrow> Device \<Rightarrow> bytes \<Rightarrow> bytes \<Rightarrow> bytes" where
  "protect C dev crypt packet =
     (case HeaderProtectionCipher dev (take HeaderCipherNonceSize (crypt @ packet)) of
        None \<Rightarrow> packet
      | Some cip \<Rightarrow> fst (XORKeyStream C cip packet))"

subsection \<open>Junk packets\<close>

fun junk_loop :: "nat \<Rightarrow> u32 \<Rightarrow> u32 \<Rightarrow> Device \<Rightarrow> bytes list \<times> Device" where
  "junk_loop 0 lo hi dev = ([], dev)"
| "junk_loop (Suc n) lo hi dev =
     (let (w, dev) = rand_word dev;
          (buf, dev) = rand_Read (unat (lo + fastrandn w (hi - lo))) dev;
          (bufs, dev) = junk_loop n lo hi dev
      in (buf # bufs, dev))"

definition JunkPackets :: "Device \<Rightarrow> bytes list \<times> Device" where
  "JunkPackets dev = junk_loop (unat (j_count (d_junk dev))) (j_min (d_junk dev)) (j_max (d_junk dev)) dev"

subsection \<open>Classification\<close>

definition applyHash :: "bytes \<Rightarrow> bytes \<Rightarrow> bytes" where
  "applyHash src hash = map2 (XOR) src hash"

definition type_field :: "bytes \<Rightarrow> u32 \<Rightarrow> bytes \<Rightarrow> u32" where
  "type_field packet padding typeHash =
     get_le32 (applyHash (slice (unat padding) (unat padding + 4) packet) typeHash)"

definition DeterminePacketTypeAndPadding :: "Device \<Rightarrow> bytes \<Rightarrow> u32 \<Rightarrow> bytes \<Rightarrow> u32 \<times> u32" where
  "DeterminePacketTypeAndPadding dev packet expectedType typeHash =
     (let sz = length packet;
          wants = (\<lambda>t. expectedType = MessageUnknownType \<or> expectedType = t);
          padding = s_init (d_paddings dev)
      in if wants MessageInitiationType \<and> sz = unat padding + MessageInitiationSize \<and>
            Contains (h_init (d_headers dev)) (type_field packet padding typeHash)
         then (MessageInitiationType, padding)
         else
         let padding = s_response (d_paddings dev)
         in if wants MessageResponseType \<and> sz = unat padding + MessageResponseSize \<and>
               Contains (h_response (d_headers dev)) (type_field packet padding typeHash)
            then (MessageResponseType, padding)
            else
            let padding = s_cookie (d_paddings dev)
            in if wants MessageCookieReplyType \<and> sz = unat padding + MessageCookieReplySize \<and>
                  Contains (h_cookie (d_headers dev)) (type_field packet padding typeHash)
               then (MessageCookieReplyType, padding)
               else
               let padding = s_transport (d_paddings dev)
               in if wants MessageTransportType \<and> sz \<ge> unat padding + MessageTransportHeaderSize \<and>
                     Contains (h_transport (d_headers dev)) (type_field packet padding typeHash)
                  then (MessageTransportType, padding)
                  else (MessageUnknownType, 0))"

subsection \<open>Padding of the content\<close>

text \<open>
  The remainder of Go's \<open>%\<close> has the sign of the dividend, here never negative. \<open>x & ^15\<close> clears
  the low four bits.
\<close>

definition round_up :: "int \<Rightarrow> int" where
  "round_up x = (x + PaddingMultiple - 1) AND NOT (PaddingMultiple - 1)"

definition calculatePaddingSize :: "int \<Rightarrow> int \<Rightarrow> int" where
  "calculatePaddingSize packetSize mtu =
     (let lastUnit = packetSize
      in if mtu = 0 then round_up lastUnit - lastUnit
         else
         let lastUnit = (if lastUnit > mtu then lastUnit mod \<bar>mtu\<bar> else lastUnit);
             paddedSize = round_up lastUnit;
             paddedSize = (if paddedSize > mtu then mtu else paddedSize)
         in paddedSize - lastUnit)"

definition randomPaddingAddition :: "int \<Rightarrow> int \<Rightarrow> Device \<Rightarrow> int \<times> Device" where
  "randomPaddingAddition packetSize mtu dev =
     (if range_IsZero (d_contentPaddingAddition dev) then (- 1, dev)
      else
      let (w, dev) = pick_one (d_contentPaddingAddition dev) dev;
          add = uint w
      in if mtu \<noteq> 0 then
           let packetSize = (if packetSize > mtu then packetSize mod \<bar>mtu\<bar> else packetSize);
               space = mtu - packetSize
           in (if add > space then space else add, dev)
         else (add, dev))"

end
