(* ===== verification/Send.thy ===== *)
theory Send
  imports Framing
begin

text \<open>
  The outbound path of src/device/send.go: handshake messages, staging of packets, the assignment
  of nonces, encryption and sending. A handler is one atomic step, in which the clock stands still;
  the routines that loop over a queue are given as the step that handles one item of it.
\<close>

definition QueueStagedSize :: nat where "QueueStagedSize = 128"

subsection \<open>Handshake messages\<close>

definition take_bytes :: "nat \<Rightarrow> Device \<Rightarrow> bytes list \<times> Device" where
  "take_bytes n dev =
     (take n (e_bytes (d_env dev)), dev\<lparr>d_env := (d_env dev)\<lparr>e_bytes := drop n (e_bytes (d_env dev))\<rparr>\<rparr>)"

text \<open>The packets before an initiation. A negative size of the buffer, or a slice outside of it, panics.\<close>

fun ipacket_buffers :: "obfChain option list \<Rightarrow> Device \<Rightarrow> (bytes list \<times> Device) option" where
  "ipacket_buffers [] dev = Some ([], dev)"
| "ipacket_buffers (None # cs) dev = ipacket_buffers cs dev"
| "ipacket_buffers (Some c # cs) dev =
     (let n = chain_ObfuscatedLen c 0;
          (rnds, dev) = take_bytes (length (obfs c)) dev
      in if n < 0 then None
         else Option.bind (chain_Obfuscate (now dev) rnds c (replicate (nat n) 0) []) (\<lambda>buf.
              Option.bind (ipacket_buffers cs dev) (\<lambda>(bufs, dev). Some (buf # bufs, dev))))"

definition SendHandshakeInitiation :: "Crypto \<Rightarrow> bool \<Rightarrow> nat \<Rightarrow> Device \<Rightarrow> Device \<times> (send_error + unit)" where
  "SendHandshakeInitiation C isRetry p dev =
     (let dev = (if \<not> isRetry then
                   let dev = upd_timers p (\<lambda>ts. ts\<lparr>ts_handshakeAttempts := 0\<rparr>) dev;
                       (m, dev) = maxHandshakeAttemps dev
                   in upd_timers p (\<lambda>ts. ts\<lparr>ts_maxHandshakeAttempts := m\<rparr>) dev
                 else dev);
          timeout = rekeyMinTimeout dev
      in if time_sub (now dev) (hs_lastSentHandshake (handshake dev p)) < timeout then (dev, Inr ())
         else
         let dev = upd_handshake p (\<lambda>h. h\<lparr>hs_lastSentHandshake := now dev\<rparr>) dev;
             (dev, created) = CreateMessageInitiation C p dev
         in case created of
              Inl err \<Rightarrow> (dev, Inl (CreateFailed err))
            | Inr msg \<Rightarrow>
                (case ipacket_buffers (d_ipackets dev) dev of
                   None \<Rightarrow> (panic dev, Inr ())
                 | Some (ipackets, dev) \<Rightarrow>
                     let (junk, dev) = JunkPackets dev
                     in case pad_room (s_init (d_paddings dev)) MessageInitiationSize of
                          None \<Rightarrow> (panic dev, Inr ())
                        | Some padding \<Rightarrow>
                            let (crypt, dev) = rand_Read padding dev
                            in case AddMacs C (now dev) (p_cookieGenerator (d_peers dev p)) (write_initiation msg) of
                                 None \<Rightarrow> (panic dev, Inr ())
                               | Some (g, packet) \<Rightarrow>
                                   let dev = upd_peer p (\<lambda>peer. peer\<lparr>p_cookieGenerator := g\<rparr>) dev;
                                       dev = timersAnyAuthenticatedPacketTraversal p dev;
                                       dev = timersAnyAuthenticatedPacketSent p dev;
                                       packet = protect C dev crypt packet;
                                       (dev, r) = SendBuffers p (ipackets @ junk @ [crypt @ packet]) dev
                                   in (timersHandshakeInitiated p dev, r)))"

definition SendHandshakeResponse :: "Crypto \<Rightarrow> nat \<Rightarrow> Device \<Rightarrow> Device \<times> (send_error + unit)" where
  "SendHandshakeResponse C p dev =
     (let dev = upd_handshake p (\<lambda>h. h\<lparr>hs_lastSentHandshake := now dev\<rparr>) dev;
          (dev, created) = CreateMessageResponse C p dev
      in case created of
           Inl err \<Rightarrow> (dev, Inl (CreateFailed err))
         | Inr response \<Rightarrow>
             (case pad_room (s_response (d_paddings dev)) MessageResponseSize of
                None \<Rightarrow> (panic dev, Inr ())
              | Some padding \<Rightarrow>
                  let (crypt, dev) = rand_Read padding dev
                  in case AddMacs C (now dev) (p_cookieGenerator (d_peers dev p)) (write_response response) of
                       None \<Rightarrow> (panic dev, Inr ())
                     | Some (g, packet) \<Rightarrow>
                         let dev = upd_peer p (\<lambda>peer. peer\<lparr>p_cookieGenerator := g\<rparr>) dev;
                             (dev, began) = BeginSymmetricSession C p dev
                         in case began of
                              Inl err \<Rightarrow> (dev, Inl (SessionFailed err))
                            | Inr _ \<Rightarrow>
                                let dev = timersSessionDerived p dev;
                                    dev = timersAnyAuthenticatedPacketTraversal p dev;
                                    dev = timersAnyAuthenticatedPacketSent p dev;
                                    packet = protect C dev crypt packet
                                in SendBuffers p [crypt @ packet] dev))"

text \<open>The draws of \<open>CreateReply\<close>: a secret when the old one has expired, and a nonce.\<close>

definition reply_draws :: "Device \<Rightarrow> bytes \<times> bytes \<times> Device" where
  "reply_draws dev =
     (let (secret, dev) = (if time_sub (now dev) (cc_secretSet (d_cookieChecker dev)) > CookieRefreshTime
                           then rand_Read 32 dev else ([], dev));
          (nonce, dev) = rand_Read 24 dev
      in (secret, nonce, dev))"

definition DstToBytes :: "Endpoint \<Rightarrow> bytes" where
  "DstToBytes e = ap_MarshalBinary (ep_dst e)"

definition DstIP :: "Endpoint \<Rightarrow> addr" where
  "DstIP e = ap_addr (ep_dst e)"

definition SendHandshakeCookie :: "Crypto \<Rightarrow> QueueHandshakeElement \<Rightarrow> Device \<Rightarrow> Device \<times> (send_error + unit)" where
  "SendHandshakeCookie C el dev =
     (if length (he_packet el) < 8 then (panic dev, Inr ())
      else
      let sender = get_le32 (slice 4 8 (he_packet el));
          (msgType, dev) = pick_one (h_cookie (d_headers dev)) dev;
          (secret, nonce, dev) = reply_draws dev;
          (checker, created) = CreateReply C (now dev) (Some secret) (Some nonce) (d_cookieChecker dev)
             (he_packet el) sender (DstToBytes (he_endpoint el)) msgType;
          dev = dev\<lparr>d_cookieChecker := checker\<rparr>
      in case created of
           Inl CookieRand \<Rightarrow> (dev, Inl ReplyFailed)
         | Inl CookiePanic \<Rightarrow> (panic dev, Inr ())
         | Inr reply \<Rightarrow>
             (case pad_room (s_cookie (d_paddings dev)) MessageCookieReplySize of
                None \<Rightarrow> (panic dev, Inr ())
              | Some padding \<Rightarrow>
                  let (crypt, dev) = rand_Read padding dev;
                      packet = protect C dev crypt (write_cookie_reply reply);
                      (dev, _) = bind_Send [crypt @ packet] (he_endpoint el) dev
                  in (dev, Inr ())))"

definition keepKeyFreshSending :: "Crypto \<Rightarrow> nat \<Rightarrow> Device \<Rightarrow> Device" where
  "keepKeyFreshSending C p dev =
     (case Current p dev of
        None \<Rightarrow> dev
      | Some k \<Rightarrow>
          let kp = d_keypairs dev k
          in if kp_sendNonce kp > RekeyAfterMessages then fst (SendHandshakeInitiation C False p dev)
             else if kp_isInitiator kp then
               let (d, dev) = keyRefreshTimeoutSending dev
               in if time_sub (now dev) (kp_created kp) > d then fst (SendHandshakeInitiation C False p dev) else dev
             else dev)"

subsection \<open>Staging\<close>

text \<open>\<open>StagePackets\<close> drops the oldest container until the queue has room.\<close>

function stage :: "'a list \<Rightarrow> 'a \<Rightarrow> 'a list" where
  "stage staged elems = (if length staged < QueueStagedSize then staged @ [elems] else stage (tl staged) elems)"
  by auto
termination
  by (relation "measure (\<lambda>(staged, _). length staged)") (auto simp: QueueStagedSize_def)

declare stage.simps [simp del]

definition StagePackets :: "nat \<Rightarrow> QueueOutboundElementsContainer \<Rightarrow> Device \<Rightarrow> Device" where
  "StagePackets p c = upd_peer p (\<lambda>peer. peer\<lparr>p_staged := stage (p_staged peer) c\<rparr>)"

text \<open>
  The loop over the elements of a container: those with a nonce, and those out of order, which came
  when the nonces of the keypair were used up. The first result is the keypair's next nonce.
\<close>

fun assign_nonces ::
  "nat \<Rightarrow> u64 \<Rightarrow> QueueOutboundElement list \<Rightarrow> u64 \<times> QueueOutboundElement list \<times> QueueOutboundElement list"
where
  "assign_nonces k n [] = (n, [], [])"
| "assign_nonces k n (el # elems) =
     (let el = el\<lparr>oe_nonce := n\<rparr>
      in if oe_nonce el \<ge> RejectAfterMessages then
           let (n, kept, ooo) = assign_nonces k RejectAfterMessages elems in (n, kept, el # ooo)
         else
           let (n, kept, ooo) = assign_nonces k (n + 1) elems in (n, el\<lparr>oe_keypair := Some k\<rparr> # kept, ooo))"

lemma assign_nonces_rejected [simp]:
  "assign_nonces k RejectAfterMessages elems =
     (RejectAfterMessages, [], map (\<lambda>el. el\<lparr>oe_nonce := RejectAfterMessages\<rparr>) elems)"
  by (induction elems) simp_all

lemma assign_nonces_spent:
  assumes "n \<ge> RejectAfterMessages"
  shows "elems \<noteq> [] \<Longrightarrow> fst (assign_nonces k n elems) = RejectAfterMessages" "fst (snd (assign_nonces k n elems)) = []"
  using assms by (cases elems; simp)+

lemma assign_nonces_ooo: "assign_nonces k n elems = (n', kept, ooo) \<Longrightarrow> ooo \<noteq> [] \<Longrightarrow> n' = RejectAfterMessages"
proof (induction elems arbitrary: n kept)
  case (Cons el elems)
  then show ?case by (cases "n \<ge> RejectAfterMessages") (auto split: prod.splits)
qed simp

text \<open>Whether the current keypair can still be given a nonce, and the variant of the loop below.\<close>

definition usable :: "nat \<Rightarrow> Device \<Rightarrow> bool" where
  "usable p dev = (case Current p dev of None \<Rightarrow> False | Some k \<Rightarrow> kp_sendNonce (d_keypairs dev k) < RejectAfterMessages)"

definition staged_variant :: "nat \<Rightarrow> bool \<Rightarrow> Device \<Rightarrow> nat" where
  "staged_variant p atTop dev =
     (if usable p dev then 2 * length (p_staged (d_peers dev p)) + (if atTop then 3 else 2)
      else if atTop then 0 else 1)"

text \<open>One container handed out: the state, and whether elements went out of order and any have a nonce.\<close>

definition hand_out :: "nat \<Rightarrow> nat \<Rightarrow> QueueOutboundElementsContainer \<Rightarrow> Device \<Rightarrow> Device \<times> bool \<times> bool" where
  "hand_out p k c dev =
     (let (n, kept, ooo) = assign_nonces k (kp_sendNonce (d_keypairs dev k)) (oc_elems c);
          dev = upd_keypair k (\<lambda>kp. kp\<lparr>kp_sendNonce := n\<rparr>) dev;
          dev = (if ooo \<noteq> [] then StagePackets p \<lparr>oc_locked = False, oc_elems = ooo\<rparr> dev else dev);
          dev = (if kept \<noteq> [] \<and> p_isRunning (d_peers dev p)
                 then upd_peer p (\<lambda>peer. peer\<lparr>p_outbound := p_outbound peer @ [\<lparr>oc_locked = True, oc_elems = kept\<rparr>]\<rparr>) dev
                 else dev)
      in (dev, ooo \<noteq> [], kept \<noteq> []))"

lemma hand_out_fields:
  assumes "hand_out p k c dev = (dev', ooo, kept)"
    and "assign_nonces k (kp_sendNonce (d_keypairs dev k)) (oc_elems c) = (n, ks, os)"
  shows "ooo = (os \<noteq> [])" "kept = (ks \<noteq> [])" "Current q dev' = Current q dev"
    "kp_sendNonce (d_keypairs dev' l) = (if l = k then n else kp_sendNonce (d_keypairs dev l))"
    "p_staged (d_peers dev' p) = (if os = [] then p_staged (d_peers dev p)
       else stage (p_staged (d_peers dev p)) \<lparr>oc_locked = False, oc_elems = os\<rparr>)"
proof -
  define D where "D = upd_keypair k (\<lambda>kp. kp\<lparr>kp_sendNonce := n\<rparr>) dev"
  define E where "E = (if os \<noteq> [] then StagePackets p \<lparr>oc_locked = False, oc_elems = os\<rparr> D else D)"
  have "hand_out p k c dev = (if ks \<noteq> [] \<and> p_isRunning (d_peers E p)
      then upd_peer p (\<lambda>peer. peer\<lparr>p_outbound := p_outbound peer @ [\<lparr>oc_locked = True, oc_elems = ks\<rparr>]\<rparr>) E else E,
      os \<noteq> [], ks \<noteq> [])" (is "_ = (?dev', _)")
    unfolding hand_out_def assms(2) Let_def prod.case D_def E_def by (rule refl)
  then have dev': "dev' = ?dev'" and "ooo = (os \<noteq> [])" "kept = (ks \<noteq> [])" using assms(1) by (simp_all only: prod.inject)
  then show "ooo = (os \<noteq> [])" "kept = (ks \<noteq> [])" by simp_all
  have E: "Current q E = Current q dev" "d_keypairs E = d_keypairs D"
    "p_staged (d_peers E p) = (if os = [] then p_staged (d_peers dev p)
       else stage (p_staged (d_peers dev p)) \<lparr>oc_locked = False, oc_elems = os\<rparr>)"
    by (simp_all add: E_def D_def Current_def StagePackets_def)
  then show "Current q dev' = Current q dev" "p_staged (d_peers dev' p) = (if os = [] then p_staged (d_peers dev p)
       else stage (p_staged (d_peers dev p)) \<lparr>oc_locked = False, oc_elems = os\<rparr>)"
    by (auto simp: dev' Current_def)
  show "kp_sendNonce (d_keypairs dev' l) = (if l = k then n else kp_sendNonce (d_keypairs dev l))"
    by (simp add: dev' E(2)) (simp add: D_def)
qed

lemma hand_out_variant:
  assumes "hand_out p k c (upd_peer p (\<lambda>peer. peer\<lparr>p_staged := rest\<rparr>) dev) = (dev', ooo, kept)"
    and "Current p dev = Some k" and "p_staged (d_peers dev p) = c # rest"
  shows "staged_variant p (\<not> kept \<or> ooo) dev' < staged_variant p False dev"
proof -
  obtain n ks os where a: "assign_nonces k (kp_sendNonce (d_keypairs dev k)) (oc_elems c) = (n, ks, os)"
    by (metis prod_cases3)
  note f = hand_out_fields [OF assms(1), unfolded upd_peer_fields, OF a]
  have k: "usable p dev' \<longleftrightarrow> n < RejectAfterMessages"
    and st: "os = [] \<Longrightarrow> p_staged (d_peers dev' p) = rest"
    using f(3-5) assms(2) by (simp_all add: usable_def Current_def)
  have u: "usable p dev \<longleftrightarrow> kp_sendNonce (d_keypairs dev k) < RejectAfterMessages"
    using assms(2) by (simp add: usable_def)
  show ?thesis
  proof (cases "os = []")
    case False
    then have "n = RejectAfterMessages" using assign_nonces_ooo [OF a] by simp
    then show ?thesis using False by (simp add: staged_variant_def k f(1,2))
  next
    case True
    show ?thesis
    proof (cases "usable p dev")
      case u: True
      then show ?thesis using True by (simp add: staged_variant_def k f(1,2) st assms(3))
    next
      case False
      then have "ks = []" using assign_nonces_spent(2) [of "kp_sendNonce (d_keypairs dev k)" k "oc_elems c"] a u by simp
      then have "oc_elems c = []" using True a by (cases "oc_elems c") (auto simp: Let_def split: prod.splits if_splits)
      then show ?thesis using a False u \<open>ks = []\<close> by (simp add: staged_variant_def k f(1,2))
    qed
  qed
qed

text \<open>
  \<open>SendStagedPackets\<close> from the label \<open>top\<close> on, or from the head of the inner loop. The keypair that
  the program holds in a variable during the loop is the current one throughout.
\<close>

function send_staged :: "Crypto \<Rightarrow> nat \<Rightarrow> bool \<Rightarrow> Device \<Rightarrow> Device" where
  "send_staged C p atTop dev =
     (if atTop then
        if p_staged (d_peers dev p) = [] \<or> \<not> isUp dev then dev
        else if \<not> usable p dev \<or>
          time_sub (now dev) (kp_created (d_keypairs dev (the (Current p dev)))) \<ge> keychainExpireTime dev
        then fst (SendHandshakeInitiation C False p dev)
        else send_staged C p False dev
      else
        case (Current p dev, p_staged (d_peers dev p)) of
          (Some k, c # rest) \<Rightarrow>
            let (dev, ooo, kept) = hand_out p k c (upd_peer p (\<lambda>peer. peer\<lparr>p_staged := rest\<rparr>) dev)
            in send_staged C p (\<not> kept \<or> ooo) dev
        | _ \<Rightarrow> dev)"
  by auto
termination
proof (relation "measure (\<lambda>(C, p, atTop, dev). staged_variant p atTop dev)", goal_cases)
  case (3 C p atTop dev x y k c rest z dev' w ooo kept)
  then have "staged_variant p (\<not> kept \<or> ooo) dev' < staged_variant p False dev"
    by (intro hand_out_variant [of p k c rest dev]) simp_all
  then show ?case using 3(1) by simp
qed (simp_all add: staged_variant_def)

declare send_staged.simps [simp del]

definition SendStagedPackets :: "Crypto \<Rightarrow> nat \<Rightarrow> Device \<Rightarrow> Device" where
  "SendStagedPackets C p dev = send_staged C p True dev"

definition NewOutboundElement :: "Device \<Rightarrow> QueueOutboundElement" where
  "NewOutboundElement dev =
     \<lparr>oe_packet = [], oe_nonce = 0, oe_keypair = None, oe_padding = s_transport (d_paddings dev), oe_isKeepalive = False\<rparr>"

definition SendKeepalive :: "Crypto \<Rightarrow> nat \<Rightarrow> Device \<Rightarrow> Device" where
  "SendKeepalive C p dev =
     (let dev = (if p_staged (d_peers dev p) = [] \<and> p_isRunning (d_peers dev p) then
                   upd_peer p (\<lambda>peer. peer\<lparr>p_staged :=
                     [\<lparr>oc_locked = False, oc_elems = [(NewOutboundElement dev)\<lparr>oe_isKeepalive := True\<rparr>]\<rparr>]\<rparr>) dev
                 else dev)
      in SendStagedPackets C p dev)"

subsection \<open>Reading from the tunnel\<close>

definition IPv4offsetTotalLength :: nat where "IPv4offsetTotalLength = 2"
definition IPv4offsetSrc :: nat where "IPv4offsetSrc = 12"
definition IPv4offsetDst :: nat where "IPv4offsetDst = IPv4offsetSrc + 4"
definition IPv6offsetPayloadLength :: nat where "IPv6offsetPayloadLength = 4"
definition IPv6offsetSrc :: nat where "IPv6offsetSrc = 8"
definition IPv6offsetDst :: nat where "IPv6offsetDst = IPv6offsetSrc + 16"
definition ipv4_HeaderLen :: nat where "ipv4_HeaderLen = 20"
definition ipv6_HeaderLen :: nat where "ipv6_HeaderLen = 40"

lemmas ip_consts =
  IPv4offsetTotalLength_def IPv4offsetSrc_def IPv4offsetDst_def IPv6offsetPayloadLength_def IPv6offsetSrc_def
  IPv6offsetDst_def ipv4_HeaderLen_def ipv6_HeaderLen_def

text \<open>The peer of an address; the panic that \<open>Lookup\<close> has on a malformed trie is no peer here.\<close>

definition routed :: "Device \<Rightarrow> bytes \<Rightarrow> nat option" where
  "routed dev ip = (case Lookup (d_allowedips dev) ip of None \<Rightarrow> None | Some r \<Rightarrow> r)"

definition destination :: "Device \<Rightarrow> bytes \<Rightarrow> nat option" where
  "destination dev packet =
     (if packet = [] then None
      else if drop_bit 4 (packet ! 0) = 4 then
        if length packet < ipv4_HeaderLen then None
        else routed dev (slice IPv4offsetDst (IPv4offsetDst + 4) packet)
      else if drop_bit 4 (packet ! 0) = 6 then
        if length packet < ipv6_HeaderLen then None
        else routed dev (slice IPv6offsetDst (IPv6offsetDst + 16) packet)
      else None)"

text \<open>The map \<open>elemsByPeer\<close> as an association list.\<close>

fun add_for_peer :: "'a \<Rightarrow> 'b \<Rightarrow> ('a \<times> 'b list) list \<Rightarrow> ('a \<times> 'b list) list" where
  "add_for_peer p x [] = [(p, [x])]"
| "add_for_peer p x ((q, xs) # rest) = (if p = q then (q, xs @ [x]) # rest else (q, xs) # add_for_peer p x rest)"

fun by_destination ::
  "Device \<Rightarrow> bytes list \<Rightarrow> (nat \<times> QueueOutboundElement list) list \<Rightarrow> (nat \<times> QueueOutboundElement list) list"
where
  "by_destination dev [] m = m"
| "by_destination dev (packet # packets) m =
     by_destination dev packets
       (case destination dev packet of
          None \<Rightarrow> m
        | Some p \<Rightarrow> add_for_peer p ((NewOutboundElement dev)\<lparr>oe_packet := packet\<rparr>) m)"

definition stage_and_send :: "Crypto \<Rightarrow> nat \<times> QueueOutboundElement list \<Rightarrow> Device \<Rightarrow> Device" where
  "stage_and_send C pe dev =
     (if p_isRunning (d_peers dev (fst pe))
      then SendStagedPackets C (fst pe) (StagePackets (fst pe) \<lparr>oc_locked = False, oc_elems = snd pe\<rparr> dev)
      else dev)"

datatype read_error = ErrTooManySegments | ReadFailed

text \<open>
  One round of the loop: the packets that the tunnel delivered, grouped by peer, are staged and
  sent. The result says whether the routine goes on, and whether it calls \<open>Close\<close> on its way out.
\<close>

datatype routine_next = GoOn | Return bool

definition RoutineReadFromTUN :: "Crypto \<Rightarrow> bytes list \<Rightarrow> read_error option \<Rightarrow> Device \<Rightarrow> Device \<times> routine_next" where
  "RoutineReadFromTUN C packets readErr dev =
     (let dev = fold (stage_and_send C) (by_destination dev packets []) dev
      in (dev, case readErr of
                 None \<Rightarrow> GoOn
               | Some ErrTooManySegments \<Rightarrow> GoOn
               | Some ReadFailed \<Rightarrow> Return (\<not> isClosed dev)))"

subsection \<open>Encryption and sending\<close>

definition transport_nonce :: "u64 \<Rightarrow> bytes" where
  "transport_nonce n = replicate 4 0 @ put_le64 n"

definition transport_header :: "u32 \<Rightarrow> u32 \<Rightarrow> u64 \<Rightarrow> bytes" where
  "transport_header ty receiver nonce = put_le32 ty @ put_le32 receiver @ put_le64 nonce"

text \<open>
  The body of the loop over the elements. \<open>Seal\<close> appends to the element's buffer; a result that
  does not fit is a new slice, which the protection of the header in the buffer does not reach.
\<close>

definition encrypt_elem :: "Crypto \<Rightarrow> QueueOutboundElement \<Rightarrow> Device \<Rightarrow> (QueueOutboundElement \<times> Device) option" where
  "encrypt_elem C el dev =
     (case oe_keypair el of
        None \<Rightarrow> None
      | Some k \<Rightarrow>
          if unat (oe_padding el) + MessageTransportHeaderSize > MaxMessageSize then None
          else
          let kp = d_keypairs dev k;
              (crypt, dev) = rand_Read (unat (oe_padding el)) dev;
              (ty, dev) = pick_one (h_transport (d_headers dev)) dev;
              header = transport_header ty (kp_remoteIndex kp) (oe_nonce el);
              packetSize = int (length (oe_packet el));
              mtu = d_mtu dev;
              (paddingSize, dev) = randomPaddingAddition packetSize mtu dev;
              paddingSize = (if paddingSize < 0 then calculatePaddingSize packetSize mtu else paddingSize)
          in if paddingSize < 0 then None
             else
             let sealed = aead_seal C (kp_send kp) (transport_nonce (oe_nonce el))
                            (oe_packet el @ replicate (nat paddingSize) 0) [];
                 header' = (if length crypt + length header + length sealed \<le> MaxMessageSize
                            then protect C dev crypt header else header)
             in Some (el\<lparr>oe_packet := crypt @ header' @ sealed\<rparr>, dev))"

fun encrypt_elems :: "Crypto \<Rightarrow> QueueOutboundElement list \<Rightarrow> Device \<Rightarrow> (QueueOutboundElement list \<times> Device) option" where
  "encrypt_elems C [] dev = Some ([], dev)"
| "encrypt_elems C (el # els) dev =
     Option.bind (encrypt_elem C el dev) (\<lambda>(el, dev).
     Option.bind (encrypt_elems C els dev) (\<lambda>(els, dev). Some (el # els, dev)))"

text \<open>A worker takes a locked container, here the one at position \<open>i\<close> of a peer's queue, and unlocks it when done.\<close>

definition RoutineEncryption :: "Crypto \<Rightarrow> nat \<Rightarrow> nat \<Rightarrow> Device \<Rightarrow> Device" where
  "RoutineEncryption C p i dev =
     (let q = p_outbound (d_peers dev p)
      in if i < length q \<and> oc_locked (q ! i) then
           case encrypt_elems C (oc_elems (q ! i)) dev of
             None \<Rightarrow> panic dev
           | Some (els, dev) \<Rightarrow>
               upd_peer p (\<lambda>peer. peer\<lparr>p_outbound := q[i := \<lparr>oc_locked = False, oc_elems = els\<rparr>]\<rparr>) dev
         else dev)"

text \<open>The sender takes the first container of the queue once it is unlocked.\<close>

definition RoutineSequentialSender :: "Crypto \<Rightarrow> nat \<Rightarrow> Device \<Rightarrow> Device" where
  "RoutineSequentialSender C p dev =
     (case p_outbound (d_peers dev p) of
        [] \<Rightarrow> dev
      | c # rest \<Rightarrow>
          if oc_locked c then dev
          else
          let dev = upd_peer p (\<lambda>peer. peer\<lparr>p_outbound := rest\<rparr>) dev
          in if \<not> p_isRunning (d_peers dev p) then dev
             else
             let dataSent = list_ex (\<lambda>el. \<not> oe_isKeepalive el) (oc_elems c);
                 bufs = map oe_packet (oc_elems c);
                 dev = timersAnyAuthenticatedPacketTraversal p dev;
                 dev = timersAnyAuthenticatedPacketSent p dev;
                 (dev, r) = SendBuffers p bufs dev;
                 dev = (if dataSent then timersDataSent p dev else dev)
             in case r of
                  Inr _ \<Rightarrow> keepKeyFreshSending C p dev
                | Inl (BindFailed (GSODisabled True)) \<Rightarrow> keepKeyFreshSending C p dev
                | Inl _ \<Rightarrow> dev)"

end
