(* ===== verification/Receive.thy ===== *)
theory Receive
  imports Send
begin

text \<open>
  The inbound path of src/device/receive.go: classification of datagrams, the transport and
  handshake queues, decryption, the handshake worker and the sequential receiver with its
  cryptokey routing. As on the way out, a routine is the step that handles one item of its queue.
\<close>

definition QueueHandshakeSize :: nat where "QueueHandshakeSize = 1024"

definition keepKeyFreshReceiving :: "Crypto \<Rightarrow> nat \<Rightarrow> Device \<Rightarrow> Device" where
  "keepKeyFreshReceiving C p dev =
     (if ts_sentLastMinuteHandshake (timers dev p) then dev
      else case Current p dev of
        None \<Rightarrow> dev
      | Some k \<Rightarrow>
          if kp_isInitiator (d_keypairs dev k) then
            let created = kp_created (d_keypairs dev k);
                (d, dev) = keyRefreshTimeoutReceiving dev
            in if time_sub (now dev) created > d
               then fst (SendHandshakeInitiation C False p
                      (upd_timers p (\<lambda>ts. ts\<lparr>ts_sentLastMinuteHandshake := True\<rparr>) dev))
               else dev
          else dev)"

subsection \<open>Datagrams\<close>

text \<open>
  What one datagram becomes: a transport element for a peer, a handshake element, or nothing.
  \<open>unprotect\<close> decrypts \<open>packet[4:n]\<close> with the cipher, whose first four bytes of key stream the type
  field took.
\<close>

datatype incoming = Dropped | Transport nat QueueInboundElement | HandshakeMessage QueueHandshakeElement

definition unprotect :: "Crypto \<Rightarrow> Cipher option \<Rightarrow> nat \<Rightarrow> bytes \<Rightarrow> bytes" where
  "unprotect C cip n packet =
     (case cip of
        None \<Rightarrow> packet
      | Some c \<Rightarrow> take 4 packet @ fst (XORKeyStream C c (slice 4 n packet)) @ drop n packet)"

definition receive_datagram :: "Crypto \<Rightarrow> Device \<Rightarrow> bytes \<times> Endpoint \<Rightarrow> incoming" where
  "receive_datagram C dev de =
     (let packet = fst de; endpoint = snd de
      in if length packet < MinMessageSize then Dropped
         else
         let cip = HeaderProtectionCipher dev (take HeaderCipherNonceSize packet);
             (typeHash, cip) =
               (case cip of
                  None \<Rightarrow> (replicate 4 0, None)
                | Some c \<Rightarrow> let (h, c) = XORKeyStream C c (replicate 4 0) in (h, Some c));
             (msgType, padding) = DeterminePacketTypeAndPadding dev packet MessageUnknownType typeHash;
             packet = drop (unat padding) packet;
             packet = (if cip \<noteq> None then applyHash (take 4 packet) typeHash @ drop 4 packet else packet);
             fixed = (\<lambda>n. if length packet \<noteq> n then Dropped
                          else HandshakeMessage \<lparr>he_msgType = msgType, he_packet = unprotect C cip n packet,
                                                 he_endpoint = endpoint\<rparr>)
         in if msgType = MessageTransportType then
              if length packet < MessageTransportSize then Dropped
              else
              let packet = unprotect C cip MessageTransportHeaderSize packet;
                  receiver = get_le32 (slice MessageTransportOffsetReceiver MessageTransportOffsetCounter packet);
                  value = index_Lookup receiver dev
              in case (ie_keypair value, ie_peer value) of
                   (Some k, Some p) \<Rightarrow>
                     if kp_created (d_keypairs dev k) + keychainExpireTime dev < now dev then Dropped
                     else Transport p \<lparr>ib_packet = Some packet, ib_counter = 0, ib_keypair = k,
                                       ib_endpoint = endpoint, ib_padding = padding\<rparr>
                 | _ \<Rightarrow> Dropped
            else if msgType = MessageInitiationType then fixed MessageInitiationSize
            else if msgType = MessageResponseType then fixed MessageResponseSize
            else if msgType = MessageCookieReplyType then fixed MessageCookieReplySize
            else Dropped)"

text \<open>
  The loop over one batch: transport elements are collected by peer, handshake messages queued while
  there is room.
\<close>

fun receive_batch ::
  "Crypto \<Rightarrow> (bytes \<times> Endpoint) list \<Rightarrow> (nat \<times> QueueInboundElement list) list \<Rightarrow> Device
     \<Rightarrow> (nat \<times> QueueInboundElement list) list \<times> Device"
where
  "receive_batch C [] m dev = (m, dev)"
| "receive_batch C (d # ds) m dev =
     (case receive_datagram C dev d of
        Dropped \<Rightarrow> receive_batch C ds m dev
      | Transport p el \<Rightarrow> receive_batch C ds (add_for_peer p el m) dev
      | HandshakeMessage el \<Rightarrow>
          receive_batch C ds m
            (if length (d_handshakeQueue dev) < QueueHandshakeSize
             then dev\<lparr>d_handshakeQueue := d_handshakeQueue dev @ [el]\<rparr> else dev))"

definition queue_inbound :: "nat \<times> QueueInboundElement list \<Rightarrow> Device \<Rightarrow> Device" where
  "queue_inbound pe dev =
     (if p_isRunning (d_peers dev (fst pe))
      then upd_peer (fst pe) (\<lambda>peer. peer\<lparr>p_inbound := p_inbound peer @ [\<lparr>ic_locked = True, ic_elems = snd pe\<rparr>]\<rparr>) dev
      else dev)"

text \<open>
  One round of the routine. \<open>recv\<close> either delivered datagrams or failed: because the socket is
  closed, with a permanent network error, or otherwise, which is retried ten times in a row. The
  result has the new count of failures, or says that the routine returns.
\<close>

datatype recv_error = ErrClosed | PermanentError | TemporaryError

definition RoutineReceiveIncoming ::
  "Crypto \<Rightarrow> nat \<Rightarrow> recv_error + (bytes \<times> Endpoint) list \<Rightarrow> Device \<Rightarrow> Device \<times> nat option"
where
  "RoutineReceiveIncoming C deathSpiral recv dev =
     (case recv of
        Inl ErrClosed \<Rightarrow> (dev, None)
      | Inl PermanentError \<Rightarrow> (dev, None)
      | Inl TemporaryError \<Rightarrow> (dev, if deathSpiral < 10 then Some (deathSpiral + 1) else None)
      | Inr batch \<Rightarrow>
          let (m, dev) = receive_batch C batch [] dev
          in (fold queue_inbound m dev, Some 0))"

subsection \<open>Decryption\<close>

definition decrypt_elem :: "Crypto \<Rightarrow> Device \<Rightarrow> QueueInboundElement \<Rightarrow> QueueInboundElement option" where
  "decrypt_elem C dev el =
     (case ib_packet el of
        None \<Rightarrow> None
      | Some packet \<Rightarrow>
          let counter = get_le64 (slice MessageTransportOffsetCounter MessageTransportOffsetContent packet);
              content = drop MessageTransportOffsetContent packet
          in Some (el\<lparr>ib_counter := counter,
               ib_packet := aead_open C (kp_receive (d_keypairs dev (ib_keypair el))) (transport_nonce counter) content []\<rparr>))"

fun decrypt_elems :: "Crypto \<Rightarrow> Device \<Rightarrow> QueueInboundElement list \<Rightarrow> QueueInboundElement list option" where
  "decrypt_elems C dev [] = Some []"
| "decrypt_elems C dev (el # els) =
     Option.bind (decrypt_elem C dev el) (\<lambda>el. Option.bind (decrypt_elems C dev els) (\<lambda>els. Some (el # els)))"

definition RoutineDecryption :: "Crypto \<Rightarrow> nat \<Rightarrow> nat \<Rightarrow> Device \<Rightarrow> Device" where
  "RoutineDecryption C p i dev =
     (let q = p_inbound (d_peers dev p)
      in if i < length q \<and> ic_locked (q ! i) then
           case decrypt_elems C dev (ic_elems (q ! i)) of
             None \<Rightarrow> panic dev
           | Some els \<Rightarrow> upd_peer p (\<lambda>peer. peer\<lparr>p_inbound := q[i := \<lparr>ic_locked = False, ic_elems = els\<rparr>]\<rparr>) dev
         else dev)"

subsection \<open>The handshake worker\<close>

definition UnderLoadAfterTime :: int where "UnderLoadAfterTime = second"

definition IsUnderLoad :: "Device \<Rightarrow> Device \<times> bool" where
  "IsUnderLoad dev =
     (if length (d_handshakeQueue dev) \<ge> QueueHandshakeSize div 8
      then (dev\<lparr>d_underLoadUntil := now dev + UnderLoadAfterTime\<rparr>, True)
      else (dev, d_underLoadUntil dev > now dev))"

definition handle_cookie_reply :: "Crypto \<Rightarrow> QueueHandshakeElement \<Rightarrow> Device \<Rightarrow> Device" where
  "handle_cookie_reply C el dev =
     (case read_cookie_reply (he_packet el) of
        None \<Rightarrow> dev
      | Some reply \<Rightarrow>
          (case ie_peer (index_Lookup (mc_Receiver reply) dev) of
             None \<Rightarrow> dev
           | Some p \<Rightarrow>
               if p_isRunning (d_peers dev p)
               then upd_peer p (\<lambda>peer. peer\<lparr>p_cookieGenerator :=
                      fst (ConsumeReply C (now dev) (p_cookieGenerator peer) reply)\<rparr>) dev
               else dev))"

text \<open>The checks before a handshake message is read; \<open>None\<close> is a panic.\<close>

definition admit :: "Crypto \<Rightarrow> QueueHandshakeElement \<Rightarrow> Device \<Rightarrow> (Device \<times> bool) option" where
  "admit C el dev =
     Option.bind (CheckMAC1 C (d_cookieChecker dev) (he_packet el)) (\<lambda>ok.
       if \<not> ok then Some (dev, False)
       else
       let (dev, underLoad) = IsUnderLoad dev
       in if \<not> underLoad then Some (dev, True)
          else Option.bind (CheckMAC2 C (now dev) (d_cookieChecker dev) (he_packet el) (DstToBytes (he_endpoint el))) (\<lambda>ok.
            if \<not> ok then Some (fst (SendHandshakeCookie C el dev), False)
            else Option.bind (Allow (DstIP (he_endpoint el)) (now dev) (d_limiter dev)) (\<lambda>(limiter, allowed).
              Some (dev\<lparr>d_limiter := limiter\<rparr>, allowed))))"

definition handle_initiation :: "Crypto \<Rightarrow> QueueHandshakeElement \<Rightarrow> Device \<Rightarrow> Device" where
  "handle_initiation C el dev =
     (case read_initiation (he_packet el) of
        None \<Rightarrow> dev
      | Some msg \<Rightarrow>
          let (dev, peer) = ConsumeMessageInitiation C (msg\<lparr>mi_Type := he_msgType el\<rparr>) dev
          in case peer of
               None \<Rightarrow> dev
             | Some p \<Rightarrow>
                 let dev = timersAnyAuthenticatedPacketTraversal p dev;
                     dev = timersAnyAuthenticatedPacketReceived p dev;
                     dev = SetEndpointFromPacket p (he_endpoint el) dev;
                     dev = upd_peer p (\<lambda>peer. peer\<lparr>p_rxBytes := p_rxBytes peer + of_nat (length (he_packet el))\<rparr>) dev
                 in fst (SendHandshakeResponse C p dev))"

definition handle_response :: "Crypto \<Rightarrow> QueueHandshakeElement \<Rightarrow> Device \<Rightarrow> Device" where
  "handle_response C el dev =
     (case read_response (he_packet el) of
        None \<Rightarrow> dev
      | Some msg \<Rightarrow>
          let (dev, peer) = ConsumeMessageResponse C (msg\<lparr>mr_Type := he_msgType el\<rparr>) dev
          in case peer of
               None \<Rightarrow> dev
             | Some p \<Rightarrow>
                 let dev = SetEndpointFromPacket p (he_endpoint el) dev;
                     dev = upd_peer p (\<lambda>peer. peer\<lparr>p_rxBytes := p_rxBytes peer + of_nat (length (he_packet el))\<rparr>) dev;
                     dev = timersAnyAuthenticatedPacketTraversal p dev;
                     dev = timersAnyAuthenticatedPacketReceived p dev;
                     (dev, began) = BeginSymmetricSession C p dev
                 in case began of
                      Inl _ \<Rightarrow> dev
                    | Inr _ \<Rightarrow> SendKeepalive C p (timersHandshakeComplete p (timersSessionDerived p dev)))"

definition RoutineHandshake :: "Crypto \<Rightarrow> Device \<Rightarrow> Device" where
  "RoutineHandshake C dev =
     (case d_handshakeQueue dev of
        [] \<Rightarrow> dev
      | el # rest \<Rightarrow>
          let dev = dev\<lparr>d_handshakeQueue := rest\<rparr>
          in if he_msgType el = MessageCookieReplyType then handle_cookie_reply C el dev
             else if he_msgType el = MessageInitiationType \<or> he_msgType el = MessageResponseType then
               case admit C el dev of
                 None \<Rightarrow> panic dev
               | Some (dev, False) \<Rightarrow> dev
               | Some (dev, True) \<Rightarrow>
                   if he_msgType el = MessageInitiationType then handle_initiation C el dev
                   else handle_response C el dev
             else dev)"

subsection \<open>The sequential receiver\<close>

text \<open>
  The checks on a decrypted packet from a peer: it gives what is written to the tunnel. The length of
  an IPv6 packet is a 16 bit sum; the source address is sliced from the buffer, which is longer.
\<close>

definition accept_packet :: "Device \<Rightarrow> nat \<Rightarrow> bytes \<Rightarrow> bytes option" where
  "accept_packet dev p packet =
     (if drop_bit 4 (packet ! 0) = 4 then
        if length packet < ipv4_HeaderLen then None
        else
        let len = get_be16 (slice IPv4offsetTotalLength (IPv4offsetTotalLength + 2) packet)
        in if unat len > length packet \<or> unat len < ipv4_HeaderLen then None
           else if routed dev (slice IPv4offsetSrc (IPv4offsetSrc + 4) packet) \<noteq> Some p then None
           else Some (take (unat len) packet)
      else if drop_bit 4 (packet ! 0) = 6 then
        if length packet < ipv6_HeaderLen then None
        else
        let len = get_be16 (slice IPv6offsetPayloadLength (IPv6offsetPayloadLength + 2) packet) + of_nat ipv6_HeaderLen
        in if unat len > length packet then None
           else if routed dev (slice IPv6offsetSrc (IPv6offsetSrc + 16) packet) \<noteq> Some p then None
           else Some (take (unat len) packet)
      else None)"

record RxState =
  rx_dev :: Device
  rx_tail :: "Endpoint option"
  rx_data :: bool
  rx_len :: u64
  rx_bufs :: "bytes list"

definition receive_elem :: "Crypto \<Rightarrow> nat \<Rightarrow> QueueInboundElement \<Rightarrow> RxState \<Rightarrow> RxState" where
  "receive_elem C p el st =
     (case ib_packet el of
        None \<Rightarrow> st
      | Some packet \<Rightarrow>
          let k = ib_keypair el;
              (f, ok) = ValidateCounter (kp_replayFilter (d_keypairs (rx_dev st) k)) (ib_counter el) RejectAfterMessages;
              dev = upd_keypair k (\<lambda>kp. kp\<lparr>kp_replayFilter := f\<rparr>) (rx_dev st)
          in if \<not> ok then st\<lparr>rx_dev := dev\<rparr>
             else
             let (dev, first) = ReceivedWithKeypair p k dev;
                 dev = (if first
                        then SendStagedPackets C p (timersHandshakeComplete p (SetEndpointFromPacket p (ib_endpoint el) dev))
                        else dev);
                 st = st\<lparr>rx_dev := dev, rx_tail := Some (ib_endpoint el),
                         rx_len := rx_len st + of_nat (length packet + MinMessageSize)\<rparr>
             in if packet = [] \<or> packet ! 0 = 0 then st
                else
                let st = st\<lparr>rx_data := True\<rparr>
                in case accept_packet dev p packet of
                     None \<Rightarrow> st
                   | Some buf \<Rightarrow> st\<lparr>rx_bufs := rx_bufs st @ [buf]\<rparr>)"

definition RoutineSequentialReceiver :: "Crypto \<Rightarrow> nat \<Rightarrow> Device \<Rightarrow> Device" where
  "RoutineSequentialReceiver C p dev =
     (case p_inbound (d_peers dev p) of
        [] \<Rightarrow> dev
      | c # rest \<Rightarrow>
          if ic_locked c then dev
          else
          let dev = upd_peer p (\<lambda>peer. peer\<lparr>p_inbound := rest\<rparr>) dev;
              st = fold (receive_elem C p) (ic_elems c)
                     \<lparr>rx_dev = dev, rx_tail = None, rx_data = False, rx_len = 0, rx_bufs = []\<rparr>;
              dev = upd_peer p (\<lambda>peer. peer\<lparr>p_rxBytes := p_rxBytes peer + rx_len st\<rparr>) (rx_dev st);
              dev = (case rx_tail st of
                       None \<Rightarrow> dev
                     | Some e \<Rightarrow>
                         let dev = SetEndpointFromPacket p e dev;
                             dev = keepKeyFreshReceiving C p dev;
                             dev = timersAnyAuthenticatedPacketTraversal p dev
                         in timersAnyAuthenticatedPacketReceived p dev);
              dev = (if rx_data st then timersDataReceived p dev else dev)
          in dev\<lparr>d_written := d_written dev @ rx_bufs st\<rparr>)"

end
