(* ===== verification/Expiry.thy ===== *)
theory Expiry
  imports Receive
begin

text \<open>
  What the timers of src/device/timers.go do when they expire, and the step by which the runtime
  calls an expired timer back.
\<close>

definition expiredRetransmitHandshake :: "Crypto \<Rightarrow> nat \<Rightarrow> Device \<Rightarrow> Device" where
  "expiredRetransmitHandshake C p dev =
     (if ts_handshakeAttempts (timers dev p) > ts_maxHandshakeAttempts (timers dev p) then
        let dev = (if timersActive p dev
                   then upd_timers p (\<lambda>ts. ts\<lparr>ts_sendKeepalive := Del (ts_sendKeepalive ts)\<rparr>) dev else dev);
            dev = FlushStagedPackets p dev
        in if timersActive p dev \<and> \<not> IsPending (ts_zeroKeyMaterial (timers dev p))
           then upd_timers p (\<lambda>ts. ts\<lparr>ts_zeroKeyMaterial :=
                  Mod (now dev) (wrap64 (keychainExpireTime dev * 3)) (ts_zeroKeyMaterial ts)\<rparr>) dev
           else dev
      else
        let dev = upd_timers p (\<lambda>ts. ts\<lparr>ts_handshakeAttempts := ts_handshakeAttempts ts + 1\<rparr>) dev;
            dev = markEndpointSrcForClearing p dev
        in fst (SendHandshakeInitiation C True p dev))"

definition expiredSendKeepalive :: "Crypto \<Rightarrow> nat \<Rightarrow> Device \<Rightarrow> Device" where
  "expiredSendKeepalive C p dev =
     (let dev = SendKeepalive C p dev
      in if ts_needAnotherKeepalive (timers dev p) then
           let dev = upd_timers p (\<lambda>ts. ts\<lparr>ts_needAnotherKeepalive := False\<rparr>) dev
           in if timersActive p dev then
                let (d, dev) = sendKeepaliveTimeout dev
                in upd_timers p (\<lambda>ts. ts\<lparr>ts_sendKeepalive := Mod (now dev) d (ts_sendKeepalive ts)\<rparr>) dev
              else dev
         else dev)"

definition expiredNewHandshake :: "Crypto \<Rightarrow> nat \<Rightarrow> Device \<Rightarrow> Device" where
  "expiredNewHandshake C p dev = fst (SendHandshakeInitiation C False p (markEndpointSrcForClearing p dev))"

definition expiredZeroKeyMaterial :: "nat \<Rightarrow> Device \<Rightarrow> Device" where
  "expiredZeroKeyMaterial p dev = ZeroAndFlushAll p dev"

definition expiredPersistentKeepalive :: "Crypto \<Rightarrow> nat \<Rightarrow> Device \<Rightarrow> Device" where
  "expiredPersistentKeepalive C p dev =
     (if \<not> range_IsZero (p_persistentKeepaliveInterval (d_peers dev p)) then SendKeepalive C p dev else dev)"

subsection \<open>Calling back\<close>

datatype timer_id = TRetransmit | TKeepalive | TNewHandshake | TZeroKeys | TPersistent

fun get_timer :: "timer_id \<Rightarrow> Timers \<Rightarrow> Timer" where
  "get_timer TRetransmit ts = ts_retransmitHandshake ts"
| "get_timer TKeepalive ts = ts_sendKeepalive ts"
| "get_timer TNewHandshake ts = ts_newHandshake ts"
| "get_timer TZeroKeys ts = ts_zeroKeyMaterial ts"
| "get_timer TPersistent ts = ts_persistentKeepalive ts"

fun set_timer :: "timer_id \<Rightarrow> Timer \<Rightarrow> Timers \<Rightarrow> Timers" where
  "set_timer TRetransmit t ts = ts\<lparr>ts_retransmitHandshake := t\<rparr>"
| "set_timer TKeepalive t ts = ts\<lparr>ts_sendKeepalive := t\<rparr>"
| "set_timer TNewHandshake t ts = ts\<lparr>ts_newHandshake := t\<rparr>"
| "set_timer TZeroKeys t ts = ts\<lparr>ts_zeroKeyMaterial := t\<rparr>"
| "set_timer TPersistent t ts = ts\<lparr>ts_persistentKeepalive := t\<rparr>"

fun expired :: "Crypto \<Rightarrow> timer_id \<Rightarrow> nat \<Rightarrow> Device \<Rightarrow> Device" where
  "expired C TRetransmit p dev = expiredRetransmitHandshake C p dev"
| "expired C TKeepalive p dev = expiredSendKeepalive C p dev"
| "expired C TNewHandshake p dev = expiredNewHandshake C p dev"
| "expired C TZeroKeys p dev = expiredZeroKeyMaterial p dev"
| "expired C TPersistent p dev = expiredPersistentKeepalive C p dev"

text \<open>The runtime calls a timer back when its deadline has passed.\<close>

definition timer_callback :: "Crypto \<Rightarrow> timer_id \<Rightarrow> nat \<Rightarrow> Device \<Rightarrow> Device" where
  "timer_callback C i p dev =
     (case tm_deadline (get_timer i (timers dev p)) of
        None \<Rightarrow> dev
      | Some d \<Rightarrow>
          if now dev < d then dev
          else
          let (t, fired) = timer_fire (get_timer i (timers dev p));
              dev = upd_timers p (set_timer i t) dev
          in case fired of None \<Rightarrow> dev | Some _ \<Rightarrow> expired C i p dev)"

end
