(* ===== verification/Lifecycle.thy ===== *)
theory Lifecycle
  imports Expiry
begin

text \<open>
  The device as a whole: src/device/device.go and tun.go. The state machine down, up, closed; the
  bind; adding and removing peers; the private key. Goroutines are not created here: their
  steps are the routines of the other theories.
\<close>

subsection \<open>Calls of the bind\<close>

definition bind_Close :: "Device \<Rightarrow> Device \<times> bool" where
  "bind_Close dev =
     (let dev' = dev\<lparr>d_bindOpen := False\<rparr>
      in case e_closes (d_env dev) of
           [] \<Rightarrow> (dev', True)
         | ok # oks \<Rightarrow> (dev'\<lparr>d_env := (d_env dev)\<lparr>e_closes := oks\<rparr>\<rparr>, ok))"

definition bind_Open :: "u16 \<Rightarrow> Device \<Rightarrow> Device \<times> u16 option" where
  "bind_Open port dev =
     (case e_opens (d_env dev) of
        [] \<Rightarrow> (dev\<lparr>d_bindOpen := True\<rparr>, Some port)
      | r # rs \<Rightarrow> (dev\<lparr>d_bindOpen := (r \<noteq> None), d_env := (d_env dev)\<lparr>e_opens := rs\<rparr>\<rparr>, r))"

definition bind_SetMark :: "u32 \<Rightarrow> Device \<Rightarrow> Device \<times> bool" where
  "bind_SetMark mark dev =
     (case e_marks (d_env dev) of
        [] \<Rightarrow> (dev, True)
      | ok # oks \<Rightarrow> (dev\<lparr>d_env := (d_env dev)\<lparr>e_marks := oks\<rparr>\<rparr>, ok))"

definition startRouteListener :: "Device \<Rightarrow> Device \<times> bool" where
  "startRouteListener dev =
     (case e_listeners (d_env dev) of
        [] \<Rightarrow> (dev, True)
      | ok # oks \<Rightarrow> (dev\<lparr>d_env := (d_env dev)\<lparr>e_listeners := oks\<rparr>\<rparr>, ok))"

datatype device_error = CloseFailed | OpenFailed | ListenerFailed | MarkFailed

definition closeBindLocked :: "Device \<Rightarrow> Device \<times> device_error option" where
  "closeBindLocked dev = (let (dev, ok) = bind_Close dev in (dev, if ok then None else Some CloseFailed))"

definition BindClose :: "Device \<Rightarrow> Device \<times> device_error option" where
  "BindClose dev = closeBindLocked dev"

definition mark_all_for_clearing :: "Device \<Rightarrow> Device" where
  "mark_all_for_clearing dev = fold (markEndpointSrcForClearing \<circ> snd) (d_keyMap dev) dev"

definition BindSetMark :: "u32 \<Rightarrow> Device \<Rightarrow> Device \<times> device_error option" where
  "BindSetMark mark dev =
     (if d_fwmark dev = mark then (dev, None)
      else
      let dev = dev\<lparr>d_fwmark := mark\<rparr>;
          (dev, ok) = (if isUp dev then bind_SetMark mark dev else (dev, True))
      in if \<not> ok then (dev, Some MarkFailed) else (mark_all_for_clearing dev, None))"

definition BindUpdate :: "Device \<Rightarrow> Device \<times> device_error option" where
  "BindUpdate dev =
     (let (dev, err) = closeBindLocked dev
      in if err \<noteq> None then (dev, err)
         else if \<not> isUp dev then (dev, None)
         else
         let (dev, opened) = bind_Open (d_port dev) dev
         in case opened of
              None \<Rightarrow> (dev\<lparr>d_port := 0\<rparr>, Some OpenFailed)
            | Some port \<Rightarrow>
                let dev = dev\<lparr>d_port := port\<rparr>;
                    (dev, ok) = startRouteListener dev
                in if \<not> ok then ((fst (bind_Close dev))\<lparr>d_port := 0\<rparr>, Some ListenerFailed)
                   else
                   let (dev, ok) = (if d_fwmark dev \<noteq> 0 then bind_SetMark (d_fwmark dev) dev else (dev, True))
                   in if \<not> ok then (dev, Some MarkFailed) else (mark_all_for_clearing dev, None))"

subsection \<open>Peers\<close>

text \<open>A panic of the routing table is one of the device.\<close>

definition removePeerLocked :: "bytes \<times> nat \<Rightarrow> Device \<Rightarrow> Device" where
  "removePeerLocked kp dev =
     (case RemoveByPeer (d_allowedips dev) (snd kp) of
        None \<Rightarrow> panic dev
      | Some ips \<Rightarrow>
          let dev = Stop (snd kp) (dev\<lparr>d_allowedips := ips\<rparr>)
          in dev\<lparr>d_keyMap := filter (\<lambda>e. fst e \<noteq> fst kp) (d_keyMap dev)\<rparr>)"

definition RemovePeer :: "bytes \<Rightarrow> Device \<Rightarrow> Device" where
  "RemovePeer k dev =
     (case LookupPeer k dev of None \<Rightarrow> dev | Some p \<Rightarrow> removePeerLocked (k, p) dev)"

definition RemoveAllPeers :: "Device \<Rightarrow> Device" where
  "RemoveAllPeers dev = (fold removePeerLocked (d_keyMap dev) dev)\<lparr>d_keyMap := []\<rparr>"

definition SetPrivateKey :: "Crypto \<Rightarrow> bytes \<Rightarrow> Device \<Rightarrow> Device" where
  "SetPrivateKey C sk dev =
     (if key_Equals sk (d_privateKey dev) then dev
      else
      let pk = publicKey C sk;
          dev = fold (\<lambda>kp dev. if key_Equals (hs_remoteStatic (handshake dev (snd kp))) pk
                               then removePeerLocked kp dev else dev) (d_keyMap dev) dev;
          dev = dev\<lparr>d_privateKey := sk, d_publicKey := pk,
                    d_cookieChecker := checker_Init C (d_cookieChecker dev) pk\<rparr>;
          dev = fold (\<lambda>kp. upd_handshake (snd kp) (\<lambda>h. h\<lparr>hs_precomputedStaticStatic :=
                  scalar_mult C sk (hs_remoteStatic h)\<rparr>)) (d_keyMap dev) dev
      in fold (ExpireCurrentKeypairs \<circ> snd) (d_keyMap dev) dev)"

subsection \<open>The states of a device\<close>

definition upLocked :: "Crypto \<Rightarrow> Device \<Rightarrow> Device \<times> device_error option" where
  "upLocked C dev =
     (let (dev, err) = BindUpdate dev
      in if err \<noteq> None then (dev, err)
         else
         (fold (\<lambda>kp dev.
            let dev = Start (snd kp) dev
            in if \<not> range_IsZero (p_persistentKeepaliveInterval (d_peers dev (snd kp)))
               then SendKeepalive C (snd kp) dev else dev) (d_keyMap dev) dev, None))"

definition downLocked :: "Device \<Rightarrow> Device \<times> device_error option" where
  "downLocked dev =
     (let (dev, err) = BindClose dev
      in (fold (Stop \<circ> snd) (d_keyMap dev) dev, err))"

definition changeState :: "Crypto \<Rightarrow> deviceState \<Rightarrow> Device \<Rightarrow> Device \<times> device_error option" where
  "changeState C want dev =
     (let old = d_state dev
      in if old = deviceStateClosed then (dev, None)
         else if want = old then (dev, None)
         else
         let (dev, err, down) =
               (if want = deviceStateUp then
                  let (dev, err) = upLocked C (dev\<lparr>d_state := deviceStateUp\<rparr>) in (dev, err, err \<noteq> None)
                else (dev, None, want = deviceStateDown))
         in if down then
              let (dev, errDown) = downLocked (dev\<lparr>d_state := deviceStateDown\<rparr>)
              in (dev, if err = None then errDown else err)
            else (dev, err))"

definition Up :: "Crypto \<Rightarrow> Device \<Rightarrow> Device \<times> device_error option" where
  "Up C dev = changeState C deviceStateUp dev"

definition Down :: "Crypto \<Rightarrow> Device \<Rightarrow> Device \<times> device_error option" where
  "Down C dev = changeState C deviceStateDown dev"

definition device_Close :: "Device \<Rightarrow> Device" where
  "device_Close dev =
     (if isClosed dev then dev
      else
      let dev = dev\<lparr>d_state := deviceStateClosed\<rparr>;
          (dev, _) = downLocked dev;
          dev = RemoveAllPeers dev
      in case Ratelimiter.Close (d_limiter dev) of
           None \<Rightarrow> panic dev
         | Some limiter \<Rightarrow> dev\<lparr>d_limiter := limiter\<rparr>)"

definition SendKeepalivesToPeersWithCurrentKeypair :: "Crypto \<Rightarrow> Device \<Rightarrow> Device" where
  "SendKeepalivesToPeersWithCurrentKeypair C dev =
     (if \<not> isUp dev then dev
      else
      let timeout = keychainExpireTime dev
      in fold (\<lambda>kp dev.
           case Current (snd kp) dev of
             None \<Rightarrow> dev
           | Some k \<Rightarrow>
               if kp_created (d_keypairs dev k) + timeout < now dev then dev
               else SendKeepalive C (snd kp) dev) (d_keyMap dev) dev)"

definition DefaultMTU :: int where "DefaultMTU = 1420"

text \<open>\<open>mtu\<close> is what the tunnel reports, \<open>None\<close> an error; it is stored as an \<open>int32\<close>.\<close>

definition int32 :: "int \<Rightarrow> int" where
  "int32 x = sint (of_int x :: u32)"

definition NewDevice :: "int option \<Rightarrow> Env \<Rightarrow> Device option" where
  "NewDevice mtu env =
     Option.bind (Ratelimiter.Init zero_ratelimiter) (\<lambda>limiter.
       Some (index_Init ((zero_device env)\<lparr>
         d_mtu := int32 (case mtu of None \<Rightarrow> DefaultMTU | Some m \<Rightarrow> m),
         d_limiter := limiter,
         d_headers := \<lparr>h_init = FromUint32 MessageInitiationType MessageInitiationType,
           h_cookie = FromUint32 MessageCookieReplyType MessageCookieReplyType,
           h_response = FromUint32 MessageResponseType MessageResponseType,
           h_transport = FromUint32 MessageTransportType MessageTransportType\<rparr>\<rparr>)))"

subsection \<open>Events of the tunnel\<close>

record tun_event =
  EventUp :: bool
  EventDown :: bool
  EventMTUUpdate :: bool

definition update_mtu :: "int option \<Rightarrow> Device \<Rightarrow> Device option" where
  "update_mtu mtu dev =
     (case mtu of
        None \<Rightarrow> None
      | Some m \<Rightarrow>
          if m < 0 then None
          else Some (dev\<lparr>d_mtu := int32 (if m > int MaxContentSize then int MaxContentSize else m)\<rparr>))"

text \<open>One event; \<open>mtu\<close> is what the tunnel reports then. Without an MTU the loop goes on to the next event.\<close>

definition RoutineTUNEventReader :: "Crypto \<Rightarrow> tun_event \<Rightarrow> int option \<Rightarrow> Device \<Rightarrow> Device" where
  "RoutineTUNEventReader C event mtu dev =
     (case (if EventMTUUpdate event then update_mtu mtu dev else Some dev) of
        None \<Rightarrow> dev
      | Some dev \<Rightarrow>
          let dev = (if EventUp event then fst (Up C dev) else dev)
          in if EventDown event then fst (Down C dev) else dev)"

end
