(* ===== verification/Netip.thy ===== *)
theory Netip
  imports GoNet GoStrings AllowedIPs
begin

text \<open>
  The text of addresses, as package \<open>net/netip\<close> of the Go standard library prints and parses it:
  \<open>Addr\<close>, \<open>AddrPort\<close> and \<open>Prefix\<close>. Only whether parsing fails is modelled, not the message.
\<close>

subsection \<open>Printing\<close>

fun join_with :: "char \<Rightarrow> string list \<Rightarrow> string" where
  "join_with c [] = []"
| "join_with c [s] = s"
| "join_with c (s # t # ss) = s @ c # join_with c (t # ss)"

definition print4 :: "bytes \<Rightarrow> string" where
  "print4 b = join_with (CHR ''.'') (map (\<lambda>x. decimal (unat x)) b)"

text \<open>The 16-bit groups of an address.\<close>

fun groups :: "bytes \<Rightarrow> nat list" where
  "groups (a # b # bs) = (unat a * 256 + unat b) # groups bs"
| "groups _ = []"

fun hex_nat :: "nat \<Rightarrow> string" where
  "hex_nat n = (if n < 16 then [hex_char n] else hex_nat (n div 16) @ [hex_char (n mod 16)])"

declare hex_nat.simps [simp del]

text \<open>How many zeros a list starts with, and the first longest run of at least two: its start and end.\<close>

fun zeros_at_start :: "nat list \<Rightarrow> nat" where
  "zeros_at_start (0 # gs) = Suc (zeros_at_start gs)"
| "zeros_at_start _ = 0"

fun longest_run :: "nat \<Rightarrow> nat list \<Rightarrow> (nat \<times> nat) option \<Rightarrow> (nat \<times> nat) option" where
  "longest_run i [] best = best"
| "longest_run i (g # gs) best =
     (let l = zeros_at_start (g # gs);
          best = (if l \<ge> 2 \<and> (case best of None \<Rightarrow> True | Some (s, e) \<Rightarrow> l > e - s) then Some (i, i + l) else best)
      in longest_run (i + 1) gs best)"

definition print6 :: "bytes \<Rightarrow> string" where
  "print6 b =
     (let gs = groups b
      in case longest_run 0 gs None of
           None \<Rightarrow> join_with (CHR '':'') (map hex_nat gs)
         | Some (s, e) \<Rightarrow>
             join_with (CHR '':'') (map hex_nat (take s gs)) @ ''::'' @ join_with (CHR '':'') (map hex_nat (drop e gs)))"

definition print_zone :: "string \<Rightarrow> string" where
  "print_zone z = (if z = [] then [] else CHR ''%'' # z)"

fun addr_String :: "addr \<Rightarrow> string" where
  "addr_String ZeroAddr = ''invalid IP''"
| "addr_String (V4 b) = print4 b"
| "addr_String (V6 b z) =
     (if Is4In6 (V6 b z) then ''::ffff:'' @ print4 (drop 12 b) else print6 b) @ print_zone z"

definition ap_String :: "addrport \<Rightarrow> string" where
  "ap_String a =
     (case ap_addr a of
        ZeroAddr \<Rightarrow> ''invalid AddrPort''
      | V4 b \<Rightarrow> print4 b @ '':'' @ decimal (unat (ap_port a))
      | V6 b z \<Rightarrow> ''['' @ addr_String (V6 b z) @ '']:'' @ decimal (unat (ap_port a)))"

definition prefix_valid :: "Prefix \<Rightarrow> bool" where
  "prefix_valid pfx \<longleftrightarrow>
     (case Addr pfx of ZeroAddr \<Rightarrow> False | V4 b \<Rightarrow> 0 \<le> Bits pfx \<and> Bits pfx \<le> 32
      | V6 b z \<Rightarrow> z = [] \<and> 0 \<le> Bits pfx \<and> Bits pfx \<le> 128)"

definition prefix_String :: "Prefix \<Rightarrow> string" where
  "prefix_String pfx =
     (if prefix_valid pfx then addr_String (Addr pfx) @ ''/'' @ decimal (nat (Bits pfx)) else ''invalid Prefix'')"

subsection \<open>Parsing\<close>

definition parse_octet :: "string \<Rightarrow> byte option" where
  "parse_octet s =
     (if length s > 1 \<and> hd s = CHR ''0'' then None
      else case ParseUint s 8 of Inl _ \<Rightarrow> None | Inr v \<Rightarrow> Some (of_nat v))"

definition parseIPv4 :: "string \<Rightarrow> bytes option" where
  "parseIPv4 s = (let fs = split_at (CHR ''.'') s in if length fs = 4 then those (map parse_octet fs) else None)"

text \<open>A hexadecimal group of at most four digits, and the rest of the string.\<close>

fun hex_group :: "nat \<Rightarrow> nat \<Rightarrow> string \<Rightarrow> (nat \<times> nat \<times> string) option" where
  "hex_group off acc [] = Some (off, acc, [])"
| "hex_group off acc (c # cs) =
     (case hex_val c of
        None \<Rightarrow> Some (off, acc, c # cs)
      | Some d \<Rightarrow> if off > 3 then None else hex_group (off + 1) (acc * 16 + d) cs)"

lemma hex_group_rest: "hex_group off acc s = Some (off', acc', s') \<Longrightarrow> off' = off + (length s - length s') \<and> length s' \<le> length s"
  by (induction off acc s rule: hex_group.induct) (auto split: option.splits if_splits)

text \<open>
  The loop of \<open>parseIPv6\<close>: the bytes read so far and the position of the ellipsis. It gives both
  and what is left of the string.
\<close>

function parse6_loop :: "string \<Rightarrow> bytes \<Rightarrow> nat option \<Rightarrow> (bytes \<times> nat option \<times> string) option" where
  "parse6_loop s ip ell =
     (if length ip \<ge> 16 then Some (ip, ell, s)
      else
      case hex_group 0 0 s of
        None \<Rightarrow> None
      | Some (off, acc, rest) \<Rightarrow>
          if off = 0 then None
          else if rest \<noteq> [] \<and> hd rest = CHR ''.'' then
            if (ell = None \<and> length ip \<noteq> 12) \<or> length ip + 4 > 16 then None
            else map_option (\<lambda>b. (ip @ b, ell, [])) (parseIPv4 s)
          else
          let ip = ip @ [of_nat (acc div 256), of_nat (acc mod 256)]
          in case rest of
               [] \<Rightarrow> Some (ip, ell, [])
             | [c] \<Rightarrow> None
             | c # d # rest' \<Rightarrow>
                 if c \<noteq> CHR '':'' then None
                 else if d = CHR '':'' then
                   if ell \<noteq> None then None
                   else if rest' = [] then Some (ip, Some (length ip), [])
                   else parse6_loop rest' ip (Some (length ip))
                 else parse6_loop (d # rest') ip ell)"
  by auto
termination
  by (relation "measure (\<lambda>(s, ip, ell). length s)") (auto dest!: hex_group_rest)

declare parse6_loop.simps [simp del]

definition expand :: "bytes \<Rightarrow> nat option \<Rightarrow> bytes option" where
  "expand ip ell =
     (if length ip < 16 then
        case ell of None \<Rightarrow> None | Some e \<Rightarrow> Some (take e ip @ replicate (16 - length ip) 0 @ drop e ip)
      else if ell \<noteq> None then None else Some ip)"

definition parseIPv6 :: "string \<Rightarrow> addr option" where
  "parseIPv6 inp =
     (let (s, zone, ok) =
            (case cut_at (CHR ''%'') inp of
               None \<Rightarrow> (inp, '''', True)
             | Some (s, zone) \<Rightarrow> (s, zone, zone \<noteq> []))
      in if \<not> ok then None
         else if take 2 s = ''::'' then
           if length s = 2 then Some (V6 (replicate 16 0) zone)
           else Option.bind (parse6_loop (drop 2 s) [] (Some 0)) (\<lambda>(ip, ell, rest).
                if rest \<noteq> [] then None else map_option (\<lambda>b. V6 b zone) (expand ip ell))
         else Option.bind (parse6_loop s [] None) (\<lambda>(ip, ell, rest).
                if rest \<noteq> [] then None else map_option (\<lambda>b. V6 b zone) (expand ip ell)))"

fun parse_addr_by :: "string \<Rightarrow> string \<Rightarrow> addr option" where
  "parse_addr_by [] s = None"
| "parse_addr_by (c # cs) s =
     (if c = CHR ''.'' then map_option V4 (parseIPv4 s)
      else if c = CHR '':'' then parseIPv6 s
      else if c = CHR ''%'' then None
      else parse_addr_by cs s)"

definition ParseAddr :: "string \<Rightarrow> addr option" where
  "ParseAddr s = parse_addr_by s s"

text \<open>\<open>LastIndexByte\<close> as a split.\<close>

definition cut_last :: "char \<Rightarrow> string \<Rightarrow> (string \<times> string) option" where
  "cut_last c s = map_option (\<lambda>(a, b). (rev b, rev a)) (cut_at c (rev s))"

definition Is6 :: "addr \<Rightarrow> bool" where
  "Is6 a = (case a of V6 _ _ \<Rightarrow> True | _ \<Rightarrow> False)"

definition ParseAddrPort :: "string \<Rightarrow> addrport option" where
  "ParseAddrPort s =
     Option.bind (cut_last (CHR '':'') s) (\<lambda>(ip, port).
       if ip = [] \<or> port = [] then None
       else
       let v6 = (hd ip = CHR ''['')
       in if v6 \<and> (length ip < 2 \<or> last ip \<noteq> CHR '']'') then None
          else
          let ip = (if v6 then butlast (tl ip) else ip)
          in case ParseUint port 16 of
               Inl _ \<Rightarrow> None
             | Inr n \<Rightarrow>
                 Option.bind (ParseAddr ip) (\<lambda>a.
                   if (v6 \<and> Is4 a) \<or> (\<not> v6 \<and> Is6 a) then None
                   else Some \<lparr>ap_addr = a, ap_port = of_nat n\<rparr>))"

definition has_zone :: "addr \<Rightarrow> bool" where
  "has_zone a = (case a of V6 _ z \<Rightarrow> z \<noteq> [] | _ \<Rightarrow> False)"

definition ParsePrefix :: "string \<Rightarrow> Prefix option" where
  "ParsePrefix s =
     Option.bind (cut_last (CHR ''/'') s) (\<lambda>(ip, bitsStr).
     Option.bind (ParseAddr ip) (\<lambda>a.
       if has_zone a then None
       else if length bitsStr > 1 \<and> digit_val (hd bitsStr) \<in> {None, Some 0} then None
       else case Atoi bitsStr of
              Inl _ \<Rightarrow> None
            | Inr n \<Rightarrow>
                if n < 0 \<or> n > (if Is6 a then 128 else 32) then None
                else Some \<lparr>Addr = a, Bits = n\<rparr>))"

subsection \<open>What is parsed is well formed\<close>

lemma those_length: "those xs = Some ys \<Longrightarrow> length ys = length xs"
  by (induction xs arbitrary: ys) (auto split: option.splits)

lemma parseIPv4_length: "parseIPv4 s = Some b \<Longrightarrow> length b = 4"
  by (auto simp: parseIPv4_def Let_def dest: those_length split: if_splits)

lemma parse6_loop_length:
  "parse6_loop s ip ell = Some (ip', ell', r) \<Longrightarrow> even (length ip) \<Longrightarrow> length ip \<le> 16 \<Longrightarrow> length ip' \<le> 16"
proof (induction s ip ell rule: parse6_loop.induct)
  case (1 s ip ell)
  have step: "length ip + 2 \<le> 16" if "\<not> 16 \<le> length ip" using that 1(4) by presburger
  have IH1: "length ip' \<le> 16"
    if "\<not> 16 \<le> length ip" "hex_group 0 0 s = Some (off, acc, CHR '':'' # CHR '':'' # rest)" "0 < off" "ell = None" "rest \<noteq> []"
      "parse6_loop rest (ip @ [of_nat (acc div 256), of_nat (acc mod 256)]) (Some (Suc (Suc (length ip)))) = Some (ip', ell', r)"
    for off acc rest
    by (rule 1(1) [OF that(1,2) refl refl _ _ refl refl refl]) (use that step 1(4) in auto)
  have IH2: "length ip' \<le> 16"
    if "\<not> 16 \<le> length ip" "hex_group 0 0 s = Some (off, acc, CHR '':'' # d # rest)" "0 < off" "d \<noteq> CHR '':''"
      "parse6_loop (d # rest) (ip @ [of_nat (acc div 256), of_nat (acc mod 256)]) ell = Some (ip', ell', r)"
    for off acc d rest
    by (rule 1(2) [OF that(1,2) refl refl _ _ refl refl refl]) (use that step 1(4) in auto)
  show ?case
  proof (cases "16 \<le> length ip")
    case True
    then show ?thesis using 1(3,5) unfolding parse6_loop.simps [of s] by simp
  next
    case False
    show ?thesis
      using 1(3) False step [OF False] IH1 [OF False] IH2 [OF False] unfolding parse6_loop.simps [of s]
      by (auto simp: Let_def parseIPv4_length split: if_splits option.splits list.splits prod.splits)
  qed
qed

lemma expand_length: "expand ip ell = Some b \<Longrightarrow> length ip \<le> 16 \<Longrightarrow> length b = 16"
  by (auto simp: expand_def split: if_splits option.splits)

lemma parseIPv6_ok: "parseIPv6 s = Some a \<Longrightarrow> addr_ok a \<and> a \<noteq> ZeroAddr"
  by (auto simp: parseIPv6_def Let_def expand_length parse6_loop_length split: if_splits option.splits bind_splits prod.splits)

lemma ParseAddr_ok: "ParseAddr s = Some a \<Longrightarrow> addr_ok a \<and> a \<noteq> ZeroAddr"
proof -
  have "parse_addr_by cs s = Some a \<Longrightarrow> addr_ok a \<and> a \<noteq> ZeroAddr" for cs
    by (induction cs) (auto simp: parseIPv4_length dest: parseIPv6_ok split: if_splits)
  then show "ParseAddr s = Some a \<Longrightarrow> addr_ok a \<and> a \<noteq> ZeroAddr" by (simp add: ParseAddr_def)
qed

subsection \<open>Samples\<close>

lemma parse_samples:
  "ParseAddr ''1.2.3.4'' = Some (V4 [1, 2, 3, 4])"
  "ParseAddr ''1.2.03.4'' = None"
  "ParseAddr ''::'' = Some (V6 (replicate 16 0) [])"
  "ParseAddr ''fe::1%eth0'' = Some (V6 ([0, 0xfe] @ replicate 13 0 @ [1]) ''eth0'')"
  "ParseAddr ''1:2:3:4:5:6:7::8'' = None"
  "ParseAddr ''::1.2.3.4'' = Some (V6 (replicate 12 0 @ [1, 2, 3, 4]) [])"
  by code_simp+

lemma print_samples:
  "addr_String (V6 ([0, 0xfe] @ replicate 13 0 @ [1]) ''eth0'') = ''fe::1%eth0''"
  "addr_String (V6 (replicate 16 0) []) = ''::''"
  "addr_String (V6 (v4_mapped_prefix @ [1, 2, 3, 4]) []) = ''::ffff:1.2.3.4''"
  "addr_String (V6 [0, 1, 0, 0, 0, 0, 0, 2, 0, 0, 0, 0, 0, 0, 0, 3] []) = ''1:0:0:2::3''"
  by code_simp+

end
