(* ===== verification/Uapi.thy ===== *)
theory Uapi
  imports Lifecycle Netip
begin

text \<open>
  The configuration protocol of src/device/uapi.go: the get and set operations, and the
  conversation on a socket. A message is a string; an error is its code. The lines that
  \<open>handleDeviceLine\<close> knows are grouped as in the source.
\<close>

subsection \<open>Errors\<close>

datatype ipc_code = IpcErrorIO | IpcErrorProtocol | IpcErrorInvalid | IpcErrorPortInUse | IpcErrorUnknown

text \<open>The numbers of Linux.\<close>

fun ipc_number :: "ipc_code \<Rightarrow> nat" where
  "ipc_number IpcErrorIO = 5"
| "ipc_number IpcErrorProtocol = 71"
| "ipc_number IpcErrorInvalid = 22"
| "ipc_number IpcErrorPortInUse = 98"
| "ipc_number IpcErrorUnknown = 55"

subsection \<open>Lines of the device\<close>

record ipcSetDevice =
  sd_headers :: Headers
  sd_paddings :: Paddings
  sd_headerProtectionKey :: bytes

definition fromDevice :: "Device \<Rightarrow> ipcSetDevice" where
  "fromDevice dev =
     \<lparr>sd_headers = d_headers dev, sd_paddings = d_paddings dev, sd_headerProtectionKey = d_headerKey dev\<rparr>"

fun any_overlap :: "UintRange list \<Rightarrow> bool" where
  "any_overlap [] = False"
| "any_overlap (h # hs) = (list_ex (Overlap h) hs \<or> any_overlap hs)"

definition mergeWithDevice :: "ipcSetDevice \<Rightarrow> Device \<Rightarrow> Device \<times> bool" where
  "mergeWithDevice sd dev =
     (let h = sd_headers sd; s = sd_paddings sd
      in if any_overlap [h_init h, h_response h, h_cookie h, h_transport h] then (dev, False)
         else
         let dev = dev\<lparr>d_headers := h\<rparr>
         in if \<not> key_IsZero (sd_headerProtectionKey sd) \<and>
               list_ex (\<lambda>padding. unat padding < HeaderCipherNonceSize) [s_init s, s_response s, s_cookie s, s_transport s]
            then (dev, False)
            else (dev\<lparr>d_paddings := s, d_headerKey := sd_headerProtectionKey sd\<rparr>, True))"

text \<open>A handled line: the state it leaves and its error. \<open>None\<close> says that the key is not one of the group.\<close>

type_synonym line_result = "Device \<times> ipcSetDevice \<times> ipc_code option"

definition handle_net_line :: "Crypto \<Rightarrow> string \<Rightarrow> string \<Rightarrow> ipcSetDevice \<Rightarrow> Device \<Rightarrow> line_result option" where
  "handle_net_line C k v sd dev =
     (if k = ''private_key'' then
        let (sk, err) = FromMaybeZeroHex (replicate 32 0) v
        in Some (if err \<noteq> None then (dev, sd, Some IpcErrorInvalid) else (SetPrivateKey C sk dev, sd, None))
      else if k = ''listen_port'' then
        Some (case ParseUint v 16 of
                Inl _ \<Rightarrow> (dev, sd, Some IpcErrorInvalid)
              | Inr port \<Rightarrow>
                  let (dev, err) = BindUpdate (dev\<lparr>d_port := of_nat port\<rparr>)
                  in (dev, sd, if err = None then None else Some IpcErrorPortInUse))
      else if k = ''fwmark'' then
        Some (case ParseUint v 32 of
                Inl _ \<Rightarrow> (dev, sd, Some IpcErrorInvalid)
              | Inr mark \<Rightarrow>
                  let (dev, err) = BindSetMark (of_nat mark) dev
                  in (dev, sd, if err = None then None else Some IpcErrorPortInUse))
      else if k = ''replace_peers'' then
        Some (if v \<noteq> ''true'' then (dev, sd, Some IpcErrorInvalid) else (RemoveAllPeers dev, sd, None))
      else None)"

definition handle_junk_line :: "string \<Rightarrow> string \<Rightarrow> ipcSetDevice \<Rightarrow> Device \<Rightarrow> line_result option" where
  "handle_junk_line k v sd dev =
     (let set = (\<lambda>f. Some (case ParseUint v 32 of
                             Inl _ \<Rightarrow> (dev, sd, Some IpcErrorInvalid)
                           | Inr n \<Rightarrow> (dev\<lparr>d_junk := f (of_nat n) (d_junk dev)\<rparr>, sd, None)))
      in if k = ''jc'' then set (\<lambda>n j. j\<lparr>j_count := n\<rparr>)
         else if k = ''jmin'' then set (\<lambda>n j. j\<lparr>j_min := n\<rparr>)
         else if k = ''jmax'' then set (\<lambda>n j. j\<lparr>j_max := n\<rparr>)
         else None)"

definition handle_padding_line :: "string \<Rightarrow> string \<Rightarrow> ipcSetDevice \<Rightarrow> Device \<Rightarrow> line_result option" where
  "handle_padding_line k v sd dev =
     (let set = (\<lambda>f. Some (case ParseUint v 16 of
                             Inl _ \<Rightarrow> (dev, sd, Some IpcErrorInvalid)
                           | Inr n \<Rightarrow> (dev, sd\<lparr>sd_paddings := f (of_nat n) (sd_paddings sd)\<rparr>, None)))
      in if k = ''s1'' then set (\<lambda>n s. s\<lparr>s_init := n\<rparr>)
         else if k = ''s2'' then set (\<lambda>n s. s\<lparr>s_response := n\<rparr>)
         else if k = ''s3'' then set (\<lambda>n s. s\<lparr>s_cookie := n\<rparr>)
         else if k = ''s4'' then set (\<lambda>n s. s\<lparr>s_transport := n\<rparr>)
         else None)"

definition handle_header_line :: "string \<Rightarrow> string \<Rightarrow> ipcSetDevice \<Rightarrow> Device \<Rightarrow> line_result option" where
  "handle_header_line k v sd dev =
     (let set = (\<lambda>f. Some (case FromString v of
                             Inl _ \<Rightarrow> (dev, sd, Some IpcErrorInvalid)
                           | Inr r \<Rightarrow> (dev, sd\<lparr>sd_headers := f r (sd_headers sd)\<rparr>, None)))
      in if k = ''h1'' then set (\<lambda>r h. h\<lparr>h_init := r\<rparr>)
         else if k = ''h2'' then set (\<lambda>r h. h\<lparr>h_response := r\<rparr>)
         else if k = ''h3'' then set (\<lambda>r h. h\<lparr>h_cookie := r\<rparr>)
         else if k = ''h4'' then set (\<lambda>r h. h\<lparr>h_transport := r\<rparr>)
         else None)"

definition handle_ipacket_line :: "string \<Rightarrow> string \<Rightarrow> ipcSetDevice \<Rightarrow> Device \<Rightarrow> line_result option" where
  "handle_ipacket_line k v sd dev =
     (let set = (\<lambda>i. Some (case newObfChain v of
                             Inl _ \<Rightarrow> (dev, sd, Some IpcErrorInvalid)
                           | Inr chain \<Rightarrow> (dev\<lparr>d_ipackets := (d_ipackets dev)[i := chain]\<rparr>, sd, None)))
      in if k = ''i1'' then set 0
         else if k = ''i2'' then set 1
         else if k = ''i3'' then set 2
         else if k = ''i4'' then set 3
         else if k = ''i5'' then set 4
         else None)"

definition handle_protection_line :: "string \<Rightarrow> string \<Rightarrow> ipcSetDevice \<Rightarrow> Device \<Rightarrow> line_result option" where
  "handle_protection_line k v sd dev =
     (if k = ''header_protection_key'' then
        let (hk, err) = header_FromHex (replicate 32 0) v
        in Some (if err \<noteq> None then (dev, sd, Some IpcErrorInvalid) else (dev, sd\<lparr>sd_headerProtectionKey := hk\<rparr>, None))
      else if k = ''content_padding_addition'' then
        Some (case FromString v of
                Inl _ \<Rightarrow> (dev, sd, Some IpcErrorInvalid)
              | Inr r \<Rightarrow> (dev\<lparr>d_contentPaddingAddition := r\<rparr>, sd, None))
      else None)"

definition handle_timing_line :: "string \<Rightarrow> string \<Rightarrow> ipcSetDevice \<Rightarrow> Device \<Rightarrow> line_result option" where
  "handle_timing_line k v sd dev =
     (let set = (\<lambda>f. Some (case FromString v of
                             Inl _ \<Rightarrow> (dev, sd, Some IpcErrorInvalid)
                           | Inr r \<Rightarrow> (dev\<lparr>d_timings := f r (d_timings dev)\<rparr>, sd, None)))
      in if k = ''rekey_after_time'' then set (\<lambda>r t. t\<lparr>t_rekeyAfterTimeSec := r\<rparr>)
         else if k = ''rekey_timeout'' then set (\<lambda>r t. t\<lparr>t_rekeyTimeoutSec := r\<rparr>)
         else if k = ''reject_after_time'' then set (\<lambda>r t. t\<lparr>t_rejectAfterTimeSec := r\<rparr>)
         else if k = ''keepalive_timeout'' then set (\<lambda>r t. t\<lparr>t_keepaliveTimeoutSec := r\<rparr>)
         else if k = ''max_handshake_attempts'' then set (\<lambda>r t. t\<lparr>t_maxHandshakeAttemps := r\<rparr>)
         else None)"

definition handleDeviceLine :: "Crypto \<Rightarrow> ipcSetDevice \<Rightarrow> string \<Rightarrow> string \<Rightarrow> Device \<Rightarrow> line_result" where
  "handleDeviceLine C sd k v dev =
     (case handle_net_line C k v sd dev of Some r \<Rightarrow> r | None \<Rightarrow>
      case handle_junk_line k v sd dev of Some r \<Rightarrow> r | None \<Rightarrow>
      case handle_padding_line k v sd dev of Some r \<Rightarrow> r | None \<Rightarrow>
      case handle_header_line k v sd dev of Some r \<Rightarrow> r | None \<Rightarrow>
      case handle_ipacket_line k v sd dev of Some r \<Rightarrow> r | None \<Rightarrow>
      case handle_protection_line k v sd dev of Some r \<Rightarrow> r | None \<Rightarrow>
      case handle_timing_line k v sd dev of Some r \<Rightarrow> r | None \<Rightarrow> (dev, sd, Some IpcErrorInvalid))"

subsection \<open>Lines of a peer\<close>

text \<open>
  The peer that the lines configure. While it is a dummy, a placeholder that no device knows,
  only its keepalive interval matters: the next \<open>pkaOn\<close> depends on it.
\<close>

record ipcSetPeer =
  sp_Peer :: "nat option"
  sp_dummy :: bool
  sp_created :: bool
  sp_pkaOn :: bool
  sp_interval :: UintRange

definition new_ipcSetPeer :: ipcSetPeer where
  "new_ipcSetPeer = \<lparr>sp_Peer = None, sp_dummy = False, sp_created = False, sp_pkaOn = False, sp_interval = 0\<rparr>"

definition handlePostConfig :: "Crypto \<Rightarrow> ipcSetPeer \<Rightarrow> Device \<Rightarrow> Device" where
  "handlePostConfig C sp dev =
     (case sp_Peer sp of
        None \<Rightarrow> dev
      | Some p \<Rightarrow>
          if sp_dummy sp then dev
          else
          let dev = (if sp_created sp
                     then upd_peer p (\<lambda>peer. peer\<lparr>p_disableRoaming := d_brokenRoaming dev \<and> p_endpoint peer \<noteq> None\<rparr>) dev
                     else dev)
          in if isUp dev then
               let dev = Start p dev;
                   dev = (if sp_pkaOn sp then SendKeepalive C p dev else dev)
               in SendStagedPackets C p dev
             else dev)"

definition handlePublicKeyLine :: "Crypto \<Rightarrow> ipcSetPeer \<Rightarrow> string \<Rightarrow> Device \<Rightarrow> Device \<times> ipcSetPeer \<times> ipc_code option" where
  "handlePublicKeyLine C sp v dev =
     (let (pk, err) = public_FromHex (replicate 32 0) v
      in if err \<noteq> None then (dev, sp, Some IpcErrorInvalid)
         else if key_Equals (d_publicKey dev) pk then
           (dev, sp\<lparr>sp_Peer := None, sp_dummy := True, sp_created := False, sp_interval := 0\<rparr>, None)
         else case LookupPeer pk dev of
           Some p \<Rightarrow> (dev, sp\<lparr>sp_Peer := Some p, sp_dummy := False, sp_created := False\<rparr>, None)
         | None \<Rightarrow>
             (case NewPeer C pk dev of
                (dev, Inl _) \<Rightarrow> (dev, sp\<lparr>sp_Peer := None, sp_dummy := False, sp_created := True\<rparr>, Some IpcErrorInvalid)
              | (dev, Inr p) \<Rightarrow> (dev, sp\<lparr>sp_Peer := Some p, sp_dummy := False, sp_created := True\<rparr>, None)))"

text \<open>\<open>RemovePeer\<close> of the selected peer, which becomes a dummy; a panic of the routing table in \<open>change_routes\<close>.\<close>

definition to_dummy :: "ipcSetPeer \<Rightarrow> ipcSetPeer" where
  "to_dummy sp = sp\<lparr>sp_Peer := None, sp_dummy := True, sp_interval := 0\<rparr>"

definition remove_selected :: "ipcSetPeer \<Rightarrow> Device \<Rightarrow> Device" where
  "remove_selected sp dev =
     (case sp_Peer sp of None \<Rightarrow> dev | Some p \<Rightarrow> RemovePeer (hs_remoteStatic (handshake dev p)) dev)"

definition change_routes :: "nat AllowedIPs option \<Rightarrow> Device \<Rightarrow> Device" where
  "change_routes r dev = (case r of None \<Rightarrow> panic dev | Some ips \<Rightarrow> dev\<lparr>d_allowedips := ips\<rparr>)"

definition handle_membership_line ::
  "ipcSetPeer \<Rightarrow> string \<Rightarrow> string \<Rightarrow> Device \<Rightarrow> (Device \<times> ipcSetPeer \<times> ipc_code option) option"
where
  "handle_membership_line sp k v dev =
     (if k = ''update_only'' then
        Some (if v \<noteq> ''true'' then (dev, sp, Some IpcErrorInvalid)
              else if sp_created sp \<and> \<not> sp_dummy sp then (remove_selected sp dev, to_dummy sp, None)
              else (dev, sp, None))
      else if k = ''remove'' then
        Some (if v \<noteq> ''true'' then (dev, sp, Some IpcErrorInvalid)
              else (if sp_dummy sp then dev else remove_selected sp dev, to_dummy sp, None))
      else None)"

definition on_peer :: "ipcSetPeer \<Rightarrow> (Peer \<Rightarrow> Peer) \<Rightarrow> Device \<Rightarrow> Device" where
  "on_peer sp f dev = (case sp_Peer sp of None \<Rightarrow> dev | Some p \<Rightarrow> upd_peer p f dev)"

definition handle_settings_line ::
  "ipcSetPeer \<Rightarrow> string \<Rightarrow> string \<Rightarrow> Device \<Rightarrow> (Device \<times> ipcSetPeer \<times> ipc_code option) option"
where
  "handle_settings_line sp k v dev =
     (if k = ''preshared_key'' then
        Some (case preshared_FromHex (replicate 32 0) v of
                (psk, None) \<Rightarrow> (on_peer sp (\<lambda>peer. peer\<lparr>p_handshake := (p_handshake peer)\<lparr>hs_presharedKey := psk\<rparr>\<rparr>) dev, sp, None)
              | (_, Some _) \<Rightarrow> (dev, sp, Some IpcErrorInvalid))
      else if k = ''endpoint'' then
        Some (case ParseAddrPort v of
                None \<Rightarrow> (dev, sp, Some IpcErrorInvalid)
              | Some a \<Rightarrow> (on_peer sp (\<lambda>peer. peer\<lparr>p_endpoint := Some \<lparr>ep_dst = a, ep_src = []\<rparr>\<rparr>) dev, sp, None))
      else if k = ''persistent_keepalive_interval'' then
        Some (case FromString v of
                Inl _ \<Rightarrow> (dev, sp, Some IpcErrorInvalid)
              | Inr r \<Rightarrow>
                  let old = (case sp_Peer sp of
                               None \<Rightarrow> sp_interval sp
                             | Some p \<Rightarrow> p_persistentKeepaliveInterval (d_peers dev p))
                  in (on_peer sp (\<lambda>peer. peer\<lparr>p_persistentKeepaliveInterval := r\<rparr>) dev,
                      sp\<lparr>sp_pkaOn := range_IsZero old \<and> \<not> range_IsZero r, sp_interval := r\<rparr>, None))
      else None)"

definition handle_routes_line ::
  "ipcSetPeer \<Rightarrow> string \<Rightarrow> string \<Rightarrow> Device \<Rightarrow> (Device \<times> ipcSetPeer \<times> ipc_code option) option"
where
  "handle_routes_line sp k v dev =
     (if k = ''replace_allowed_ips'' then
        Some (if v \<noteq> ''true'' then (dev, sp, Some IpcErrorInvalid)
              else case sp_Peer sp of
                None \<Rightarrow> (dev, sp, None)
              | Some p \<Rightarrow> (change_routes (RemoveByPeer (d_allowedips dev) p) dev, sp, None))
      else if k = ''allowed_ip'' then
        let add = \<not> (v \<noteq> [] \<and> hd v = CHR ''-''); v = (if add then v else tl v)
        in Some (case ParsePrefix v of
             None \<Rightarrow> (dev, sp, Some IpcErrorInvalid)
           | Some pfx \<Rightarrow>
               (case sp_Peer sp of
                  None \<Rightarrow> (dev, sp, None)
                | Some p \<Rightarrow>
                    (change_routes (if add then Insert (d_allowedips dev) pfx p else Remove (d_allowedips dev) pfx p) dev,
                     sp, None)))
      else None)"

definition handlePeerLine ::
  "ipcSetPeer \<Rightarrow> string \<Rightarrow> string \<Rightarrow> Device \<Rightarrow> Device \<times> ipcSetPeer \<times> ipc_code option"
where
  "handlePeerLine sp k v dev =
     (case handle_membership_line sp k v dev of Some r \<Rightarrow> r | None \<Rightarrow>
      case handle_settings_line sp k v dev of Some r \<Rightarrow> r | None \<Rightarrow>
      case handle_routes_line sp k v dev of Some r \<Rightarrow> r | None \<Rightarrow>
      (dev, sp, if k = ''protocol_version'' \<and> v = ''1'' then None else Some IpcErrorInvalid))"

subsection \<open>The set operation\<close>

text \<open>
  \<open>bufio.Scanner\<close> on a string: its lines without their line ends, and whether it stopped at a line
  that does not fit into its buffer.
\<close>

definition newline :: char where "newline = CHR 0x0A"

definition drop_cr :: "string \<Rightarrow> string" where
  "drop_cr s = (if s \<noteq> [] \<and> last s = CHR 0x0D then butlast s else s)"

fun lines_of :: "string list \<Rightarrow> string list" where
  "lines_of [] = []"
| "lines_of [s] = (if s = [] then [] else [s])"
| "lines_of (s # t # ss) = s # lines_of (t # ss)"

definition MaxScanTokenSize :: nat where "MaxScanTokenSize = 64 * 1024"

definition scan :: "string \<Rightarrow> string list \<times> bool" where
  "scan s =
     (let ls = lines_of (split_at newline s); fits = (\<lambda>l. length l < MaxScanTokenSize)
      in (map drop_cr (takeWhile fits ls), \<not> list_all fits ls))"

definition finish_set :: "Crypto \<Rightarrow> ipcSetDevice \<Rightarrow> ipcSetPeer \<Rightarrow> Device \<Rightarrow> Device \<times> ipc_code option" where
  "finish_set C sd sp dev =
     (case mergeWithDevice sd dev of
        (dev, False) \<Rightarrow> (dev, Some IpcErrorInvalid)
      | (dev, True) \<Rightarrow> (handlePostConfig C sp dev, None))"

fun set_loop ::
  "Crypto \<Rightarrow> bool \<Rightarrow> string list \<Rightarrow> bool \<Rightarrow> ipcSetDevice \<Rightarrow> ipcSetPeer \<Rightarrow> Device \<Rightarrow> Device \<times> ipc_code option"
where
  "set_loop C tooLong [] deviceConfig sd sp dev =
     (case finish_set C sd sp dev of
        (dev, Some e) \<Rightarrow> (dev, Some e)
      | (dev, None) \<Rightarrow> (dev, if tooLong then Some IpcErrorIO else None))"
| "set_loop C tooLong (line # rest) deviceConfig sd sp dev =
     (if line = [] then finish_set C sd sp dev
      else case cut_at (CHR ''='') line of
        None \<Rightarrow> (dev, Some IpcErrorProtocol)
      | Some (k, v) \<Rightarrow>
          if k = ''public_key'' then
            case handlePublicKeyLine C sp v (handlePostConfig C sp dev) of
              (dev, sp, Some e) \<Rightarrow> (dev, Some e)
            | (dev, sp, None) \<Rightarrow> set_loop C tooLong rest False sd sp dev
          else if deviceConfig then
            case handleDeviceLine C sd k v dev of
              (dev, sd, Some e) \<Rightarrow> (dev, Some e)
            | (dev, sd, None) \<Rightarrow> set_loop C tooLong rest True sd sp dev
          else
            case handlePeerLine sp k v dev of
              (dev, sp, Some e) \<Rightarrow> (dev, Some e)
            | (dev, sp, None) \<Rightarrow> set_loop C tooLong rest False sd sp dev)"

definition IpcSetOperation :: "Crypto \<Rightarrow> string \<Rightarrow> Device \<Rightarrow> Device \<times> ipc_code option" where
  "IpcSetOperation C r dev =
     (let (ls, tooLong) = scan r in set_loop C tooLong ls True (fromDevice dev) new_ipcSetPeer dev)"

definition IpcSet :: "Crypto \<Rightarrow> string \<Rightarrow> Device \<Rightarrow> Device \<times> ipc_code option" where
  "IpcSet C uapiConf dev = IpcSetOperation C uapiConf dev"

subsection \<open>The get operation\<close>

definition entry :: "string \<Rightarrow> string \<Rightarrow> string" where
  "entry k v = k @ ''='' @ v @ [newline]"

definition number_entry :: "string \<Rightarrow> 'a :: len word \<Rightarrow> string" where
  "number_entry k w = (if w \<noteq> 0 then entry k (decimal (unat w)) else [])"

definition range_entry :: "string \<Rightarrow> UintRange \<Rightarrow> string" where
  "range_entry k r = (if \<not> range_IsZero r then entry k (ToString r) else [])"

definition key_entry :: "string \<Rightarrow> bytes \<Rightarrow> string" where
  "key_entry k b = (if \<not> key_IsZero b then entry k (hex_encode b) else [])"

definition chain_entry :: "string \<Rightarrow> obfChain option \<Rightarrow> string" where
  "chain_entry k c = (case c of None \<Rightarrow> [] | Some c \<Rightarrow> entry k (Spec c))"

definition get_device :: "Device \<Rightarrow> string" where
  "get_device dev =
     key_entry ''private_key'' (d_privateKey dev) @
     number_entry ''listen_port'' (d_port dev) @
     number_entry ''fwmark'' (d_fwmark dev) @
     number_entry ''jc'' (j_count (d_junk dev)) @
     number_entry ''jmin'' (j_min (d_junk dev)) @
     number_entry ''jmax'' (j_max (d_junk dev)) @
     number_entry ''s1'' (s_init (d_paddings dev)) @
     number_entry ''s2'' (s_response (d_paddings dev)) @
     number_entry ''s3'' (s_cookie (d_paddings dev)) @
     number_entry ''s4'' (s_transport (d_paddings dev)) @
     range_entry ''h1'' (h_init (d_headers dev)) @
     range_entry ''h2'' (h_response (d_headers dev)) @
     range_entry ''h3'' (h_cookie (d_headers dev)) @
     range_entry ''h4'' (h_transport (d_headers dev)) @
     concat (map (\<lambda>(i, c). chain_entry (''i'' @ decimal (i + 1)) c) (enumerate 0 (d_ipackets dev))) @
     key_entry ''header_protection_key'' (d_headerKey dev) @
     range_entry ''content_padding_addition'' (d_contentPaddingAddition dev) @
     range_entry ''rekey_after_time'' (t_rekeyAfterTimeSec (d_timings dev)) @
     range_entry ''rekey_timeout'' (t_rekeyTimeoutSec (d_timings dev)) @
     range_entry ''reject_after_time'' (t_rejectAfterTimeSec (d_timings dev)) @
     range_entry ''keepalive_timeout'' (t_keepaliveTimeoutSec (d_timings dev)) @
     range_entry ''max_handshake_attempts'' (t_maxHandshakeAttemps (d_timings dev))"

text \<open>\<open>%d\<close> of a signed number, and the quotient and remainder of Go, which round to zero.\<close>

definition signed_decimal :: "int \<Rightarrow> string" where
  "signed_decimal n = (if n < 0 then CHR ''-'' # decimal (nat (- n)) else decimal (nat n))"

definition DstToString :: "Endpoint \<Rightarrow> string" where
  "DstToString e = ap_String (ep_dst e)"

definition get_peer :: "Device \<Rightarrow> nat \<Rightarrow> string" where
  "get_peer dev p =
     (let peer = d_peers dev p; nano = p_lastHandshakeNano peer
      in entry ''public_key'' (hex_encode (hs_remoteStatic (p_handshake peer))) @
         entry ''preshared_key'' (hex_encode (hs_presharedKey (p_handshake peer))) @
         entry ''protocol_version'' ''1'' @
         (case p_endpoint peer of None \<Rightarrow> [] | Some e \<Rightarrow> entry ''endpoint'' (DstToString e)) @
         entry ''last_handshake_time_sec'' (signed_decimal (sgn nano * (\<bar>nano\<bar> div second))) @
         entry ''last_handshake_time_nsec'' (signed_decimal (sgn nano * (\<bar>nano\<bar> mod second))) @
         entry ''tx_bytes'' (decimal (unat (p_txBytes peer))) @
         entry ''rx_bytes'' (decimal (unat (p_rxBytes peer))) @
         range_entry ''persistent_keepalive_interval'' (p_persistentKeepaliveInterval peer) @
         concat (map (\<lambda>pfx. entry ''allowed_ip'' (prefix_String pfx)) (EntriesForPeer (d_allowedips dev) p (\<lambda>_. True))))"

definition IpcGetOperation :: "Device \<Rightarrow> string" where
  "IpcGetOperation dev = get_device dev @ concat (map (get_peer dev \<circ> snd) (d_keyMap dev))"

definition IpcGet :: "Device \<Rightarrow> string" where
  "IpcGet dev = IpcGetOperation dev"

subsection \<open>The conversation\<close>

definition status_line :: "ipc_code option \<Rightarrow> string" where
  "status_line e =
     ''errno='' @ (case e of None \<Rightarrow> ''0'' | Some c \<Rightarrow> CHR ''-'' # decimal (ipc_number c)) @ [newline, newline]"

text \<open>
  What a client writes before it waits for an answer is one request. A set operation reads its
  request to the end; what follows a get operation is the next request. The result has the text
  sent back.
\<close>

function IpcHandle :: "Crypto \<Rightarrow> string list \<Rightarrow> Device \<Rightarrow> Device \<times> string" where
  "IpcHandle C [] dev = (dev, [])"
| "IpcHandle C (req # reqs) dev =
     (case cut_at newline req of
        None \<Rightarrow> (dev, [])
      | Some (op, rest) \<Rightarrow>
          if op = ''set=1'' then
            let (dev, e) = IpcSetOperation C rest dev;
                (dev, out) = IpcHandle C reqs dev
            in (dev, status_line e @ out)
          else if op = ''get=1'' then
            case rest of
              [] \<Rightarrow> (dev, [])
            | c # rest' \<Rightarrow>
                let answer = (if c \<noteq> newline then status_line (Some IpcErrorInvalid)
                              else IpcGetOperation dev @ status_line None);
                    (dev, out) = IpcHandle C (if rest' = [] then reqs else rest' # reqs) dev
                in (dev, answer @ out)
          else (dev, []))"
  by pat_completeness auto
termination
  by (relation "measure (\<lambda>(C, reqs, dev). sum_list (map (\<lambda>r. length r + 1) reqs))") (auto dest!: cut_at_length)

declare IpcHandle.simps [simp del]

end
