(* ===== verification/Invariance.thy ===== *)
theory Invariance
  imports Uapi
begin

text \<open>
  What it takes for a property of a device to be an invariant. The interface \<open>traffic_invariant\<close>
  lists the elementary effects of the handlers that work on traffic and timers; a property that is
  stable under each of them is kept by every such handler. \<open>device_invariant\<close> adds the effects of the
  life cycle and of the configuration protocol, and reaches every handler of the device.
\<close>

subsection \<open>Elementary effects\<close>

text \<open>A change of a peer that leaves its keys, its handshake, its queues and its being started alone.\<close>

definition quiet_peer :: "Peer \<Rightarrow> Peer \<Rightarrow> bool" where
  "quiet_peer a b \<longleftrightarrow>
     p_keypairs b = p_keypairs a \<and> p_handshake b = p_handshake a \<and> p_isRunning b = p_isRunning a \<and>
     p_staged b = p_staged a \<and> p_outbound b = p_outbound a \<and> p_inbound b = p_inbound a"

text \<open>A change of the world that leaves the clock and the indices to be drawn alone.\<close>

definition quiet_env :: "Env \<Rightarrow> Env \<Rightarrow> bool" where
  "quiet_env a b \<longleftrightarrow> e_now b = e_now a \<and> e_indices b = e_indices a"

text \<open>What draws from the world leave behind.\<close>

definition drawn :: "Device \<Rightarrow> Device \<Rightarrow> bool" where
  "drawn dev dev' \<longleftrightarrow> (\<exists>e. quiet_env (d_env dev) e \<and> dev' = dev\<lparr>d_env := e\<rparr>)"

lemma drawn_refl [simp, intro]: "drawn dev dev"
  unfolding drawn_def by (rule exI [of _ "d_env dev"]) (simp add: quiet_env_def)

lemma drawn_trans [trans]: "drawn a b \<Longrightarrow> drawn b c \<Longrightarrow> drawn a c"
  by (auto simp: drawn_def quiet_env_def)

lemma drawn_env: "quiet_env (d_env dev) e \<Longrightarrow> drawn dev (dev\<lparr>d_env := e\<rparr>)"
  by (auto simp: drawn_def)

lemma drawn_basic:
  "rand_Read n dev = (b, dev') \<Longrightarrow> drawn dev dev'"
  "rand_word dev = (w, dev') \<Longrightarrow> drawn dev dev'"
  by (auto simp: rand_Read_def rand_word_def quiet_env_def intro!: drawn_env split: list.splits)

lemma drawn_pick_one: "pick_one r dev = (w, dev') \<Longrightarrow> drawn dev dev'"
  by (auto simp: pick_one_def split: prod.splits dest: drawn_basic)

lemma drawn_randomPaddingAddition: "randomPaddingAddition n m dev = (x, dev') \<Longrightarrow> drawn dev dev'"
  by (auto simp: randomPaddingAddition_def Let_def split: prod.splits if_splits dest: drawn_pick_one)

text \<open>Encryption keeps the keypair and the nonce of an element.\<close>

definition nonces :: "QueueOutboundElementsContainer \<Rightarrow> (nat option \<times> u64) list" where
  "nonces c = map (\<lambda>el. (oe_keypair el, oe_nonce el)) (oc_elems c)"

lemma encrypt_elem_shape:
  assumes "encrypt_elem C el dev = Some (el', dev')"
  shows "drawn dev dev' \<and> oe_keypair el' = oe_keypair el \<and> oe_nonce el' = oe_nonce el"
proof -
  obtain crypt d1 where 1: "rand_Read (unat (oe_padding el)) dev = (crypt, d1)" by force
  obtain ty d2 where 2: "pick_one (h_transport (d_headers d1)) d1 = (ty, d2)" by force
  obtain sz d3 where 3: "randomPaddingAddition (int (length (oe_packet el))) (d_mtu d2) d2 = (sz, d3)" by force
  have "drawn dev d3"
    using drawn_basic(1) [OF 1] drawn_pick_one [OF 2] drawn_randomPaddingAddition [OF 3] by (blast intro: drawn_trans)
  then show ?thesis
    using assms by (simp add: encrypt_elem_def 1 2 3 Let_def split: option.splits if_splits) auto
qed

lemma encrypt_elems_shape:
  "encrypt_elems C els dev = Some (els', dev') \<Longrightarrow>
     drawn dev dev' \<and> map (\<lambda>el. (oe_keypair el, oe_nonce el)) els' = map (\<lambda>el. (oe_keypair el, oe_nonce el)) els"
proof (induction els arbitrary: els' dev)
  case (Cons el els)
  then obtain e d es where "encrypt_elem C el dev = Some (e, d)" "encrypt_elems C els d = Some (es, dev')" "els' = e # es"
    by (auto split: bind_splits)
  then show ?case using encrypt_elem_shape Cons.IH drawn_trans by fastforce
qed simp

text \<open>A transport message that was queued for a peer: its receiver index led to the peer and to the keypair.\<close>

definition receiver_of :: "bytes \<Rightarrow> u32" where
  "receiver_of packet = get_le32 (slice MessageTransportOffsetReceiver MessageTransportOffsetCounter packet)"

definition found :: "Device \<Rightarrow> nat \<Rightarrow> QueueInboundElement \<Rightarrow> bool" where
  "found dev p el \<longleftrightarrow>
     (case ib_packet el of
        None \<Rightarrow> False
      | Some packet \<Rightarrow>
          ie_peer (index_Lookup (receiver_of packet) dev) = Some p \<and>
          ie_keypair (index_Lookup (receiver_of packet) dev) = Some (ib_keypair el))"

lemma found_same: "d_indexTable dev' = d_indexTable dev \<Longrightarrow> found dev' p el = found dev p el"
  by (simp add: found_def index_Lookup_def split: option.splits)

definition all_found :: "Device \<Rightarrow> (nat \<times> QueueInboundElement list) list \<Rightarrow> bool" where
  "all_found dev m \<longleftrightarrow> (\<forall>pe \<in> set m. \<forall>el \<in> set (snd pe). found dev (fst pe) el)"

lemma all_found_Nil: "all_found dev []"
  by (simp add: all_found_def)

lemma all_found_Cons: "all_found dev (pe # m) \<longleftrightarrow> (\<forall>el \<in> set (snd pe). found dev (fst pe) el) \<and> all_found dev m"
  by (simp add: all_found_def)

lemma all_found_same:
  assumes "d_indexTable dev' = d_indexTable dev"
  shows "all_found dev' m = all_found dev m"
  by (simp add: all_found_def found_same [OF assms])

lemma receive_datagram_found:
  assumes "receive_datagram C dev (packet, ep) = Transport p el"
  shows "found dev p el"
proof -
  obtain typeHash cip where c: "(case HeaderProtectionCipher dev (take HeaderCipherNonceSize packet) of
      None \<Rightarrow> (replicate 4 0, None) | Some c \<Rightarrow> (case XORKeyStream C c (replicate 4 0) of (h, c) \<Rightarrow> (h, Some c))) = (typeHash, cip)"
    by (rule prod.exhaust)
  obtain ty pad where t: "DeterminePacketTypeAndPadding dev packet MessageUnknownType typeHash = (ty, pad)" by (rule prod.exhaust)
  define msg where "msg = (if cip \<noteq> None then applyHash (take 4 (drop (unat pad) packet)) typeHash @ drop 4 (drop (unat pad) packet)
      else drop (unat pad) packet)"
  show ?thesis
    using assms unfolding receive_datagram_def Let_def fst_conv snd_conv c t prod.case
    by (fold msg_def, simp only: split: if_split_asm option.split_asm) (auto simp: found_def receiver_of_def)
qed

lemma add_for_peer_all: "all_found dev m \<Longrightarrow> found dev q x \<Longrightarrow> all_found dev (add_for_peer q x m)"
  by (induction m) (auto simp: all_found_Nil all_found_Cons)

lemma receive_batch_found:
  "all_found dev m \<Longrightarrow> receive_batch C ds m dev = (m', dev') \<Longrightarrow> d_indexTable dev' = d_indexTable dev \<and> all_found dev m'"
proof (induction ds arbitrary: m dev)
  case (Cons d ds)
  show ?case
  proof (cases "receive_datagram C dev d")
    case Dropped
    then show ?thesis using Cons by simp
  next
    case (Transport p el)
    then have "found dev p el" using receive_datagram_found by (cases d) simp
    note new = add_for_peer_all [OF Cons.prems(1) this]
    then show ?thesis using Cons.IH [OF new] Cons.prems(2) Transport by simp
  next
    case (HandshakeMessage el)
    define D where "D = (if length (d_handshakeQueue dev) < QueueHandshakeSize
             then dev\<lparr>d_handshakeQueue := d_handshakeQueue dev @ [el]\<rparr> else dev)"
    have D: "d_indexTable D = d_indexTable dev" by (simp add: D_def)
    have "receive_batch C ds m D = (m', dev')" using Cons.prems(2) HandshakeMessage by (simp add: D_def)
    then show ?thesis using Cons.IH [of D m] Cons.prems(1) by (simp add: D all_found_same [OF D])
  qed
qed simp

subsection \<open>Invariants of the traffic\<close>

locale traffic_effects =
  fixes C :: Crypto and G :: "nat \<Rightarrow> bool" and Q :: "Device \<Rightarrow> bool"
  assumes owner: "Current p dev = Some k \<Longrightarrow> Q dev \<Longrightarrow> G p"
    and runner: "p_isRunning (d_peers dev p) \<Longrightarrow> Q dev \<Longrightarrow> G p"
    and member: "kp \<in> set (d_keyMap dev) \<Longrightarrow> Q dev \<Longrightarrow> G (snd kp)"
    and responder: "ConsumeMessageResponse C rm dev = (d, Some p) \<Longrightarrow> Q dev \<Longrightarrow> G p"
    and env: "Q dev \<Longrightarrow> quiet_env (d_env dev) e \<Longrightarrow> Q (dev\<lparr>d_env := e\<rparr>)"
    and quiet: "Q dev \<Longrightarrow> quiet_peer (d_peers dev p) (f (d_peers dev p)) \<Longrightarrow> Q (upd_peer p f dev)"
    and running: "G p \<Longrightarrow> Q dev \<Longrightarrow> Q (upd_peer p (\<lambda>peer. peer\<lparr>p_inbound := [], p_outbound := [], p_isRunning := b\<rparr>) dev)"
    and stopped: "Q dev \<Longrightarrow> Q (upd_peer p (\<lambda>peer. peer\<lparr>p_isRunning := False\<rparr>) dev)"
    and staged: "Q dev \<Longrightarrow> Q (upd_peer p (\<lambda>peer. peer\<lparr>p_staged := s peer\<rparr>) dev)"
    and handed: "Q dev \<Longrightarrow> Current p dev = Some k \<Longrightarrow> Q (fst (hand_out p k c dev))"
    and sent_first: "Q dev \<Longrightarrow> p_outbound (d_peers dev p) = c # rest \<Longrightarrow>
           Q (upd_peer p (\<lambda>peer. peer\<lparr>p_outbound := rest\<rparr>) dev)"
    and encrypted: "Q dev \<Longrightarrow> p_outbound (d_peers dev p) = q \<Longrightarrow> i < length q \<Longrightarrow> nonces c = nonces (q ! i) \<Longrightarrow>
           Q (upd_peer p (\<lambda>peer. peer\<lparr>p_outbound := q[i := c]\<rparr>) dev)"
    and queued: "Q dev \<Longrightarrow> \<forall>el \<in> set els. found dev p el \<Longrightarrow>
           Q (upd_peer p (\<lambda>peer. peer\<lparr>p_inbound := p_inbound peer @ [\<lparr>ic_locked = True, ic_elems = els\<rparr>]\<rparr>) dev)"
    and decrypted: "Q dev \<Longrightarrow> p_inbound (d_peers dev p) = qi \<Longrightarrow> i < length qi \<Longrightarrow> ic_locked (qi ! i) \<Longrightarrow>
           decrypt_elems C dev (ic_elems (qi ! i)) = Some els \<Longrightarrow>
           Q (upd_peer p (\<lambda>peer. peer\<lparr>p_inbound := qi[i := \<lparr>ic_locked = False, ic_elems = els\<rparr>]\<rparr>) dev)"
    and taken: "Q dev \<Longrightarrow> p_inbound (d_peers dev p) = ci # qi \<Longrightarrow> Q (upd_peer p (\<lambda>peer. peer\<lparr>p_inbound := qi\<rparr>) dev)"
    and last_sent: "Q dev \<Longrightarrow> Q (upd_handshake p (\<lambda>h. h\<lparr>hs_lastSentHandshake := t\<rparr>) dev)"
    and initiation_created: "G p \<Longrightarrow> Q dev \<Longrightarrow> Q (fst (CreateMessageInitiation C p dev))"
    and initiation_consumed: "Q dev \<Longrightarrow> Q (fst (ConsumeMessageInitiation C im dev))"
    and response_created: "Q dev \<Longrightarrow> Q (fst (CreateMessageResponse C p dev))"
    and response_consumed: "Q dev \<Longrightarrow> Q (fst (ConsumeMessageResponse C rm dev))"
    and session_begun: "Q dev \<Longrightarrow> Q (fst (BeginSymmetricSession C p dev))"
    and received_with: "Q dev \<Longrightarrow> Q (fst (ReceivedWithKeypair p k dev))"
    and counted: "Q dev \<Longrightarrow> Q (upd_keypair k (\<lambda>kp. kp\<lparr>kp_replayFilter := fl\<rparr>) dev)"
    and zeroed: "Q dev \<Longrightarrow> Q (ZeroAndFlushAll p dev)"
    and sent: "Q dev \<Longrightarrow> Q (dev\<lparr>d_sent := out\<rparr>)"
    and handshakes: "Q dev \<Longrightarrow> Q (dev\<lparr>d_handshakeQueue := hq\<rparr>)"
    and limited: "Q dev \<Longrightarrow> Q (dev\<lparr>d_limiter := lim\<rparr>)"
    and checker: "Q dev \<Longrightarrow> Q (dev\<lparr>d_cookieChecker := ch\<rparr>)"
    and loaded: "Q dev \<Longrightarrow> Q (dev\<lparr>d_underLoadUntil := u\<rparr>)"
    and panicked: "Q dev \<Longrightarrow> Q (panic dev)"
begin

subsubsection \<open>Rules for the shapes of a handler\<close>

text \<open>A device computed on the way is only known to have the property.\<close>

lemma shape_if:
  "(c \<Longrightarrow> Q a) \<Longrightarrow> (\<not> c \<Longrightarrow> Q b) \<Longrightarrow> Q (if c then a else b)"
  "(c \<Longrightarrow> Q (fst s)) \<Longrightarrow> (\<not> c \<Longrightarrow> Q (fst t)) \<Longrightarrow> Q (fst (if c then s else t))"
  "(c \<Longrightarrow> Q (snd u)) \<Longrightarrow> (\<not> c \<Longrightarrow> Q (snd v)) \<Longrightarrow> Q (snd (if c then u else v))"
  by simp_all

lemma shape_let:
  "Q x \<Longrightarrow> (\<And>d. Q d \<Longrightarrow> Q (f d)) \<Longrightarrow> Q (Let x f)"
  "Q x \<Longrightarrow> (\<And>d. Q d \<Longrightarrow> Q (fst (g d))) \<Longrightarrow> Q (fst (Let x g))"
  "Q x \<Longrightarrow> (\<And>d. Q d \<Longrightarrow> Q (snd (h d))) \<Longrightarrow> Q (snd (Let x h))"
  by simp_all

lemma shape_let_value:
  "(\<And>v. Q (f v)) \<Longrightarrow> Q (Let x f)"
  "(\<And>v. Q (fst (g v))) \<Longrightarrow> Q (fst (Let y g))"
  "(\<And>v. Q (snd (h v))) \<Longrightarrow> Q (snd (Let z h))"
  by simp_all

lemma shape_prod:
  "Q (fst t) \<Longrightarrow> (\<And>d r. Q d \<Longrightarrow> Q (f d r)) \<Longrightarrow> Q (case t of (d, r) \<Rightarrow> f d r)"
  "Q (fst t) \<Longrightarrow> (\<And>d r. Q d \<Longrightarrow> Q (fst (g d r))) \<Longrightarrow> Q (fst (case t of (d, r) \<Rightarrow> g d r))"
  "Q (fst t) \<Longrightarrow> (\<And>d r. Q d \<Longrightarrow> Q (snd (h d r))) \<Longrightarrow> Q (snd (case t of (d, r) \<Rightarrow> h d r))"
  "Q (snd u) \<Longrightarrow> (\<And>d r. Q d \<Longrightarrow> Q (k r d)) \<Longrightarrow> Q (case u of (r, d) \<Rightarrow> k r d)"
  "Q (snd u) \<Longrightarrow> (\<And>d r. Q d \<Longrightarrow> Q (fst (l r d))) \<Longrightarrow> Q (fst (case u of (r, d) \<Rightarrow> l r d))"
  "Q (snd u) \<Longrightarrow> (\<And>d r. Q d \<Longrightarrow> Q (snd (m r d))) \<Longrightarrow> Q (snd (case u of (r, d) \<Rightarrow> m r d))"
  by (simp_all add: split_beta)

lemma shape_let_prod:
  "Q (fst t) \<Longrightarrow> (\<And>d r. Q d \<Longrightarrow> Q (f d r)) \<Longrightarrow> Q (let (d, r) = t in f d r)"
  "Q (fst t) \<Longrightarrow> (\<And>d r. Q d \<Longrightarrow> Q (fst (g d r))) \<Longrightarrow> Q (fst (let (d, r) = t in g d r))"
  "Q (fst t) \<Longrightarrow> (\<And>d r. Q d \<Longrightarrow> Q (snd (h d r))) \<Longrightarrow> Q (snd (let (d, r) = t in h d r))"
  "Q (snd u) \<Longrightarrow> (\<And>d r. Q d \<Longrightarrow> Q (k r d)) \<Longrightarrow> Q (let (r, d) = u in k r d)"
  "Q (snd u) \<Longrightarrow> (\<And>d r. Q d \<Longrightarrow> Q (fst (l r d))) \<Longrightarrow> Q (fst (let (r, d) = u in l r d))"
  "Q (snd u) \<Longrightarrow> (\<And>d r. Q d \<Longrightarrow> Q (snd (m r d))) \<Longrightarrow> Q (snd (let (r, d) = u in m r d))"
  by (simp_all add: split_beta)

lemma shape_prod_value:
  "(\<And>a b. Q (f a b)) \<Longrightarrow> Q (case t of (a, b) \<Rightarrow> f a b)"
  "(\<And>a b. Q (fst (g a b))) \<Longrightarrow> Q (fst (case t of (a, b) \<Rightarrow> g a b))"
  "(\<And>a b. Q (snd (h a b))) \<Longrightarrow> Q (snd (case t of (a, b) \<Rightarrow> h a b))"
  by (simp_all add: split_beta)

lemma shape_pair: "Q d \<Longrightarrow> Q (fst (d, r))" "Q d \<Longrightarrow> Q (snd (r, d))"
  by simp_all

lemma shape_option:
  "(t = None \<Longrightarrow> Q a) \<Longrightarrow> (\<And>x. t = Some x \<Longrightarrow> Q (f x)) \<Longrightarrow> Q (case t of None \<Rightarrow> a | Some x \<Rightarrow> f x)"
  "(t = None \<Longrightarrow> Q (fst b)) \<Longrightarrow> (\<And>x. t = Some x \<Longrightarrow> Q (fst (g x))) \<Longrightarrow>
     Q (fst (case t of None \<Rightarrow> b | Some x \<Rightarrow> g x))"
  "(t = None \<Longrightarrow> Q (snd c)) \<Longrightarrow> (\<And>x. t = Some x \<Longrightarrow> Q (snd (h x))) \<Longrightarrow>
     Q (snd (case t of None \<Rightarrow> c | Some x \<Rightarrow> h x))"
  by (simp_all split: option.splits)

lemma shape_sum:
  "(\<And>x. t = Inl x \<Longrightarrow> Q (f x)) \<Longrightarrow> (\<And>y. t = Inr y \<Longrightarrow> Q (g y)) \<Longrightarrow> Q (case t of Inl x \<Rightarrow> f x | Inr y \<Rightarrow> g y)"
  "(\<And>x. t = Inl x \<Longrightarrow> Q (fst (h x))) \<Longrightarrow> (\<And>y. t = Inr y \<Longrightarrow> Q (fst (k y))) \<Longrightarrow>
     Q (fst (case t of Inl x \<Rightarrow> h x | Inr y \<Rightarrow> k y))"
  by (simp_all split: sum.splits)

lemma shape_list:
  "(t = [] \<Longrightarrow> Q a) \<Longrightarrow> (\<And>x xs. t = x # xs \<Longrightarrow> Q (f x xs)) \<Longrightarrow> Q (case t of [] \<Rightarrow> a | x # xs \<Rightarrow> f x xs)"
  "(t = [] \<Longrightarrow> Q (fst b)) \<Longrightarrow> (\<And>x xs. t = x # xs \<Longrightarrow> Q (fst (g x xs))) \<Longrightarrow>
     Q (fst (case t of [] \<Rightarrow> b | x # xs \<Rightarrow> g x xs))"
  "(t = [] \<Longrightarrow> Q (snd c)) \<Longrightarrow> (\<And>x xs. t = x # xs \<Longrightarrow> Q (snd (h x xs))) \<Longrightarrow>
     Q (snd (case t of [] \<Rightarrow> c | x # xs \<Rightarrow> h x xs))"
  by (simp_all split: list.splits)

lemma shape_fold: "(\<And>x d. x \<in> set xs \<Longrightarrow> Q d \<Longrightarrow> Q (f x d)) \<Longrightarrow> Q dev \<Longrightarrow> Q (fold f xs dev)"
  by (induction xs arbitrary: dev) simp_all

lemmas shapes = shape_if shape_pair shape_let shape_let_prod shape_prod shape_option shape_sum shape_list shape_fold

lemmas shapes_value = shape_let_value shape_prod_value

end

context traffic_effects
begin

lemma quiet_timers: "Q dev \<Longrightarrow> Q (upd_timers p f dev)"
  by (simp add: upd_timers_def quiet quiet_peer_def)

named_theorems keeps

lemmas [keeps] = quiet_timers running stopped staged handed last_sent
  initiation_created initiation_consumed response_created response_consumed session_begun
  received_with counted zeroed sent handshakes limited checker loaded panicked

subsubsection \<open>Draws and timers\<close>

lemma draws [keeps]:
  "Q dev \<Longrightarrow> Q (snd (rand_Read n dev))"
  "Q dev \<Longrightarrow> Q (snd (rand_word dev))"
  "Q dev \<Longrightarrow> Q (snd (take_bytes n dev))"
  by (auto simp: rand_Read_def rand_word_def take_bytes_def quiet_env_def intro: env split: list.splits)

lemma pick_one_keeps [keeps]: "Q dev \<Longrightarrow> Q (snd (pick_one r dev))"
  unfolding pick_one_def by (assumption | rule keeps shapes)+

lemma timeouts [keeps]:
  "Q dev \<Longrightarrow> Q (snd (retransmitHandshakeTimeout dev))"
  "Q dev \<Longrightarrow> Q (snd (sendKeepaliveTimeout dev))"
  "Q dev \<Longrightarrow> Q (snd (keyRefreshTimeoutSending dev))"
  "Q dev \<Longrightarrow> Q (snd (keyRefreshTimeoutReceiving dev))"
  "Q dev \<Longrightarrow> Q (snd (maxHandshakeAttemps dev))"
  "Q dev \<Longrightarrow> Q (snd (jitter dev))"
  unfolding retransmitHandshakeTimeout_def sendKeepaliveTimeout_def keyRefreshTimeoutSending_def
    keyRefreshTimeoutReceiving_def maxHandshakeAttemps_def jitter_def
  by (assumption | rule keeps shapes | rule shapes_value)+

lemma newHandshakeTimeout_keeps [keeps]: "Q dev \<Longrightarrow> Q (snd (newHandshakeTimeout dev))"
  unfolding newHandshakeTimeout_def by (assumption | rule keeps shapes | rule shapes_value)+

lemma quiet_hooks [keeps]:
  "Q dev \<Longrightarrow> Q (upd_peer p (\<lambda>peer. peer\<lparr>p_lastHandshakeNano := t\<rparr>) dev)"
  "Q dev \<Longrightarrow> Q (upd_peer p (\<lambda>peer. peer\<lparr>p_cookieGenerator := g peer\<rparr>) dev)"
  "Q dev \<Longrightarrow> Q (upd_peer p (\<lambda>peer. peer\<lparr>p_txBytes := n peer\<rparr>) dev)"
  "Q dev \<Longrightarrow> Q (upd_peer p (\<lambda>peer. peer\<lparr>p_rxBytes := n peer\<rparr>) dev)"
  "Q dev \<Longrightarrow> Q (upd_peer p (\<lambda>peer. peer\<lparr>p_endpoint := ep, p_clearSrcOnTx := b\<rparr>) dev)"
  "Q dev \<Longrightarrow> Q (upd_peer p (\<lambda>peer. peer\<lparr>p_clearSrcOnTx := b, p_endpoint := ep\<rparr>) dev)"
  "Q dev \<Longrightarrow> Q (upd_peer p (\<lambda>peer. peer\<lparr>p_clearSrcOnTx := b\<rparr>) dev)"
  by (simp_all add: quiet quiet_peer_def)

lemma hooks [keeps]:
  "Q dev \<Longrightarrow> Q (timersDataSent p dev)"
  "Q dev \<Longrightarrow> Q (timersDataReceived p dev)"
  "Q dev \<Longrightarrow> Q (timersAnyAuthenticatedPacketSent p dev)"
  "Q dev \<Longrightarrow> Q (timersAnyAuthenticatedPacketReceived p dev)"
  "Q dev \<Longrightarrow> Q (timersHandshakeInitiated p dev)"
  "Q dev \<Longrightarrow> Q (timersHandshakeComplete p dev)"
  "Q dev \<Longrightarrow> Q (timersSessionDerived p dev)"
  "Q dev \<Longrightarrow> Q (timersAnyAuthenticatedPacketTraversal p dev)"
  "Q dev \<Longrightarrow> Q (timersStart p dev)"
  "Q dev \<Longrightarrow> Q (timersStop p dev)"
  unfolding timersDataSent_def timersDataReceived_def timersAnyAuthenticatedPacketSent_def
    timersAnyAuthenticatedPacketReceived_def timersHandshakeInitiated_def timersHandshakeComplete_def
    timersSessionDerived_def timersAnyAuthenticatedPacketTraversal_def timersStart_def timersStop_def
  by (assumption | rule keeps shapes | rule shapes_value)+

subsubsection \<open>Peers\<close>

lemma bind_Send_keeps [keeps]: "Q dev \<Longrightarrow> Q (fst (bind_Send bufs e dev))"
  using env [OF sent] by (auto simp: bind_Send_def Let_def quiet_env_def intro: sent split: list.splits)

lemma peer_ops [keeps]:
  "Q dev \<Longrightarrow> Q (fst (SendBuffers p bufs dev))"
  "G p \<Longrightarrow> Q dev \<Longrightarrow> Q (Start p dev)"
  "Q dev \<Longrightarrow> Q (FlushStagedPackets p dev)"
  "Q dev \<Longrightarrow> Q (Stop p dev)"
  "Q dev \<Longrightarrow> Q (SetEndpointFromPacket p ep dev)"
  "Q dev \<Longrightarrow> Q (markEndpointSrcForClearing p dev)"
  unfolding SendBuffers_def Start_def FlushStagedPackets_def Stop_def SetEndpointFromPacket_def
    markEndpointSrcForClearing_def
  by (assumption | rule keeps shapes | rule shapes_value)+

subsubsection \<open>The way out\<close>

lemma junk_loop_keeps: "Q dev \<Longrightarrow> Q (snd (junk_loop n lo hi dev))"
proof (induction n arbitrary: dev)
  case (Suc n)
  show ?case unfolding junk_loop.simps by (assumption | rule Suc keeps shapes)+
qed simp

lemma JunkPackets_keeps [keeps]: "Q dev \<Longrightarrow> Q (snd (JunkPackets dev))"
  by (simp add: JunkPackets_def junk_loop_keeps)

lemma ipacket_buffers_keeps: "ipacket_buffers cs dev = Some x \<Longrightarrow> Q dev \<Longrightarrow> Q (snd x)"
proof (induction cs dev arbitrary: x rule: ipacket_buffers.induct)
  case (3 c cs dev)
  have "Q (snd (take_bytes (length (obfs c)) dev))" using draws(3) 3(3) by blast
  then show ?case using 3 by (auto simp: Let_def split: prod.splits if_splits bind_splits)
qed simp_all

lemma SendHandshakeInitiation_keeps [keeps]: "G p \<Longrightarrow> Q dev \<Longrightarrow> Q (fst (SendHandshakeInitiation C r p dev))"
  unfolding SendHandshakeInitiation_def
  by (assumption | rule keeps shapes | rule ipacket_buffers_keeps | rule shapes_value)+

lemma SendHandshakeResponse_keeps [keeps]: "Q dev \<Longrightarrow> Q (fst (SendHandshakeResponse C p dev))"
  unfolding SendHandshakeResponse_def by (assumption | rule keeps shapes | rule shapes_value)+

end

context traffic_effects
begin

lemma reply_draws_keeps:
  assumes "Q dev" "\<And>s n d. Q d \<Longrightarrow> Q (fst (f s n d))"
  shows "Q (fst (let (s, n, d) = reply_draws dev in f s n d))"
proof -
  let ?s = "if time_sub (now dev) (cc_secretSet (d_cookieChecker dev)) > CookieRefreshTime then rand_Read 32 dev else ([], dev)"
  have "Q (snd ?s)" using assms(1) draws(1) by simp
  then show ?thesis using assms(2) draws(1) by (auto simp: reply_draws_def Let_def split_beta)
qed

lemma shape_cookie_error:
  "Q (fst a) \<Longrightarrow> Q (fst b) \<Longrightarrow> Q (fst (case e of CookieRand \<Rightarrow> a | CookiePanic \<Rightarrow> b))"
  by (cases e) simp_all

lemma SendHandshakeCookie_keeps [keeps]: "Q dev \<Longrightarrow> Q (fst (SendHandshakeCookie C el dev))"
  unfolding SendHandshakeCookie_def
  by (assumption | rule keeps shapes reply_draws_keeps shape_cookie_error | rule shapes_value)+

lemma keepKeyFreshSending_keeps [keeps]: "Q dev \<Longrightarrow> Q (keepKeyFreshSending C p dev)"
  unfolding keepKeyFreshSending_def by (assumption | rule keeps shapes | erule (1) owner | rule shapes_value)+

lemma StagePackets_keeps [keeps]: "Q dev \<Longrightarrow> Q (StagePackets p c dev)"
  unfolding StagePackets_def by (rule staged)

lemma send_staged_keeps: "C' = C \<Longrightarrow> G p \<Longrightarrow> Q dev \<Longrightarrow> Q (send_staged C' p atTop dev)"
proof (induction C' p atTop dev rule: send_staged.induct)
  case (1 C' p atTop dev)
  show ?case
  proof (cases atTop)
    case True
    then show ?thesis using 1(1,3-5) SendHandshakeInitiation_keeps [OF 1(4,5)] by (subst send_staged.simps) auto
  next
    case False
    show ?thesis
    proof (cases "Current p dev")
      case None
      then show ?thesis using False 1(5) by (subst send_staged.simps) simp
    next
      case (Some k)
      show ?thesis
      proof (cases "p_staged (d_peers dev p)")
        case Nil
        then show ?thesis using False Some 1(5) by (subst send_staged.simps) simp
      next
        case (Cons c rest)
        define D where "D = upd_peer p (\<lambda>peer. peer\<lparr>p_staged := rest\<rparr>) dev"
        obtain dev' ooo kept where h: "hand_out p k c D = (dev', ooo, kept)" by (metis prod_cases3)
        have "Q D" unfolding D_def by (rule staged [OF 1(5)])
        moreover have "Current p D = Some k" using Some by (simp add: D_def Current_def)
        ultimately have "Q dev'" using handed [of D p k c] h by simp
        then have "Q (send_staged C' p (\<not> kept \<or> ooo) dev')"
          using 1(2) [OF False refl Some Cons h [unfolded D_def, symmetric] refl refl 1(3,4)] by simp
        then show ?thesis using False Some Cons h by (subst send_staged.simps) (simp add: D_def)
      qed
    qed
  qed
qed

end

context traffic_effects
begin

lemma sending [keeps]:
  "G p \<Longrightarrow> Q dev \<Longrightarrow> Q (SendStagedPackets C p dev)"
  by (simp add: SendStagedPackets_def send_staged_keeps)

lemma SendKeepalive_keeps [keeps]: "G p \<Longrightarrow> Q dev \<Longrightarrow> Q (SendKeepalive C p dev)"
  unfolding SendKeepalive_def by (assumption | rule keeps shapes)+

lemma RoutineReadFromTUN_keeps [keeps]: "Q dev \<Longrightarrow> Q (fst (RoutineReadFromTUN C packets err dev))"
  unfolding RoutineReadFromTUN_def stage_and_send_def by (assumption | rule keeps shapes | erule (1) runner)+

lemma after_send [keeps]:
  "Q dev \<Longrightarrow> Q (case r of Inr x \<Rightarrow> keepKeyFreshSending C p dev
     | Inl (BindFailed (GSODisabled True)) \<Rightarrow> keepKeyFreshSending C p dev | Inl y \<Rightarrow> dev)"
  using keepKeyFreshSending_keeps [of dev p] by (auto split: sum.splits send_error.splits send_result.splits bool.splits)

lemma RoutineSequentialSender_keeps [keeps]: "Q dev \<Longrightarrow> Q (RoutineSequentialSender C p dev)"
  unfolding RoutineSequentialSender_def
  by (assumption | erule (1) sent_first | rule keeps shapes | rule shapes_value)+

lemma RoutineEncryption_keeps [keeps]:
  assumes "Q dev"
  shows "Q (RoutineEncryption C p i dev)"
proof (cases "i < length (p_outbound (d_peers dev p)) \<and> oc_locked (p_outbound (d_peers dev p) ! i)")
  case True
  let ?q = "p_outbound (d_peers dev p)"
  show ?thesis
  proof (cases "encrypt_elems C (oc_elems (?q ! i)) dev")
    case (Some x)
    obtain els dev' where x: "x = (els, dev')" by (cases x)
    let ?c = "\<lparr>oc_locked = False, oc_elems = els\<rparr>"
    obtain e where dev': "dev' = dev\<lparr>d_env := e\<rparr>" "quiet_env (d_env dev) e" and n: "nonces ?c = nonces (?q ! i)"
      using encrypt_elems_shape [of C "oc_elems (?q ! i)" dev els dev'] Some x by (auto simp: drawn_def nonces_def)
    have "Q dev'" using env [OF assms dev'(2)] dev'(1) by simp
    then have "Q (upd_peer p (\<lambda>peer. peer\<lparr>p_outbound := ?q[i := ?c]\<rparr>) dev')"
      by (rule encrypted) (use True dev'(1) n in simp_all)
    then show ?thesis using True Some x by (simp add: RoutineEncryption_def)
  qed (use True assms in \<open>simp add: RoutineEncryption_def panicked\<close>)
qed (auto simp: RoutineEncryption_def assms)

subsubsection \<open>The way in\<close>

lemma keepKeyFreshReceiving_keeps [keeps]: "Q dev \<Longrightarrow> Q (keepKeyFreshReceiving C p dev)"
  unfolding keepKeyFreshReceiving_def by (assumption | rule keeps shapes | erule (1) owner | rule shapes_value)+

lemma receive_batch_keeps: "Q dev \<Longrightarrow> Q (snd (receive_batch C' ds m dev))"
  by (induction C' ds m dev rule: receive_batch.induct) (auto simp: handshakes split: incoming.splits)

lemma queue_inbound_keeps: "Q dev \<Longrightarrow> \<forall>el \<in> set (snd pe). found dev (fst pe) el \<Longrightarrow> Q (queue_inbound pe dev)"
  by (simp add: queue_inbound_def queued)

lemma queue_inbound_all: "Q dev \<Longrightarrow> all_found dev m \<Longrightarrow> Q (fold queue_inbound m dev)"
proof (induction m arbitrary: dev)
  case (Cons pe m)
  have "d_indexTable (queue_inbound pe dev) = d_indexTable dev" by (simp add: queue_inbound_def)
  note same = all_found_same [OF this]
  show ?case
    using Cons.IH [of "queue_inbound pe dev"] Cons.prems queue_inbound_keeps [of dev pe] by (simp add: same all_found_Cons)
qed simp

lemma RoutineReceiveIncoming_keeps [keeps]:
  assumes "Q dev"
  shows "Q (fst (RoutineReceiveIncoming C n recv dev))"
proof (cases recv)
  case (Inl e)
  then show ?thesis using assms by (cases e) (simp_all add: RoutineReceiveIncoming_def)
next
  case (Inr ds)
  obtain m D where b: "receive_batch C ds [] dev = (m, D)" by force
  have "Q D" using receive_batch_keeps [OF assms, of C ds "[]"] b by simp
  moreover have "all_found D m" using receive_batch_found [OF _ b] all_found_same [of D dev m] by (simp add: all_found_def)
  ultimately show ?thesis using Inr b queue_inbound_all by (simp add: RoutineReceiveIncoming_def)
qed

lemma RoutineDecryption_keeps [keeps]: "Q dev \<Longrightarrow> Q (RoutineDecryption C p i dev)"
  by (simp add: RoutineDecryption_def Let_def panicked decrypted split: option.splits)

lemma IsUnderLoad_keeps [keeps]: "Q dev \<Longrightarrow> Q (fst (IsUnderLoad dev))"
  unfolding IsUnderLoad_def by (assumption | rule keeps shapes)+

lemma handle_cookie_reply_keeps [keeps]: "Q dev \<Longrightarrow> Q (handle_cookie_reply C el dev)"
  unfolding handle_cookie_reply_def by (assumption | rule keeps shapes)+

lemma admit_keeps: "admit C el dev = Some x \<Longrightarrow> Q dev \<Longrightarrow> Q (fst x)"
  using IsUnderLoad_keeps [of dev] SendHandshakeCookie_keeps [OF IsUnderLoad_keeps, of dev el]
  by (auto simp: admit_def split_beta Let_def intro: limited split: if_splits bind_splits)

lemma handle_initiation_keeps [keeps]: "Q dev \<Longrightarrow> Q (handle_initiation C el dev)"
  unfolding handle_initiation_def by (assumption | rule keeps shapes)+

lemma handle_response_keeps [keeps]:
  assumes "Q dev"
  shows "Q (handle_response C el dev)"
proof (cases "read_response (he_packet el)")
  case (Some msg)
  obtain D peer where c: "ConsumeMessageResponse C (msg\<lparr>mr_Type := he_msgType el\<rparr>) dev = (D, peer)" by force
  have D: "Q D" using response_consumed [OF assms, of "msg\<lparr>mr_Type := he_msgType el\<rparr>"] c by simp
  show ?thesis
  proof (cases peer)
    case p: (Some p)
    have "G p" using responder [OF c [unfolded p] assms] .
    show ?thesis unfolding handle_response_def Some c p option.case Let_def [of "(D, Some p)"] prod.case
      by (rule \<open>G p\<close> D | assumption | rule keeps shapes)+
  qed (simp add: handle_response_def Some c D)
qed (simp add: handle_response_def assms)

lemma RoutineHandshake_keeps [keeps]:
  assumes "Q dev"
  shows "Q (RoutineHandshake C dev)"
proof (cases "d_handshakeQueue dev")
  case (Cons el rest)
  define D where "D = dev\<lparr>d_handshakeQueue := rest\<rparr>"
  have D: "Q D" unfolding D_def by (rule handshakes [OF assms])
  show ?thesis
  proof (cases "admit C el D")
    case None
    then show ?thesis using Cons D by (simp add: RoutineHandshake_def Let_def keeps flip: D_def)
  next
    case (Some x)
    then have "Q (fst x)" by (rule admit_keeps [OF _ D])
    then show ?thesis
      using Cons D Some by (cases x) (auto simp: RoutineHandshake_def Let_def keeps simp flip: D_def split: bool.splits)
  qed
qed (simp add: RoutineHandshake_def assms)

lemma receive_elem_keeps: "G p \<Longrightarrow> Q (rx_dev st) \<Longrightarrow> Q (rx_dev (receive_elem C p el st))"
proof (cases "ib_packet el")
  case (Some packet)
  assume "G p" and st: "Q (rx_dev st)"
  obtain f ok where v: "ValidateCounter (kp_replayFilter (d_keypairs (rx_dev st) (ib_keypair el))) (ib_counter el)
      RejectAfterMessages = (f, ok)" by force
  define D where "D = upd_keypair (ib_keypair el) (\<lambda>kp. kp\<lparr>kp_replayFilter := f\<rparr>) (rx_dev st)"
  obtain E first where r: "ReceivedWithKeypair p (ib_keypair el) D = (E, first)" by force
  have D: "Q D" unfolding D_def by (rule counted [OF st])
  have "Q E" using received_with [OF D, of p "ib_keypair el"] r by simp
  then have "Q (if first then SendStagedPackets C p (timersHandshakeComplete p (SetEndpointFromPacket p (ib_endpoint el) E)) else E)"
    using \<open>G p\<close> by (simp add: keeps)
  then show ?thesis
    using D by (auto simp: receive_elem_def Some v Let_def r simp flip: D_def split: option.splits)
qed (simp add: receive_elem_def)

lemma receive_elems_keep: "G p \<Longrightarrow> Q (rx_dev st) \<Longrightarrow> Q (rx_dev (fold (receive_elem C p) els st))"
  by (induction els arbitrary: st) (simp_all add: receive_elem_keeps)

end

text \<open>The last effect: the sequential receiver writes to the tunnel.\<close>

locale traffic_invariant = traffic_effects +
  assumes written: "Q dev \<Longrightarrow> Q (dev\<lparr>d_written := wr\<rparr>)"
begin

lemmas [keeps] = written

lemma RoutineSequentialReceiver_keeps [keeps]: "G p \<Longrightarrow> Q dev \<Longrightarrow> Q (RoutineSequentialReceiver C p dev)"
proof (cases "p_inbound (d_peers dev p)")
  case (Cons c rest)
  assume "G p" and dev: "Q dev"
  define D where "D = upd_peer p (\<lambda>peer. peer\<lparr>p_inbound := rest\<rparr>) dev"
  define st where "st = fold (receive_elem C p) (ic_elems c)
    \<lparr>rx_dev = D, rx_tail = None, rx_data = False, rx_len = 0, rx_bufs = []\<rparr>"
  have D: "Q D" unfolding D_def by (rule taken [OF dev Cons])
  have st: "Q (rx_dev st)" unfolding st_def by (rule receive_elems_keep [OF \<open>G p\<close>]) (simp add: D)
  have "RoutineSequentialReceiver C p dev = (if ic_locked c then dev else
      let dev = upd_peer p (\<lambda>peer. peer\<lparr>p_rxBytes := p_rxBytes peer + rx_len st\<rparr>) (rx_dev st);
              dev = (case rx_tail st of
                       None \<Rightarrow> dev
                     | Some e \<Rightarrow>
                         let dev = SetEndpointFromPacket p e dev;
                             dev = keepKeyFreshReceiving C p dev;
                             dev = timersAnyAuthenticatedPacketTraversal p dev
                         in timersAnyAuthenticatedPacketReceived p dev);
              dev = (if rx_data st then timersDataReceived p dev else dev)
          in dev\<lparr>d_written := d_written dev @ rx_bufs st\<rparr>)"
    using Cons unfolding RoutineSequentialReceiver_def D_def st_def by (simp add: Let_def)
  then show ?thesis
    by (elim ssubst) (insert dev st, (assumption | rule keeps shapes | rule shapes_value)+)
qed (simp add: RoutineSequentialReceiver_def)

subsubsection \<open>Timers that expire\<close>

lemma expired_keeps [keeps]: "G p \<Longrightarrow> Q dev \<Longrightarrow> Q (expired C i p dev)"
proof (cases i)
  case TRetransmit
  assume "G p" "Q dev"
  show ?thesis unfolding TRetransmit expired.simps expiredRetransmitHandshake_def
    by (rule \<open>G p\<close> \<open>Q dev\<close> | assumption | rule keeps shapes)+
next
  case TKeepalive
  assume "G p" "Q dev"
  show ?thesis unfolding TKeepalive expired.simps expiredSendKeepalive_def
    by (rule \<open>G p\<close> \<open>Q dev\<close> | assumption | rule keeps shapes)+
qed (simp_all add: expiredNewHandshake_def expiredZeroKeyMaterial_def expiredPersistentKeepalive_def keeps)

lemma timer_callback_keeps [keeps]: "G p \<Longrightarrow> Q dev \<Longrightarrow> Q (timer_callback C i p dev)"
  unfolding timer_callback_def by (assumption | rule keeps shapes | rule shapes_value)+

end

end
