(* ===== verification/Frame.thy ===== *)
theory Frame
  imports Invariance
begin

text \<open>
  What traffic cannot change. \<open>settled\<close> is the part of a device that only its owner sets: the state,
  the keys, the peers and their static keys, the routes and the parameters of the obfuscation. It is
  the first property to which the interface of theory \<open>Invariance\<close> applies.
\<close>

record Settled =
  st_state :: deviceState
  st_bind :: "bool \<times> u16 \<times> u32 \<times> bool"
  st_identity :: "bytes \<times> bytes"
  st_keyMap :: "(bytes \<times> nat) list"
  st_nextPeer :: nat
  st_statics :: "nat \<Rightarrow> bytes \<times> bytes \<times> bytes"
  st_routes :: "nat AllowedIPs"
  st_mtu :: int
  st_junk :: Junk
  st_headers :: Headers
  st_paddings :: Paddings
  st_ipackets :: "obfChain option list"
  st_headerKey :: bytes
  st_addition :: UintRange
  st_timings :: Timings

definition statics :: "Handshake \<Rightarrow> bytes \<times> bytes \<times> bytes" where
  "statics h = (hs_remoteStatic h, hs_presharedKey h, hs_precomputedStaticStatic h)"

definition settled :: "Device \<Rightarrow> Settled" where
  "settled dev =
     \<lparr>st_state = d_state dev, st_bind = (d_bindOpen dev, d_port dev, d_fwmark dev, d_brokenRoaming dev),
      st_identity = (d_privateKey dev, d_publicKey dev), st_keyMap = d_keyMap dev, st_nextPeer = d_nextPeer dev,
      st_statics = (\<lambda>p. statics (handshake dev p)), st_routes = d_allowedips dev, st_mtu = d_mtu dev,
      st_junk = d_junk dev, st_headers = d_headers dev, st_paddings = d_paddings dev,
      st_ipackets = d_ipackets dev, st_headerKey = d_headerKey dev, st_addition = d_contentPaddingAddition dev,
      st_timings = d_timings dev\<rparr>"

named_theorems settles

lemma settled_plain [settles]:
  "settled (dev\<lparr>d_env := e\<rparr>) = settled dev"
  "settled (dev\<lparr>d_sent := out\<rparr>) = settled dev"
  "settled (dev\<lparr>d_written := wr\<rparr>) = settled dev"
  "settled (dev\<lparr>d_handshakeQueue := hq\<rparr>) = settled dev"
  "settled (dev\<lparr>d_limiter := lim\<rparr>) = settled dev"
  "settled (dev\<lparr>d_cookieChecker := ch\<rparr>) = settled dev"
  "settled (dev\<lparr>d_underLoadUntil := u\<rparr>) = settled dev"
  "settled (dev\<lparr>d_starved := b\<rparr>) = settled dev"
  "settled (dev\<lparr>d_indexTable := tab\<rparr>) = settled dev"
  "settled (panic dev) = settled dev"
  "settled (upd_keypair k g dev) = settled dev"
  "settled (dev\<lparr>d_nextKeypair := n, d_keypairs := ks\<rparr>) = settled dev"
  "settled (index_Delete i dev) = settled dev"
  by (simp_all add: settled_def panic_def index_Delete_def)

lemma settled_peer [settles]:
  assumes "statics (p_handshake (f (d_peers dev p))) = statics (handshake dev p)"
  shows "settled (upd_peer p f dev) = settled dev"
  using assms by (auto simp: settled_def fun_eq_iff)

lemma settled_handshake [settles]:
  "statics (f (handshake dev p)) = statics (handshake dev p) \<Longrightarrow> settled (upd_handshake p f dev) = settled dev"
  "settled (upd_keypairs p g dev) = settled dev"
  by (simp_all add: upd_handshake_def upd_keypairs_def settled_peer)

lemma settled_table [settles]:
  "settled (DeleteKeypair kp dev) = settled dev"
  "settled (SwapIndexForKeypair i k dev) = settled dev"
  "NewIndexForHandshake p dev = Some (j, dev') \<Longrightarrow> settled dev' = settled dev"
  by (auto simp: DeleteKeypair_def SwapIndexForKeypair_def NewIndexForHandshake_def settles split: option.splits)

lemma settled_draws [settles]:
  "settled (snd (rand_Read n dev)) = settled dev"
  "settled (snd (rand_word dev)) = settled dev"
  "settled (snd (pick_one r dev)) = settled dev"
  "d_peers (snd (rand_Read n dev)) = d_peers dev"
  "d_peers (snd (pick_one r dev)) = d_peers dev"
  by (auto simp: rand_Read_def rand_word_def pick_one_def split_beta settles split: list.splits)

lemma seal_statics:
  "statics (fst (initiation_seal C e pub ts h)) = statics h"
  "statics (fst (response_seal C e h)) = statics h"
  by (simp_all add: statics_def initiation_seal_def response_seal_def Let_def hs_mixHash_def hs_mixKey_def split_beta
      split: option.splits)

lemma settled_CreateMessageInitiation [settles]: "settled (fst (CreateMessageInitiation C p dev)) = settled dev"
proof -
  obtain b dev1 where d1: "rand_Read 32 dev = (b, dev1)" by force
  obtain w dev2 where d2: "pick_one (h_init (d_headers dev1)) dev1 = (w, dev2)" by force
  obtain h x where s: "initiation_seal C (clamp b) (d_publicKey dev2) (stamp (time_of (now dev2))) (handshake dev2 p) = (h, x)"
    by force
  have "settled dev2 = settled dev" using settled_draws(1) [of 32 dev] settled_draws(3) [of "h_init (d_headers dev1)" dev1] d1 d2
    by simp
  moreover have "statics h = statics (handshake dev2 p)" using seal_statics(1) s by (metis fst_conv)
  ultimately have 3: "settled (upd_handshake p (\<lambda>_. h) dev2) = settled dev" by (simp add: settles)
  show ?thesis
  proof (cases x)
    case (Inl e)
    then show ?thesis using 3 by (simp add: CreateMessageInitiation_def d1 d2 s)
  next
    case (Inr y)
    obtain e st ts where y: "y = (e, st, ts)" by (cases y)
    define D where "D = index_Delete (hs_localIndex h) (upd_handshake p (\<lambda>_. h) dev2)"
    have D: "settled D = settled dev" by (simp add: D_def settles 3)
    show ?thesis
    proof (cases "NewIndexForHandshake p D")
      case None
      then show ?thesis using D by (simp add: CreateMessageInitiation_def d1 d2 s Inr y settles flip: D_def)
    next
      case (Some z)
      obtain i dev4 where z: "z = (i, dev4)" by (cases z)
      then have "settled dev4 = settled dev" using settled_table(3) [of p D i dev4] Some D by simp
      then show ?thesis using Some z
        by (simp add: CreateMessageInitiation_def d1 d2 s Inr y settles hs_mixHash_def statics_def flip: D_def)
    qed
  qed
qed

lemma settled_CreateMessageResponse [settles]: "settled (fst (CreateMessageResponse C p dev)) = settled dev"
proof (cases "hs_state (handshake dev p) = handshakeInitiationConsumed")
  case True
  define D where "D = index_Delete (hs_localIndex (handshake dev p)) dev"
  have D: "settled D = settled dev" by (simp add: D_def settles)
  show ?thesis
  proof (cases "NewIndexForHandshake p D")
    case None
    then show ?thesis using True D by (simp add: CreateMessageResponse_def settles flip: D_def)
  next
    case (Some z)
    obtain i dev1 where z: "z = (i, dev1)" by (cases z)
    define dev2 where "dev2 = upd_handshake p (\<lambda>h. h\<lparr>hs_localIndex := i\<rparr>) dev1"
    have 2: "settled dev2 = settled dev"
      using settled_table(3) [of p D i dev1] Some D z by (simp add: dev2_def settles statics_def)
    obtain w dev3 where d3: "pick_one (h_response (d_headers dev2)) dev2 = (w, dev3)" by force
    obtain b dev4 where d4: "rand_Read 32 dev3 = (b, dev4)" by force
    obtain h x where s: "response_seal C (clamp b) (handshake dev4 p) = (h, x)" by force
    have "settled dev4 = settled dev"
      using settled_draws(1) [of 32 dev3] settled_draws(3) [of "h_response (d_headers dev2)" dev2] d3 d4 2 by simp
    moreover have "statics h = statics (handshake dev4 p)" using seal_statics(2) s by (metis fst_conv)
    ultimately have "settled (upd_handshake p (\<lambda>_. h) dev4) = settled dev" by (simp add: settles)
    then show ?thesis using True Some z
      by (auto simp: CreateMessageResponse_def d3 d4 s Let_def simp flip: D_def dev2_def split: sum.splits)
  qed
qed (simp add: CreateMessageResponse_def)

lemma settled_consume [settles]:
  "settled (fst (ConsumeMessageInitiation C im dev)) = settled dev"
  "settled (fst (ConsumeMessageResponse C rm dev)) = settled dev"
  by (auto simp: ConsumeMessageInitiation_def ConsumeMessageResponse_def Let_def statics_def settles split: option.splits)

lemma settled_rotate [settles]: "settled (rotate p kp isI dev) = settled dev"
  by (simp add: rotate_def Let_def settles)

lemma settled_sessions [settles]:
  "settled (fst (BeginSymmetricSession C p dev)) = settled dev"
  "settled (fst (ReceivedWithKeypair p k dev)) = settled dev"
  "settled (ZeroAndFlushAll p dev) = settled dev"
  by (auto simp: BeginSymmetricSession_def ReceivedWithKeypair_def ZeroAndFlushAll_def FlushStagedPackets_def Let_def
      statics_def Clear_def settles split: option.splits)

lemma settled_queues [settles]:
  "settled (fst (hand_out p k c dev)) = settled dev"
  by (auto simp: hand_out_def StagePackets_def Let_def split_beta settles)

interpretation traffic: traffic_invariant C "\<lambda>_. True" "\<lambda>dev. settled dev = s" for C s
proof unfold_locales
  show "settled dev = s \<Longrightarrow> quiet_peer (d_peers dev p) (f (d_peers dev p)) \<Longrightarrow> settled (upd_peer p f dev) = s" for dev p f
    by (simp add: quiet_peer_def settles)
qed (simp_all add: settles statics_def)

end
