(* ===== verification/Ownership.thy ===== *)
theory Ownership
  imports Frame RoutingTable
begin

text \<open>
  Invariants of the whole device. \<open>device_invariant\<close> extends the interface of the traffic by what the
  owner of a device does: bringing it up and down, closing it, and configuring it. \<open>device_step\<close> is one
  call of any handler, and a property of this kind is kept by every run of calls.
\<close>

subsection \<open>Facts on removing peers\<close>

lemma settledD:
  assumes "settled dev' = settled dev"
  shows "d_state dev' = d_state dev" "d_keyMap dev' = d_keyMap dev" "d_allowedips dev' = d_allowedips dev"
    "d_headers dev' = d_headers dev" "d_paddings dev' = d_paddings dev" "d_headerKey dev' = d_headerKey dev"
    "hs_remoteStatic (handshake dev' p) = hs_remoteStatic (handshake dev p)" "d_publicKey dev' = d_publicKey dev"
    "d_privateKey dev' = d_privateKey dev" "d_nextPeer dev' = d_nextPeer dev"
  using assms by (auto simp: settled_def statics_def fun_eq_iff)

lemma removePeerLocked_eq:
  "removePeerLocked (k, p) dev =
     (case RemoveByPeer (d_allowedips dev) p of
        None \<Rightarrow> panic dev
      | Some ips \<Rightarrow> (Stop p (dev\<lparr>d_allowedips := ips\<rparr>))\<lparr>d_keyMap := filter (\<lambda>e. fst e \<noteq> k) (d_keyMap dev)\<rparr>)"
  using settledD(2) [OF traffic.peer_ops(4) [OF refl], of p] by (simp add: removePeerLocked_def Let_def split: option.splits)

text \<open>The routing table is in order, so that removing the routes of a peer does not panic.\<close>

definition routes_ok :: "Device \<Rightarrow> bool" where
  "routes_ok dev \<longleftrightarrow> (\<exists>m. table_rel (d_allowedips dev) m)"

lemma RemoveByPeer_total:
  assumes "table_rel T m"
  obtains T' where "RemoveByPeer T p = Some T'" "table_rel T' (without_routes m p)"
  using remove_elems_spec [OF assms refl, of p] by (auto simp: RemoveByPeer_def)

lemma remove_frame:
  "set (d_keyMap (removePeerLocked kp dev)) \<subseteq> set (d_keyMap dev)"
  "hs_remoteStatic (handshake (removePeerLocked kp dev) p) = hs_remoteStatic (handshake dev p)"
  "d_state (removePeerLocked kp dev) = d_state dev"
  "d_headers (removePeerLocked kp dev) = d_headers dev" "d_paddings (removePeerLocked kp dev) = d_paddings dev"
  "d_headerKey (removePeerLocked kp dev) = d_headerKey dev" "d_publicKey (removePeerLocked kp dev) = d_publicKey dev"
  "d_nextPeer (removePeerLocked kp dev) = d_nextPeer dev"
proof -
  show "set (d_keyMap (removePeerLocked kp dev)) \<subseteq> set (d_keyMap dev)"
    by (cases kp; auto simp: removePeerLocked_eq panic_def split: option.splits)
  show "hs_remoteStatic (handshake (removePeerLocked kp dev) p) = hs_remoteStatic (handshake dev p)"
    "d_state (removePeerLocked kp dev) = d_state dev"
    "d_headers (removePeerLocked kp dev) = d_headers dev" "d_paddings (removePeerLocked kp dev) = d_paddings dev"
    "d_headerKey (removePeerLocked kp dev) = d_headerKey dev" "d_publicKey (removePeerLocked kp dev) = d_publicKey dev"
    "d_nextPeer (removePeerLocked kp dev) = d_nextPeer dev"
    using settledD [OF traffic.peer_ops(4) [OF refl]] by (cases kp; auto simp: removePeerLocked_eq panic_def split: option.splits)+
qed

lemma remove_routes:
  assumes "table_rel (d_allowedips dev) m"
  shows "table_rel (d_allowedips (removePeerLocked kp dev)) (without_routes m (snd kp))"
    "d_keyMap (removePeerLocked kp dev) = filter (\<lambda>e. fst e \<noteq> fst kp) (d_keyMap dev)"
proof -
  obtain T where T: "RemoveByPeer (d_allowedips dev) (snd kp) = Some T" "table_rel T (without_routes m (snd kp))"
    by (rule RemoveByPeer_total [OF assms])
  have "d_allowedips (Stop (snd kp) (dev\<lparr>d_allowedips := T\<rparr>)) = T"
    using settledD(3) [OF traffic.peer_ops(4) [OF refl]] by simp
  then show "table_rel (d_allowedips (removePeerLocked kp dev)) (without_routes m (snd kp))"
    "d_keyMap (removePeerLocked kp dev) = filter (\<lambda>e. fst e \<noteq> fst kp) (d_keyMap dev)"
    using T by (cases kp; simp add: removePeerLocked_eq)+
qed

lemma remove_routes_ok: "routes_ok dev \<Longrightarrow> routes_ok (removePeerLocked kp dev)"
  using remove_routes(1) [of dev _ kp] by (auto simp: routes_ok_def)

text \<open>Removing one peer after the other.\<close>

lemma remove_all_keyMap:
  "routes_ok dev \<Longrightarrow> d_keyMap (fold removePeerLocked xs dev) = filter (\<lambda>e. fst e \<notin> fst ` set xs) (d_keyMap dev)"
proof (induction xs arbitrary: dev)
  case (Cons x xs)
  have "d_keyMap (removePeerLocked x dev) = filter (\<lambda>e. fst e \<noteq> fst x) (d_keyMap dev)"
    using Cons.prems remove_routes(2) [of dev _ x] by (auto simp: routes_ok_def)
  then show ?case using Cons.IH [OF remove_routes_ok [OF Cons.prems]] by simp
qed simp

text \<open>The loop of \<open>SetPrivateKey\<close> over the peers with the key \<open>pk\<close>.\<close>

definition remove_own :: "bytes \<Rightarrow> bytes \<times> nat \<Rightarrow> Device \<Rightarrow> Device" where
  "remove_own pk kp dev =
     (if key_Equals (hs_remoteStatic (handshake dev (snd kp))) pk then removePeerLocked kp dev else dev)"

lemma remove_own_frame:
  "hs_remoteStatic (handshake (fold (remove_own pk) xs dev) p) = hs_remoteStatic (handshake dev p)"
  "set (d_keyMap (fold (remove_own pk) xs dev)) \<subseteq> set (d_keyMap dev)"
proof -
  show "hs_remoteStatic (handshake (fold (remove_own pk) xs dev) p) = hs_remoteStatic (handshake dev p)"
    by (induction xs arbitrary: dev) (simp_all add: remove_own_def remove_frame)
  show "set (d_keyMap (fold (remove_own pk) xs dev)) \<subseteq> set (d_keyMap dev)"
  proof (induction xs arbitrary: dev)
    case (Cons x xs)
    have "set (d_keyMap (remove_own pk x dev)) \<subseteq> set (d_keyMap dev)"
      using remove_frame(1) [of x dev] by (simp add: remove_own_def)
    then show ?case using Cons.IH [of "remove_own pk x dev"] by auto
  qed simp
qed

lemma own_removed:
  "routes_ok dev \<Longrightarrow> e \<in> set xs \<Longrightarrow> hs_remoteStatic (handshake dev (snd e)) = pk \<Longrightarrow>
     e \<notin> set (d_keyMap (fold (remove_own pk) xs dev))"
proof (induction xs arbitrary: dev)
  case (Cons x xs)
  define D where "D = remove_own pk x dev"
  have keep: "hs_remoteStatic (handshake D p) = hs_remoteStatic (handshake dev p)" for p
    by (simp add: D_def remove_own_def remove_frame)
  have "e = x \<Longrightarrow> e \<notin> set (d_keyMap D)"
    using Cons.prems remove_routes(2) [of dev _ x] by (auto simp: D_def remove_own_def key_Equals_def routes_ok_def)
  moreover have "routes_ok D" using Cons.prems(1) by (simp add: D_def remove_own_def remove_routes_ok)
  ultimately show ?case
    using Cons.IH [of D] Cons.prems remove_own_frame(2) [of pk xs D] unfolding fold_simps(2) D_def [symmetric] by (auto simp: keep)
qed simp

subsection \<open>Invariants of the device\<close>

text \<open>The parameters that a set operation collects, and what every invariant knows of a device.\<close>

definition paddings_of :: "Paddings \<Rightarrow> u32 list" where
  "paddings_of s = [s_init s, s_response s, s_cookie s, s_transport s]"

definition headers_of :: "Headers \<Rightarrow> UintRange list" where
  "headers_of h = [h_init h, h_response h, h_cookie h, h_transport h]"

definition setting_ok :: "ipcSetDevice \<Rightarrow> bool" where
  "setting_ok sd \<longleftrightarrow>
     list_all (\<lambda>s. unat s < 2 ^ 16) (paddings_of (sd_paddings sd)) \<and>
     list_all range_ok (headers_of (sd_headers sd)) \<and> length (sd_headerProtectionKey sd) = 32"

definition base_ok :: "Device \<Rightarrow> bool" where
  "base_ok dev \<longleftrightarrow> distinct (map fst (d_keyMap dev)) \<and> setting_ok (fromDevice dev) \<and> routes_ok dev"

definition known :: "Device \<Rightarrow> nat \<Rightarrow> bool" where
  "known dev p \<longleftrightarrow> p \<in> snd ` set (d_keyMap dev)"

locale owner_invariant = traffic_invariant +
  assumes base: "Q dev \<Longrightarrow> base_ok dev"
    and world: "Q dev \<Longrightarrow> Q (dev\<lparr>d_env := e\<rparr>)"
    and bind_open: "Q dev \<Longrightarrow> Q (dev\<lparr>d_bindOpen := b\<rparr>)"
    and port: "Q dev \<Longrightarrow> Q (dev\<lparr>d_port := n\<rparr>)"
    and fwmark: "Q dev \<Longrightarrow> Q (dev\<lparr>d_fwmark := fw\<rparr>)"
    and mtu: "Q dev \<Longrightarrow> Q (dev\<lparr>d_mtu := z\<rparr>)"
    and state: "Q dev \<Longrightarrow> \<not> isClosed dev \<Longrightarrow> Q (dev\<lparr>d_state := s\<rparr>)"
    and removed: "Q dev \<Longrightarrow> (\<And>p'. (fst kp, p') \<in> set (d_keyMap dev) \<Longrightarrow> p' = snd kp) \<Longrightarrow> Q (removePeerLocked kp dev)"
    and identity: "Q dev \<Longrightarrow> \<forall>e \<in> set (d_keyMap dev). hs_remoteStatic (handshake dev (snd e)) \<noteq> publicKey C sk \<Longrightarrow>
           Q (dev\<lparr>d_privateKey := sk, d_publicKey := publicKey C sk, d_cookieChecker := ch\<rparr>)"
    and precomputed: "Q dev \<Longrightarrow> Q (upd_handshake p (\<lambda>h. h\<lparr>hs_precomputedStaticStatic := g h\<rparr>) dev)"
    and preshared: "Q dev \<Longrightarrow> Q (upd_handshake p (\<lambda>h. h\<lparr>hs_presharedKey := psk\<rparr>) dev)"
    and keys_expired: "Q dev \<Longrightarrow> Q (ExpireCurrentKeypairs p dev)"
    and route_added: "Q dev \<Longrightarrow> known dev p \<Longrightarrow> prefix_ok pfx \<Longrightarrow> Insert (d_allowedips dev) pfx p = Some ips \<Longrightarrow>
           Q (dev\<lparr>d_allowedips := ips\<rparr>)"
    and route_removed: "Q dev \<Longrightarrow> prefix_ok pfx \<Longrightarrow> Remove (d_allowedips dev) pfx p = Some ips \<Longrightarrow>
           Q (dev\<lparr>d_allowedips := ips\<rparr>)"
    and routes_removed: "Q dev \<Longrightarrow> RemoveByPeer (d_allowedips dev) p = Some ips \<Longrightarrow> Q (dev\<lparr>d_allowedips := ips\<rparr>)"
    and junk: "Q dev \<Longrightarrow> Q (dev\<lparr>d_junk := j\<rparr>)"
    and chains: "Q dev \<Longrightarrow> newObfChain v = Inr c \<Longrightarrow> Q (dev\<lparr>d_ipackets := (d_ipackets dev)[i := c]\<rparr>)"
    and addition: "Q dev \<Longrightarrow> Q (dev\<lparr>d_contentPaddingAddition := r\<rparr>)"
    and timings: "Q dev \<Longrightarrow> Q (dev\<lparr>d_timings := ts\<rparr>)"
    and merged: "Q dev \<Longrightarrow> setting_ok sd \<Longrightarrow> Q (fst (mergeWithDevice sd dev))"
begin

lemmas [keeps] = bind_open port fwmark mtu precomputed preshared keys_expired junk addition timings

subsubsection \<open>The bind\<close>

lemma bind_calls [keeps]:
  "Q dev \<Longrightarrow> Q (fst (bind_Close dev))"
  "Q dev \<Longrightarrow> Q (fst (bind_Open n dev))"
  "Q dev \<Longrightarrow> Q (fst (bind_SetMark fw dev))"
  "Q dev \<Longrightarrow> Q (fst (startRouteListener dev))"
  by (auto simp: bind_Close_def bind_Open_def bind_SetMark_def startRouteListener_def Let_def quiet_env_def
      intro: bind_open env split: list.splits)

lemma bind_ops [keeps]:
  "Q dev \<Longrightarrow> Q (fst (closeBindLocked dev))"
  "Q dev \<Longrightarrow> Q (fst (BindClose dev))"
  "Q dev \<Longrightarrow> Q (mark_all_for_clearing dev)"
  unfolding closeBindLocked_def BindClose_def mark_all_for_clearing_def comp_def
  by (assumption | rule keeps shapes)+

lemma BindSetMark_keeps [keeps]: "Q dev \<Longrightarrow> Q (fst (BindSetMark fw dev))"
  unfolding BindSetMark_def by (assumption | rule keeps shapes)+

lemma BindUpdate_keeps [keeps]: "Q dev \<Longrightarrow> Q (fst (BindUpdate dev))"
  unfolding BindUpdate_def by (assumption | rule keeps shapes)+

end

text \<open>The bind, and the peers that are started, leave the state alone.\<close>

lemma mark_all_settled: "settled (mark_all_for_clearing dev) = settled dev"
  unfolding mark_all_for_clearing_def comp_def by (rule traffic.shape_fold) (simp_all add: traffic.peer_ops)

lemma bind_state:
  "d_state (fst (bind_Close dev)) = d_state dev" "d_state (fst (bind_Open n dev)) = d_state dev"
  "d_state (fst (bind_SetMark fw dev)) = d_state dev" "d_state (fst (startRouteListener dev)) = d_state dev"
  "d_state (mark_all_for_clearing dev) = d_state dev"
  using settledD(1) [OF mark_all_settled]
  by (simp_all add: bind_Close_def bind_Open_def bind_SetMark_def startRouteListener_def Let_def split: list.splits)

lemma BindUpdate_state: "d_state (fst (BindUpdate dev)) = d_state dev"
  by (simp add: BindUpdate_def closeBindLocked_def Let_def split_beta bind_state split: option.splits)

lemma upLocked_state: "d_state (fst (upLocked C dev)) = d_state dev"
proof -
  define D where "D = fst (BindUpdate dev)"
  define f where "f = (\<lambda>kp :: bytes \<times> nat. \<lambda>dev. let dev = Start (snd kp) dev
            in if \<not> range_IsZero (p_persistentKeepaliveInterval (d_peers dev (snd kp)))
               then SendKeepalive C (snd kp) dev else dev)"
  have "settled (fold f (d_keyMap D) D) = settled D"
    by (rule traffic.shape_fold) (simp_all add: f_def Let_def traffic.peer_ops traffic.SendKeepalive_keeps)
  then have "d_state (fold f (d_keyMap D) D) = d_state D" by (rule settledD)
  then show ?thesis
    using BindUpdate_state [of dev] by (auto simp: upLocked_def split_beta Let_def D_def f_def)
qed

context owner_invariant
begin

subsubsection \<open>Peers and keys\<close>

lemma same_key_same_peer: "Q dev \<Longrightarrow> (k, p) \<in> set (d_keyMap dev) \<Longrightarrow> (k, p') \<in> set (d_keyMap dev) \<Longrightarrow> p' = p"
  using base by (fastforce simp: base_ok_def intro: eq_key_imp_eq_value)

lemma remove_loop:
  assumes "Q dev" "\<And>x d. f x d = removePeerLocked x d \<or> f x d = d"
    and "set (d_keyMap dev) \<subseteq> S" "set xs \<subseteq> S"
    and "\<And>k p p'. (k, p) \<in> S \<Longrightarrow> (k, p') \<in> S \<Longrightarrow> p' = p"
  shows "Q (fold f xs dev)"
  using assms(1,3,4)
proof (induction xs arbitrary: dev)
  case (Cons x xs)
  have "Q (removePeerLocked x dev)"
  proof (rule removed [OF Cons.prems(1)])
    fix p' assume "(fst x, p') \<in> set (d_keyMap dev)"
    then have "(fst x, p') \<in> S" "(fst x, snd x) \<in> S" using Cons.prems(2,3) by auto
    then show "p' = snd x" using assms(5) by blast
  qed
  moreover have "set (d_keyMap (removePeerLocked x dev)) \<subseteq> S" using remove_frame(1) [of x dev] Cons.prems(2) by auto
  ultimately show ?case using Cons assms(2) [of x dev] by auto
qed simp

lemma remove_loop_all:
  assumes "Q dev" "\<And>x d. f x d = removePeerLocked x d \<or> f x d = d"
  shows "Q (fold f (d_keyMap dev) dev)"
  using same_key_same_peer [OF assms(1)] by (intro remove_loop [OF assms, of "set (d_keyMap dev)"]) auto

lemma RemovePeer_keeps [keeps]: "Q dev \<Longrightarrow> Q (RemovePeer k dev)"
  unfolding RemovePeer_def LookupPeer_def
  by (rule shapes removed | assumption)+ (auto dest: map_of_SomeD same_key_same_peer)

lemma RemoveAllPeers_keeps [keeps]:
  assumes "Q dev"
  shows "Q (RemoveAllPeers dev)"
proof -
  have "Q (fold removePeerLocked (d_keyMap dev) dev)" by (rule remove_loop_all [OF assms]) simp
  moreover have "d_keyMap (fold removePeerLocked (d_keyMap dev) dev) = []"
    using base [OF assms] remove_all_keyMap [of dev "d_keyMap dev"] by (simp add: base_ok_def filter_empty_conv)
  then have "RemoveAllPeers dev = fold removePeerLocked (d_keyMap dev) dev" by (simp add: RemoveAllPeers_def)
  ultimately show ?thesis by simp
qed

lemma SetPrivateKey_keeps [keeps]:
  assumes "Q dev"
  shows "Q (SetPrivateKey C sk dev)"
proof (cases "key_Equals sk (d_privateKey dev)")
  case False
  define D where "D = fold (remove_own (publicKey C sk)) (d_keyMap dev) dev"
  have D: "Q D" unfolding D_def by (rule remove_loop_all [OF assms]) (simp add: remove_own_def)
  have "\<forall>e \<in> set (d_keyMap D). hs_remoteStatic (handshake D (snd e)) \<noteq> publicKey C sk"
    using own_removed [of dev _ "d_keyMap dev" "publicKey C sk"] remove_own_frame [of "publicKey C sk" "d_keyMap dev" dev]
      base [OF assms] unfolding D_def base_ok_def by auto
  note E = identity [OF D this]
  define E where "E = D\<lparr>d_privateKey := sk, d_publicKey := publicKey C sk,
    d_cookieChecker := checker_Init C (d_cookieChecker D) (publicKey C sk)\<rparr>"
  have "Q E" unfolding E_def by (rule E)
  define F where "F = fold (\<lambda>kp. upd_handshake (snd kp) (\<lambda>h. h\<lparr>hs_precomputedStaticStatic :=
                  scalar_mult C sk (hs_remoteStatic h)\<rparr>)) (d_keyMap E) E"
  have "Q F" unfolding F_def using \<open>Q E\<close> by (intro shape_fold) (auto intro: precomputed)
  have "SetPrivateKey C sk dev = fold (ExpireCurrentKeypairs \<circ> snd) (d_keyMap F) F"
    using False by (simp add: SetPrivateKey_def Let_def D_def E_def F_def remove_own_def [abs_def])
  then show ?thesis using \<open>Q F\<close> shape_fold [of _ "ExpireCurrentKeypairs \<circ> snd" F] keys_expired by simp
qed (simp add: SetPrivateKey_def assms)

subsubsection \<open>Up, down and closed\<close>

lemma upLocked_keeps [keeps]: "Q dev \<Longrightarrow> Q (fst (upLocked C dev))"
  unfolding upLocked_def by (assumption | rule keeps shapes | erule (1) member)+

lemma downLocked_keeps [keeps]: "Q dev \<Longrightarrow> Q (fst (downLocked dev))"
  unfolding downLocked_def comp_def by (assumption | rule keeps shapes)+

lemma changeState_keeps [keeps]:
  assumes "Q dev"
  shows "Q (fst (changeState C want dev))"
proof (cases "d_state dev = deviceStateClosed \<or> want = d_state dev")
  case False
  define U where "U = fst (upLocked C (dev\<lparr>d_state := deviceStateUp\<rparr>))"
  have nc: "\<not> isClosed dev" using False by (simp add: isClosed_def)
  have U: "Q U" unfolding U_def by (intro upLocked_keeps state assms nc)
  have "\<not> isClosed U" using upLocked_state [of C "dev\<lparr>d_state := deviceStateUp\<rparr>"] by (simp add: isClosed_def U_def)
  then have "Q (fst (downLocked (U\<lparr>d_state := deviceStateDown\<rparr>)))" by (intro downLocked_keeps state U)
  moreover have "Q (fst (downLocked (dev\<lparr>d_state := deviceStateDown\<rparr>)))" by (intro downLocked_keeps state assms nc)
  ultimately show ?thesis
    using False U assms by (auto simp: changeState_def Let_def split_beta U_def)
qed (auto simp: changeState_def Let_def assms)

lemma Up_Down_keep [keeps]:
  "Q dev \<Longrightarrow> Q (fst (Up C dev))" "Q dev \<Longrightarrow> Q (fst (Down C dev))"
  by (simp_all add: Up_def Down_def changeState_keeps)

lemma device_Close_keeps [keeps]: "Q dev \<Longrightarrow> Q (device_Close dev)"
  unfolding device_Close_def by (assumption | rule keeps shapes state)+

lemma SendKeepalivesToPeersWithCurrentKeypair_keeps [keeps]:
  "Q dev \<Longrightarrow> Q (SendKeepalivesToPeersWithCurrentKeypair C dev)"
  unfolding SendKeepalivesToPeersWithCurrentKeypair_def
  by (assumption | rule keeps shapes | erule (1) owner | rule shapes_value)+

lemma RoutineTUNEventReader_keeps [keeps]:
  assumes "Q dev"
  shows "Q (RoutineTUNEventReader C ev m dev)"
proof -
  have "Q d" if "update_mtu m dev = Some d" for d
    using that assms by (auto simp: update_mtu_def intro: mtu split: option.splits if_splits)
  then have "Q d" if "(if EventMTUUpdate ev then update_mtu m dev else Some dev) = Some d" for d
    using that assms by (auto split: if_splits)
  then show ?thesis
    using assms by (auto simp: RoutineTUNEventReader_def Let_def keeps split: option.splits)
qed

end

subsection \<open>The configuration protocol\<close>

lemma ParsePrefix_ok: "ParsePrefix s = Some pfx \<Longrightarrow> prefix_ok pfx"
  by (auto simp: ParsePrefix_def Is6_def dest!: ParseAddr_ok split: bind_splits if_splits sum.splits addr.splits)

lemma setting_ok_fields [simp]:
  "setting_ok sd \<Longrightarrow> range_ok r \<Longrightarrow> setting_ok (sd\<lparr>sd_headers := (sd_headers sd)\<lparr>h_init := r\<rparr>\<rparr>)"
  "setting_ok sd \<Longrightarrow> range_ok r \<Longrightarrow> setting_ok (sd\<lparr>sd_headers := (sd_headers sd)\<lparr>h_response := r\<rparr>\<rparr>)"
  "setting_ok sd \<Longrightarrow> range_ok r \<Longrightarrow> setting_ok (sd\<lparr>sd_headers := (sd_headers sd)\<lparr>h_cookie := r\<rparr>\<rparr>)"
  "setting_ok sd \<Longrightarrow> range_ok r \<Longrightarrow> setting_ok (sd\<lparr>sd_headers := (sd_headers sd)\<lparr>h_transport := r\<rparr>\<rparr>)"
  "setting_ok sd \<Longrightarrow> unat s < 65536 \<Longrightarrow> setting_ok (sd\<lparr>sd_paddings := (sd_paddings sd)\<lparr>s_init := s\<rparr>\<rparr>)"
  "setting_ok sd \<Longrightarrow> unat s < 65536 \<Longrightarrow> setting_ok (sd\<lparr>sd_paddings := (sd_paddings sd)\<lparr>s_response := s\<rparr>\<rparr>)"
  "setting_ok sd \<Longrightarrow> unat s < 65536 \<Longrightarrow> setting_ok (sd\<lparr>sd_paddings := (sd_paddings sd)\<lparr>s_cookie := s\<rparr>\<rparr>)"
  "setting_ok sd \<Longrightarrow> unat s < 65536 \<Longrightarrow> setting_ok (sd\<lparr>sd_paddings := (sd_paddings sd)\<lparr>s_transport := s\<rparr>\<rparr>)"
  "setting_ok sd \<Longrightarrow> length hk = 32 \<Longrightarrow> setting_ok (sd\<lparr>sd_headerProtectionKey := hk\<rparr>)"
  by (simp_all add: setting_ok_def paddings_of_def headers_of_def)

lemma padding_parsed: "ParseUint v 16 = Inr n \<Longrightarrow> unat (of_nat n :: u32) < 65536"
  using ParseUint_bound [of v 16 n] by (simp add: unat_of_nat take_bit_nat_eq_self)

lemma parsed_setting:
  assumes "setting_ok sd"
  shows "handle_padding_line k v sd dev = Some r \<Longrightarrow> fst r = dev \<and> setting_ok (fst (snd r))"
    "handle_header_line k v sd dev = Some r \<Longrightarrow> fst r = dev \<and> setting_ok (fst (snd r))"
  using assms
  by (auto simp: handle_padding_line_def handle_header_line_def Let_def padding_parsed FromString_ok
      split: if_splits sum.splits)

context owner_invariant
begin

lemma device_lines:
  assumes "Q dev" "setting_ok sd"
  shows "handle_net_line C k v sd dev = Some r \<Longrightarrow> Q (fst r) \<and> setting_ok (fst (snd r))"
    "handle_junk_line k v sd dev = Some r \<Longrightarrow> Q (fst r) \<and> setting_ok (fst (snd r))"
    "handle_ipacket_line k v sd dev = Some r \<Longrightarrow> Q (fst r) \<and> setting_ok (fst (snd r))"
    "handle_protection_line k v sd dev = Some r \<Longrightarrow> Q (fst r) \<and> setting_ok (fst (snd r))"
    "handle_timing_line k v sd dev = Some r \<Longrightarrow> Q (fst r) \<and> setting_ok (fst (snd r))"
proof -
  have "Q (fst (BindUpdate (dev\<lparr>d_port := n\<rparr>)))" for n by (intro keeps assms)
  moreover have "Q (fst (BindSetMark n dev))" for n by (intro keeps assms)
  ultimately show "handle_net_line C k v sd dev = Some r \<Longrightarrow> Q (fst r) \<and> setting_ok (fst (snd r))"
    using assms by (auto simp: handle_net_line_def Let_def split_beta keeps split: if_splits sum.splits)
  show "handle_junk_line k v sd dev = Some r \<Longrightarrow> Q (fst r) \<and> setting_ok (fst (snd r))"
    "handle_timing_line k v sd dev = Some r \<Longrightarrow> Q (fst r) \<and> setting_ok (fst (snd r))"
    using assms by (auto simp: handle_junk_line_def handle_timing_line_def Let_def keeps split: if_splits sum.splits)
  show "handle_ipacket_line k v sd dev = Some r \<Longrightarrow> Q (fst r) \<and> setting_ok (fst (snd r))"
    using assms by (auto simp: handle_ipacket_line_def Let_def intro: chains split: if_splits sum.splits)
  show "handle_protection_line k v sd dev = Some r \<Longrightarrow> Q (fst r) \<and> setting_ok (fst (snd r))"
    using assms by (auto simp: handle_protection_line_def header_FromHex_def Let_def split_beta keeps split: if_splits sum.splits)
qed

lemma handleDeviceLine_keeps:
  assumes "Q dev" "setting_ok sd"
  shows "Q (fst (handleDeviceLine C sd k v dev)) \<and> setting_ok (fst (snd (handleDeviceLine C sd k v dev)))"
  using assms device_lines [OF assms, of k v] parsed_setting [OF assms(2), of k v dev]
  by (auto simp: handleDeviceLine_def split: option.splits)

end

text \<open>The peer that the lines configure is one that the device knows.\<close>

definition selected_ok :: "ipcSetPeer \<Rightarrow> Device \<Rightarrow> bool" where
  "selected_ok sp dev \<longleftrightarrow> (\<forall>p. sp_Peer sp = Some p \<longrightarrow> known dev p)"

lemma selected_ok_None [simp]: "sp_Peer sp = None \<Longrightarrow> selected_ok sp dev"
  by (simp add: selected_ok_def)

lemma selected_ok_same: "d_keyMap dev' = d_keyMap dev \<Longrightarrow> sp_Peer sp' = sp_Peer sp \<Longrightarrow> selected_ok sp dev \<Longrightarrow> selected_ok sp' dev'"
  by (simp add: selected_ok_def known_def)

lemma handlePostConfig_settled: "settled (handlePostConfig C sp dev) = settled dev"
proof -
  have "settled (upd_peer p (\<lambda>peer. peer\<lparr>p_disableRoaming := b peer\<rparr>) dev) = settled dev" for p b dev
    by (simp add: settles)
  then show ?thesis
    by (auto simp: handlePostConfig_def Let_def traffic.peer_ops traffic.sending traffic.SendKeepalive_keeps split: option.splits)
qed

lemma keyMap_fields [simp]:
  "d_keyMap (on_peer sp f dev) = d_keyMap dev" "d_keyMap (change_routes r dev) = d_keyMap dev"
  by (simp_all add: on_peer_def change_routes_def panic_def split: option.splits)

lemma peer_lines_selected:
  assumes "selected_ok sp dev"
  shows "handle_membership_line sp k v dev = Some (dev', sp', e) \<Longrightarrow> selected_ok sp' dev'"
    "handle_settings_line sp k v dev = Some (dev', sp', e) \<Longrightarrow> selected_ok sp' dev'"
    "handle_routes_line sp k v dev = Some (dev', sp', e) \<Longrightarrow> selected_ok sp' dev'"
  using assms
  by (auto simp: handle_membership_line_def handle_settings_line_def handle_routes_line_def to_dummy_def Let_def
      intro: selected_ok_same [OF _ _ assms] split: if_splits option.splits sum.splits prod.splits)

lemma handlePublicKeyLine_selected:
  "handlePublicKeyLine C sp v dev = (dev', sp', e) \<Longrightarrow> selected_ok sp dev \<Longrightarrow> selected_ok sp' dev'"
  by (auto simp: handlePublicKeyLine_def NewPeer_def LookupPeer_def selected_ok_def known_def Let_def image_iff
      dest!: map_of_SomeD split: if_splits option.splits prod.splits sum.splits) force

context owner_invariant
begin

lemma handlePostConfig_keeps:
  assumes "Q dev" "selected_ok sp dev"
  shows "Q (handlePostConfig C sp dev)"
proof -
  have "Q (upd_peer p (\<lambda>peer. peer\<lparr>p_disableRoaming := b peer\<rparr>) dev)" for p b
    using assms(1) by (simp add: quiet quiet_peer_def)
  moreover have "G p" if "sp_Peer sp = Some p" for p
    using that assms member by (auto simp: selected_ok_def known_def)
  ultimately show ?thesis
    using assms(1) by (auto simp: handlePostConfig_def Let_def keeps split: option.splits)
qed

lemma on_peer_keeps:
  "Q dev \<Longrightarrow> Q (on_peer sp (\<lambda>peer. peer\<lparr>p_handshake := (p_handshake peer)\<lparr>hs_presharedKey := psk\<rparr>\<rparr>) dev)"
  "Q dev \<Longrightarrow> Q (on_peer sp (\<lambda>peer. peer\<lparr>p_endpoint := ep\<rparr>) dev)"
  "Q dev \<Longrightarrow> Q (on_peer sp (\<lambda>peer. peer\<lparr>p_persistentKeepaliveInterval := r\<rparr>) dev)"
  using preshared by (auto simp: on_peer_def quiet quiet_peer_def upd_handshake_def split: option.splits)

lemma peer_lines:
  assumes "Q dev" "selected_ok sp dev"
  shows "handle_membership_line sp k v dev = Some r \<Longrightarrow> Q (fst r)"
    "handle_settings_line sp k v dev = Some r \<Longrightarrow> Q (fst r)"
    "handle_routes_line sp k v dev = Some r \<Longrightarrow> Q (fst r)"
proof -
  show "handle_membership_line sp k v dev = Some r \<Longrightarrow> Q (fst r)"
    using assms by (auto simp: handle_membership_line_def remove_selected_def keeps split: if_splits option.splits)
  show "handle_settings_line sp k v dev = Some r \<Longrightarrow> Q (fst r)"
    using assms by (auto simp: handle_settings_line_def Let_def on_peer_keeps split: if_splits option.splits sum.splits prod.splits)
  have "Q (change_routes (RemoveByPeer (d_allowedips dev) p) dev)" for p
    using assms by (auto simp: change_routes_def intro: routes_removed panicked split: option.splits)
  moreover have "Q (change_routes (Insert (d_allowedips dev) pfx p) dev)" if "known dev p" "prefix_ok pfx" for p pfx
    using assms that by (auto simp: change_routes_def simp del: prefix_ok.simps intro: route_added panicked split: option.splits)
  moreover have "Q (change_routes (Remove (d_allowedips dev) pfx p) dev)" if "prefix_ok pfx" for p pfx
    using assms that by (auto simp: change_routes_def simp del: prefix_ok.simps intro: route_removed panicked split: option.splits)
  ultimately show "handle_routes_line sp k v dev = Some r \<Longrightarrow> Q (fst r)"
    using assms by (auto simp: handle_routes_line_def Let_def selected_ok_def simp del: prefix_ok.simps
        dest: ParsePrefix_ok split: if_splits option.splits)
qed

lemma handlePeerLine_keeps:
  assumes "Q dev" "selected_ok sp dev"
  shows "Q (fst (handlePeerLine sp k v dev))"
  using assms peer_lines [OF assms, of k v] by (auto simp: handlePeerLine_def split: option.splits)

end

lemma handlePeerLine_selected:
  assumes "handlePeerLine sp k v dev = (dev', sp', e)" "selected_ok sp dev"
  shows "selected_ok sp' dev'"
  using assms(1) peer_lines_selected [OF assms(2), of k v] assms(2) by (auto simp: handlePeerLine_def split: option.splits)

text \<open>What the set operation collects survives to its end, where the last peer is started.\<close>

lemma merge_keyMap: "d_keyMap (fst (mergeWithDevice sd dev)) = d_keyMap dev"
  by (simp add: mergeWithDevice_def Let_def)

lemma selected_merged: "selected_ok sp (fst (mergeWithDevice sd dev)) = selected_ok sp dev"
  by (simp add: selected_ok_def known_def merge_keyMap)

context owner_invariant
begin

lemma finish_set_keeps: "Q dev \<Longrightarrow> setting_ok sd \<Longrightarrow> selected_ok sp dev \<Longrightarrow> Q (fst (finish_set C sd sp dev))"
  using merged [of dev sd] handlePostConfig_keeps [of "fst (mergeWithDevice sd dev)" sp] selected_merged [of sp sd dev]
  by (auto simp: finish_set_def split: prod.splits bool.splits)

end

text \<open>
  A handler other than \<open>NewPeer\<close> creates no peer. An invariant may depend on the number of the peers
  there have been, by which \<open>G\<close> tells a peer from a number that is not one yet.
\<close>

locale device_invariant =
  fixes C :: Crypto and G :: "nat \<Rightarrow> nat \<Rightarrow> bool" and Q :: "Device \<Rightarrow> bool"
  assumes owned: "owner_invariant C (G n) (\<lambda>dev. Q dev \<and> d_nextPeer dev = n)"
    and new_peer: "Q dev \<Longrightarrow> pk \<noteq> d_publicKey dev \<Longrightarrow> length pk = 32 \<Longrightarrow> Q (fst (NewPeer C pk dev))"
    and created: "p < n \<Longrightarrow> G n p"

sublocale device_invariant \<subseteq> numbered: owner_invariant C "G n" "\<lambda>dev. Q dev \<and> d_nextPeer dev = n" for n
  by (rule owned)

context device_invariant
begin

lemma handlePublicKeyLine_keeps:
  assumes "Q dev"
  shows "Q (fst (handlePublicKeyLine C sp v dev))"
proof -
  have "length (fst (public_FromHex (replicate 32 0) v)) = 32" by (simp add: public_FromHex_def)
  then have "Q (fst (NewPeer C (fst (public_FromHex (replicate 32 0) v)) dev))"
    if "fst (public_FromHex (replicate 32 0) v) \<noteq> d_publicKey dev"
    using that by (intro new_peer [OF assms])
  then show ?thesis
    using assms by (auto simp: handlePublicKeyLine_def Let_def split_beta key_Equals_def split: option.splits sum.splits)
qed


lemma finish_keeps: "Q dev \<Longrightarrow> setting_ok sd \<Longrightarrow> selected_ok sp dev \<Longrightarrow> Q (fst (finish_set C sd sp dev))"
  using numbered.finish_set_keeps [of dev "d_nextPeer dev"] by simp

lemma post_keeps: "Q dev \<Longrightarrow> selected_ok sp dev \<Longrightarrow> Q (handlePostConfig C sp dev)"
  using numbered.handlePostConfig_keeps [of dev "d_nextPeer dev"] by simp

lemma device_line_keeps:
  "Q dev \<Longrightarrow> setting_ok sd \<Longrightarrow>
     Q (fst (handleDeviceLine C sd k v dev)) \<and> setting_ok (fst (snd (handleDeviceLine C sd k v dev)))"
  using numbered.handleDeviceLine_keeps [of dev "d_nextPeer dev"] by simp

lemma peer_line_keeps: "Q dev \<Longrightarrow> selected_ok sp dev \<Longrightarrow> Q (fst (handlePeerLine sp k v dev))"
  using numbered.handlePeerLine_keeps [of dev "d_nextPeer dev"] by simp

lemma set_loop_keeps:
  "Q dev \<Longrightarrow> setting_ok sd \<Longrightarrow> selected_ok sp dev \<Longrightarrow> (isDev \<Longrightarrow> sp_Peer sp = None) \<Longrightarrow>
     Q (fst (set_loop C tooLong ls isDev sd sp dev))"
proof (induction ls arbitrary: isDev sd sp dev)
  case Nil
  then show ?case using finish_keeps [OF Nil(1-3)] by (auto split: prod.splits option.splits)
next
  case (Cons l ls)
  show ?case
  proof (cases "cut_at (CHR ''='') l")
    case None
    then show ?thesis using Cons.prems finish_keeps [OF Cons.prems(1-3)] by simp
  next
    case (Some kv)
    obtain k v where kv: "kv = (k, v)" by (cases kv)
    define P where "P = handlePostConfig C sp dev"
    have P: "Q P" "selected_ok sp P"
      using Cons.prems post_keeps settledD(2) [OF handlePostConfig_settled] unfolding P_def
      by (auto intro: selected_ok_same)
    show ?thesis
      using Some kv Cons.prems Cons.IH finish_keeps [OF Cons.prems(1-3)]
        handlePublicKeyLine_keeps [OF P(1), of sp v] handlePublicKeyLine_selected [of C sp v P, OF _ P(2)]
        device_line_keeps [OF Cons.prems(1,2), of k v] peer_line_keeps [OF Cons.prems(1,3), of k v]
        handlePeerLine_selected [of sp k v dev, OF _ Cons.prems(3)]
      by (auto simp flip: P_def split: prod.splits option.splits)
  qed
qed

end

context device_invariant
begin

lemma IpcSet_keeps: "Q dev \<Longrightarrow> Q (fst (IpcSetOperation C s dev))" "Q dev \<Longrightarrow> Q (fst (IpcSet C s dev))"
  using numbered.base by (auto simp: IpcSet_def IpcSetOperation_def split_beta base_ok_def new_ipcSetPeer_def intro!: set_loop_keeps)

lemma IpcHandle_keeps: "C' = C \<Longrightarrow> Q dev \<Longrightarrow> Q (fst (IpcHandle C' reqs dev))"
proof (induction C' reqs dev rule: IpcHandle.induct)
  case (2 C' req reqs dev)
  show ?case
  proof (cases "cut_at newline req")
    case (Some x)
    obtain op rest where x: "x = (op, rest)" by (cases x)
    obtain d e where s: "IpcSetOperation C rest dev = (d, e)" by force
    have "Q d" using IpcSet_keeps(1) [OF 2(4), of rest] s by simp
    then show ?thesis
      using 2 Some x s by (subst IpcHandle.simps) (auto simp: Let_def split_beta split: list.splits)
  qed (use 2 in \<open>simp add: IpcHandle.simps\<close>)
qed (simp add: IpcHandle.simps)

end

subsection \<open>Runs\<close>

text \<open>
  The calls of a device: its routines, one item at a time; its timers; its owner; and the world, whose
  clock and random sources move on. Only a peer that there is has routines and timers.
\<close>

datatype device_call =
    TunRead "bytes list" "read_error option"
  | Encrypt nat nat
  | SendNext nat
  | SocketRead nat "recv_error + (bytes \<times> Endpoint) list"
  | Decrypt nat nat
  | HandshakeNext
  | ReceiveNext nat
  | TimerExpires timer_id nat
  | Configure "string list"
  | ConfigureText string
  | TunEvent tun_event "int option"
  | CallUp
  | CallDown
  | CallClose
  | CallBindUpdate
  | CallBindSetMark u32
  | CallKeepalives
  | CallRemovePeer bytes
  | CallRemoveAllPeers
  | CallSetPrivateKey bytes
  | WorldMoves Env

fun device_step :: "Crypto \<Rightarrow> device_call \<Rightarrow> Device \<Rightarrow> Device" where
  "device_step C (TunRead packets err) dev =
     (case RoutineReadFromTUN C packets err dev of (dev, Return True) \<Rightarrow> device_Close dev | (dev, _) \<Rightarrow> dev)"
| "device_step C (Encrypt p i) dev = (if p < d_nextPeer dev then RoutineEncryption C p i dev else dev)"
| "device_step C (SendNext p) dev = (if p < d_nextPeer dev then RoutineSequentialSender C p dev else dev)"
| "device_step C (SocketRead n r) dev = fst (RoutineReceiveIncoming C n r dev)"
| "device_step C (Decrypt p i) dev = (if p < d_nextPeer dev then RoutineDecryption C p i dev else dev)"
| "device_step C HandshakeNext dev = RoutineHandshake C dev"
| "device_step C (ReceiveNext p) dev = (if p < d_nextPeer dev then RoutineSequentialReceiver C p dev else dev)"
| "device_step C (TimerExpires t p) dev = (if p < d_nextPeer dev then timer_callback C t p dev else dev)"
| "device_step C (Configure reqs) dev = fst (IpcHandle C reqs dev)"
| "device_step C (ConfigureText s) dev = fst (IpcSet C s dev)"
| "device_step C (TunEvent ev m) dev = RoutineTUNEventReader C ev m dev"
| "device_step C CallUp dev = fst (Up C dev)"
| "device_step C CallDown dev = fst (Down C dev)"
| "device_step C CallClose dev = device_Close dev"
| "device_step C CallBindUpdate dev = fst (BindUpdate dev)"
| "device_step C (CallBindSetMark m) dev = fst (BindSetMark m dev)"
| "device_step C CallKeepalives dev = SendKeepalivesToPeersWithCurrentKeypair C dev"
| "device_step C (CallRemovePeer k) dev = RemovePeer k dev"
| "device_step C CallRemoveAllPeers dev = RemoveAllPeers dev"
| "device_step C (CallSetPrivateKey sk) dev = SetPrivateKey C sk dev"
| "device_step C (WorldMoves e) dev = dev\<lparr>d_env := e\<rparr>"

abbreviation device_run :: "Crypto \<Rightarrow> device_call list \<Rightarrow> Device \<Rightarrow> Device" where
  "device_run C \<equiv> fold (device_step C)"

context device_invariant
begin

lemma step_keeps:
  assumes "Q dev"
  shows "Q (device_step C call dev)"
proof -
  let ?R = "\<lambda>d. Q d \<and> d_nextPeer d = d_nextPeer dev"
  have R: "?R dev" using assms(1) by simp
  note facts = numbered.RoutineEncryption_keeps [OF R] numbered.RoutineSequentialSender_keeps [OF R]
    numbered.RoutineReceiveIncoming_keeps [OF R] numbered.RoutineDecryption_keeps [OF R] numbered.RoutineHandshake_keeps [OF R]
    numbered.RoutineSequentialReceiver_keeps [OF created R] numbered.timer_callback_keeps [OF created R]
    numbered.RoutineTUNEventReader_keeps [OF R] numbered.Up_Down_keep [OF R] numbered.device_Close_keeps [OF R]
    numbered.BindUpdate_keeps [OF R] numbered.BindSetMark_keeps [OF R]
    numbered.SendKeepalivesToPeersWithCurrentKeypair_keeps [OF R] numbered.RemovePeer_keeps [OF R]
    numbered.RemoveAllPeers_keeps [OF R] numbered.SetPrivateKey_keeps [OF R]
  show ?thesis
  proof (cases call)
    case (TunRead packets err)
    have "?R (fst (RoutineReadFromTUN C packets err dev))" by (rule numbered.RoutineReadFromTUN_keeps [OF R])
    then show ?thesis using numbered.device_Close_keeps [of _ "d_nextPeer dev"] unfolding TunRead
      by (auto split: prod.splits routine_next.splits bool.splits)
  next
    case (Configure reqs)
    then show ?thesis using IpcHandle_keeps [OF refl assms(1)] by simp
  next
    case (ConfigureText t)
    then show ?thesis using IpcSet_keeps(2) [OF assms(1)] by simp
  next
    case (WorldMoves e)
    then show ?thesis using numbered.world [OF R] by simp
  qed (simp_all add: assms(1) facts)
qed

lemma run_keeps: "Q dev \<Longrightarrow> Q (device_run C calls dev)"
  by (induction calls arbitrary: dev) (simp_all add: step_keeps)

end

end
