(* ===== verification/Peers.thy ===== *)
theory Peers
  imports Ownership
begin

text \<open>
  The owner's part of a device, whatever happens to it. A key leads to the peer with that key, and
  there are at most \<open>MaxPeers\<close> of them; the device is not among its own peers; the routing table is
  a well-formed trie whose routes lead to peers of the map; the header ranges are disjoint, and
  header protection comes with enough padding for its nonce.
\<close>

definition keys_ok :: "Device \<Rightarrow> bool" where
  "keys_ok dev \<longleftrightarrow>
     distinct (map fst (d_keyMap dev)) \<and> distinct (map snd (d_keyMap dev)) \<and> length (d_keyMap dev) \<le> MaxPeers \<and>
     (\<forall>(k, p) \<in> set (d_keyMap dev). p < d_nextPeer dev \<and> hs_remoteStatic (handshake dev p) = k \<and>
        length k = 32 \<and> k \<noteq> d_publicKey dev)"

definition config_ok :: "Device \<Rightarrow> bool" where
  "config_ok dev \<longleftrightarrow>
     setting_ok (fromDevice dev) \<and> \<not> any_overlap (headers_of (d_headers dev)) \<and>
     (\<not> key_IsZero (d_headerKey dev) \<longrightarrow> list_all (\<lambda>s. HeaderCipherNonceSize \<le> unat s) (paddings_of (d_paddings dev)))"

definition routes_known :: "Device \<Rightarrow> bool" where
  "routes_known dev \<longleftrightarrow> (\<exists>m. table_rel (d_allowedips dev) m \<and> (\<forall>v k p. m v k = Some p \<longrightarrow> known dev p))"

definition orderly :: "Device \<Rightarrow> bool" where
  "orderly dev \<longleftrightarrow> keys_ok dev \<and> config_ok dev \<and> routes_known dev"

lemma orderly_base: "orderly dev \<Longrightarrow> base_ok dev"
  by (auto simp: orderly_def keys_ok_def config_ok_def routes_known_def base_ok_def routes_ok_def)

subsection \<open>Properties of what is settled\<close>

text \<open>Traffic keeps every property of the settled part of a device.\<close>

lemma settled_traffic:
  assumes "\<And>a b. settled b = settled a \<Longrightarrow> Q a \<Longrightarrow> Q b"
  shows "traffic_invariant C (\<lambda>_. True) Q"
proof unfold_locales
  show "Q (upd_peer p f dev)" if "Q dev" "quiet_peer (d_peers dev p) (f (d_peers dev p))" for dev p f
    by (rule assms [OF _ that(1)]) (use that(2) in \<open>simp add: settles quiet_peer_def\<close>)
qed (rule TrueI | erule assms [rotated], simp add: settles statics_def)+

lemma orderly_settled:
  assumes "settled b = settled a" "orderly a"
  shows "orderly b"
  using assms(2)
  by (auto simp: orderly_def keys_ok_def config_ok_def routes_known_def fromDevice_def known_def settledD [OF assms(1)])

lemma orderly_traffic: "traffic_invariant C (\<lambda>_. True) (\<lambda>dev. orderly dev \<and> d_nextPeer dev = n)"
proof (rule settled_traffic)
  fix a b assume "settled b = settled a" "orderly a \<and> d_nextPeer a = n"
  then show "orderly b \<and> d_nextPeer b = n" using orderly_settled [of b a] settledD(10) [of b a] by simp
qed

subsection \<open>The owner keeps it\<close>

lemma orderlyI: "keys_ok dev \<Longrightarrow> config_ok dev \<Longrightarrow> routes_known dev \<Longrightarrow> orderly dev"
  by (simp add: orderly_def)

text \<open>Updates that do not concern the keys, the routes or the parameters.\<close>

lemma orderly_plain [simp]:
  "orderly (dev\<lparr>d_env := e\<rparr>) = orderly dev"
  "orderly (dev\<lparr>d_bindOpen := b\<rparr>) = orderly dev"
  "orderly (dev\<lparr>d_port := po\<rparr>) = orderly dev"
  "orderly (dev\<lparr>d_fwmark := fw\<rparr>) = orderly dev"
  "orderly (dev\<lparr>d_mtu := z\<rparr>) = orderly dev"
  "orderly (dev\<lparr>d_state := st\<rparr>) = orderly dev"
  "orderly (dev\<lparr>d_junk := j\<rparr>) = orderly dev"
  "orderly (dev\<lparr>d_ipackets := cs\<rparr>) = orderly dev"
  "orderly (dev\<lparr>d_contentPaddingAddition := r\<rparr>) = orderly dev"
  "orderly (dev\<lparr>d_timings := ts\<rparr>) = orderly dev"
  by (simp_all add: orderly_def keys_ok_def config_ok_def routes_known_def fromDevice_def known_def)

lemma orderly_statics:
  assumes "orderly dev" "hs_remoteStatic (f (handshake dev p)) = hs_remoteStatic (handshake dev p)"
  shows "orderly (upd_handshake p f dev)"
  using assms by (auto simp: orderly_def keys_ok_def config_ok_def routes_known_def fromDevice_def known_def upd_handshake_def)

lemma orderly_spend: "orderly dev \<Longrightarrow> orderly (spend k dev)"
  by (rule orderly_settled) (simp_all add: spend_def settles split: option.splits)

lemma orderly_expire: "orderly dev \<Longrightarrow> orderly (ExpireCurrentKeypairs p dev)"
  unfolding ExpireCurrentKeypairs_def Let_def
  by (intro orderly_spend orderly_statics orderly_settled [OF settled_plain(13)]) (simp_all add: Clear_def)

lemma nextPeer_handshake: "d_nextPeer (upd_handshake p f dev) = d_nextPeer dev"
  by (simp add: upd_handshake_def)

lemma nextPeer_expire: "d_nextPeer (ExpireCurrentKeypairs p dev) = d_nextPeer dev"
  by (simp add: ExpireCurrentKeypairs_def spend_def upd_handshake_def index_Delete_def Let_def split: option.splits)

lemma orderly_remove:
  assumes "orderly dev" "\<And>p'. (fst kp, p') \<in> set (d_keyMap dev) \<Longrightarrow> p' = snd kp"
  shows "orderly (removePeerLocked kp dev)"
proof -
  let ?d = "removePeerLocked kp dev"
  obtain m where m: "table_rel (d_allowedips dev) m" "\<And>v k p. m v k = Some p \<Longrightarrow> known dev p"
    using assms(1) by (auto simp: orderly_def routes_known_def)
  have km: "d_keyMap ?d = filter (\<lambda>e. fst e \<noteq> fst kp) (d_keyMap dev)" by (rule remove_routes [OF m(1)])
  have "keys_ok ?d"
    using assms(1) by (auto simp: orderly_def keys_ok_def km remove_frame distinct_map_filter
        intro: le_trans [OF length_filter_le])
  moreover have "config_ok ?d" using assms(1) by (simp add: orderly_def config_ok_def fromDevice_def remove_frame)
  moreover have "known ?d p" if "without_routes m (snd kp) v k = Some p" for v k p
  proof -
    have "m v k = Some p" "p \<noteq> snd kp" using that by (auto simp: without_routes_def split: if_splits)
    then obtain k' where "(k', p) \<in> set (d_keyMap dev)" using m(2) [of v k p] by (auto simp: known_def)
    moreover then have "k' \<noteq> fst kp" using assms(2) \<open>p \<noteq> snd kp\<close> by auto
    ultimately show ?thesis by (force simp: known_def km)
  qed
  then have "routes_known ?d" using remove_routes(1) [OF m(1), of kp] unfolding routes_known_def by blast
  ultimately show ?thesis by (rule orderlyI)
qed

text \<open>The routes of a known peer.\<close>

lemma orderly_routes:
  assumes "orderly dev" "table_rel ips m" "\<And>v k p. m v k = Some p \<Longrightarrow> known dev p"
  shows "orderly (dev\<lparr>d_allowedips := ips\<rparr>)"
  using assms by (auto simp: orderly_def keys_ok_def config_ok_def routes_known_def fromDevice_def known_def)

lemma orderly_insert:
  assumes "orderly dev" "known dev p" "prefix_ok pfx" "Insert (d_allowedips dev) pfx p = Some ips"
  shows "orderly (dev\<lparr>d_allowedips := ips\<rparr>)"
proof -
  obtain m where m: "table_rel (d_allowedips dev) m" "\<And>v k p. m v k = Some p \<Longrightarrow> known dev p"
    using assms(1) by (auto simp: orderly_def routes_known_def)
  have "table_rel ips (m(prefix_fam pfx := (m (prefix_fam pfx))(prefix_key pfx \<mapsto> p)))"
    using Insert_spec [OF m(1) assms(3), of p] assms(4) by auto
  then show ?thesis by (rule orderly_routes [OF assms(1)]) (use m(2) assms(2) in \<open>auto split: if_splits\<close>)
qed

lemma orderly_drop:
  assumes "orderly dev" "prefix_ok pfx" "Remove (d_allowedips dev) pfx p = Some ips"
  shows "orderly (dev\<lparr>d_allowedips := ips\<rparr>)"
proof -
  obtain m where m: "table_rel (d_allowedips dev) m" "\<And>v k p. m v k = Some p \<Longrightarrow> known dev p"
    using assms(1) by (auto simp: orderly_def routes_known_def)
  have "table_rel ips (drop_route m (prefix_fam pfx) (prefix_key pfx) p)"
    using Remove_spec [OF m(1) assms(2), of p] assms(3) by auto
  then show ?thesis by (rule orderly_routes [OF assms(1)]) (use m(2) in \<open>auto simp: drop_route_def split: if_splits\<close>)
qed

lemma orderly_drop_all:
  assumes "orderly dev" "RemoveByPeer (d_allowedips dev) p = Some ips"
  shows "orderly (dev\<lparr>d_allowedips := ips\<rparr>)"
proof -
  obtain m where m: "table_rel (d_allowedips dev) m" "\<And>v k p. m v k = Some p \<Longrightarrow> known dev p"
    using assms(1) by (auto simp: orderly_def routes_known_def)
  have "table_rel ips (without_routes m p)" using RemoveByPeer_total [OF m(1), of p] assms(2) by auto
  then show ?thesis by (rule orderly_routes [OF assms(1)]) (use m(2) in \<open>auto simp: without_routes_def split: if_splits\<close>)
qed

lemma orderly_merge:
  assumes "orderly dev" "setting_ok sd"
  shows "orderly (fst (mergeWithDevice sd dev))"
proof -
  have "config_ok (fst (mergeWithDevice sd dev))"
    using assms by (auto simp: orderly_def mergeWithDevice_def Let_def config_ok_def setting_ok_def fromDevice_def
        headers_of_def paddings_of_def)
  then show ?thesis
    using assms(1) by (auto simp: orderly_def mergeWithDevice_def Let_def keys_ok_def routes_known_def known_def)
qed

lemma orderly_new_peer:
  assumes "orderly dev" "pk \<noteq> d_publicKey dev" "length pk = 32"
  shows "orderly (fst (NewPeer C pk dev))"
  using assms
  by (auto simp: orderly_def NewPeer_def Let_def keys_ok_def config_ok_def routes_known_def fromDevice_def known_def
      LookupPeer_def map_of_eq_None_iff zero_handshake_def)

lemma orderly_owner: "owner_invariant C (\<lambda>_. True) (\<lambda>dev. orderly dev \<and> d_nextPeer dev = n)"
proof (intro owner_invariant.intro orderly_traffic owner_invariant_axioms.intro)
  show "orderly (removePeerLocked kp dev) \<and> d_nextPeer (removePeerLocked kp dev) = n"
    if "orderly dev \<and> d_nextPeer dev = n" "\<And>p'. (fst kp, p') \<in> set (d_keyMap dev) \<Longrightarrow> p' = snd kp" for dev kp
    using orderly_remove [of dev kp] that remove_frame(8) [of kp dev] by simp
  show "orderly (dev\<lparr>d_privateKey := sk, d_publicKey := publicKey C sk, d_cookieChecker := ch\<rparr>) \<and>
      d_nextPeer (dev\<lparr>d_privateKey := sk, d_publicKey := publicKey C sk, d_cookieChecker := ch\<rparr>) = n"
    if "orderly dev \<and> d_nextPeer dev = n" "\<forall>e\<in>set (d_keyMap dev). hs_remoteStatic (handshake dev (snd e)) \<noteq> publicKey C sk"
    for dev sk ch
  proof -
    note dev = that
    have "k \<noteq> publicKey C sk" if "(k, p) \<in> set (d_keyMap dev)" for k p
      using that dev(1) bspec [OF dev(2) that] by (auto simp: orderly_def keys_ok_def)
    then show ?thesis
      using dev(1) by (auto simp: orderly_def keys_ok_def config_ok_def routes_known_def fromDevice_def known_def)
  qed
  show "orderly (fst (mergeWithDevice sd dev)) \<and> d_nextPeer (fst (mergeWithDevice sd dev)) = n"
    if "orderly dev \<and> d_nextPeer dev = n" "setting_ok sd" for dev sd
    using orderly_merge [of dev sd] that by (simp add: mergeWithDevice_def Let_def)
qed (auto simp: orderly_base orderly_statics nextPeer_handshake nextPeer_expire orderly_expire simp del: prefix_ok.simps
    intro: orderly_insert orderly_drop orderly_drop_all)

interpretation orderly: device_invariant C "\<lambda>_ _. True" orderly for C
  by (rule device_invariant.intro) (simp_all add: orderly_owner orderly_new_peer)

subsection \<open>From a new device on\<close>

lemma NewDevice_fields:
  assumes "NewDevice mtu env = Some dev"
  shows "d_keyMap dev = []" "d_allowedips dev = empty_AllowedIPs" "d_headerKey dev = replicate 32 0"
    "d_headers dev = \<lparr>h_init = FromUint32 MessageInitiationType MessageInitiationType,
           h_cookie = FromUint32 MessageCookieReplyType MessageCookieReplyType,
           h_response = FromUint32 MessageResponseType MessageResponseType,
           h_transport = FromUint32 MessageTransportType MessageTransportType\<rparr>"
    "d_paddings dev = \<lparr>s_init = 0, s_response = 0, s_cookie = 0, s_transport = 0\<rparr>"
    "d_indexTable dev = Map.empty" "d_peers dev = (\<lambda>_. zero_peer)" "d_env dev = env" "d_nextPeer dev = 0"
    "d_starved dev = False" "d_panicked dev = False"
  using assms by (auto simp: NewDevice_def zero_device_def index_Init_def split: bind_splits)

lemma NewDevice_orderly:
  assumes "NewDevice mtu env = Some dev"
  shows "orderly dev"
proof (rule orderlyI)
  note f = NewDevice_fields [OF assms]
  show "keys_ok dev" by (simp add: keys_ok_def f)
  show "routes_known dev" using empty_table_rel unfolding routes_known_def f(2) by (rule exI [of _ no_routes, OF conjI]) (simp add: no_routes_def)
  show "config_ok dev"
    by (auto simp: config_ok_def setting_ok_def fromDevice_def f key_IsZero_def key_Equals_def paddings_of_def headers_of_def
        range_ok_def Overlap_iff Contains_iff MessageInitiationType_def MessageResponseType_def MessageCookieReplyType_def MessageTransportType_def)
qed

subsection \<open>Properties\<close>

text \<open>C13: In every state that a device reaches from \<open>NewDevice\<close>, whatever traffic, timers and
  configuration it sees, its map of peers is in order: keys and peers are in one-to-one
  correspondence, the peer under a key has that key as its static key, the device's own key is not
  among them, and there are at most \<open>MaxPeers\<close> entries.\<close>

theorem device_keeps_peers:
  assumes "NewDevice mtu env = Some dev"
  shows "keys_ok (device_run C calls dev)"
  using orderly.run_keeps [OF NewDevice_orderly [OF assms]] by (simp add: orderly_def)

text \<open>C15: In every state that a device reaches, the four ranges of message types are in order and
  pairwise disjoint, the paddings fit into 16 bits, and with a header protection key every padding
  has room for the nonce, although a set operation that fails can have changed the ranges.\<close>

theorem device_keeps_config:
  assumes "NewDevice mtu env = Some dev"
  shows "config_ok (device_run C calls dev)"
  using orderly.run_keeps [OF NewDevice_orderly [OF assms]] by (simp add: orderly_def)

lemma routed_known:
  assumes "orderly dev" "routed dev ip = Some p"
  shows "known dev p"
proof -
  obtain m where m: "table_rel (d_allowedips dev) m" "\<And>v k p. m v k = Some p \<Longrightarrow> known dev p"
    using assms(1) by (auto simp: orderly_def routes_known_def)
  have some: "Lookup (d_allowedips dev) ip = Some (Some p)" using assms(2) by (simp add: routed_def split: option.splits)
  then have "addr_size (length ip)" by (auto simp: Lookup_def addr_size_def split: if_splits)
  then have "longest_match (m (length ip = 16)) (bits_of ip) = Some p" using Lookup_spec [OF m(1)] some by simp
  moreover have "\<exists>k. f k = Some p" if "longest_match f bs = Some p" for f :: "nat route_map" and bs
    using that by (induction f bs rule: longest_match.induct) (auto split: option.splits)
  ultimately show ?thesis using m(2) by blast
qed

text \<open>C14: In every state that a device reaches, an address is routed only to a peer of its map: no
  packet is sent to, and none accepted from, a peer that was removed.\<close>

theorem device_routes_to_peers:
  assumes "NewDevice mtu env = Some dev"
  shows "set_option (routed (device_run C calls dev) ip) \<subseteq> snd ` set (d_keyMap (device_run C calls dev))"
  using routed_known [OF orderly.run_keeps [OF NewDevice_orderly [OF assms]]] by (auto simp: known_def)

subsection \<open>A sample run\<close>

definition sample_env :: Env where
  "sample_env = \<lparr>e_now = 0, e_bytes = [], e_words = [], e_indices = [], e_sends = [], e_opens = [], e_closes = [],
     e_marks = [], e_listeners = []\<rparr>"

text \<open>A peer with a route is configured and removed again, between coming up and down.\<close>

definition sample_calls :: "device_call list" where
  "sample_calls =
     [CallUp,
      ConfigureText (entry ''public_key'' (hex_encode (replicate 32 7)) @ entry ''allowed_ip'' ''10.0.0.0/8''),
      WorldMoves (sample_env\<lparr>e_now := 5, e_indices := [3, 9]\<rparr>),
      TunRead [replicate 20 0x45] None, TimerExpires TRetransmit 0, CallRemovePeer (replicate 32 7), CallDown]"

definition sample_device :: Device where
  "sample_device = the (NewDevice (Some 1420) sample_env)"

lemma sample_ok: "NewDevice (Some 1420) sample_env = Some sample_device"
  by (simp add: sample_device_def NewDevice_def Init_def zero_ratelimiter_def)

theorem device_keeps_peers_witness: "keys_ok (device_run demo_crypto sample_calls sample_device)"
  by (rule device_keeps_peers [OF sample_ok])

theorem device_keeps_config_witness: "config_ok (device_run demo_crypto sample_calls sample_device)"
  by (rule device_keeps_config [OF sample_ok])

theorem device_routes_to_peers_witness:
  "set_option (routed (device_run demo_crypto sample_calls sample_device) [10, 1, 2, 3])
     \<subseteq> snd ` set (d_keyMap (device_run demo_crypto sample_calls sample_device))"
  by (rule device_routes_to_peers [OF sample_ok])

end
