(* ===== verification/IndexRuns.thy ===== *)
theory IndexRuns
  imports Peers IndexInvariant
begin

text \<open>
  The invariant of the index table over the whole life of a device. A run in which the world does not
  supply enough indices for the loop that draws a free one has no next state; \<open>d_starved\<close> marks the
  place, and nothing is said of what follows.
\<close>

subsection \<open>Numbers that are not a peer yet\<close>

definition pristine :: "Peer \<Rightarrow> bool" where
  "pristine peer \<longleftrightarrow>
     \<not> p_isRunning peer \<and> slots (p_keypairs peer) = {} \<and>
     hs_state (p_handshake peer) = handshakeZeroed \<and> hs_localIndex (p_handshake peer) = 0"

definition clean :: "Device \<Rightarrow> bool" where
  "clean dev \<longleftrightarrow>
     (\<forall>p \<ge> d_nextPeer dev. pristine (d_peers dev p)) \<and>
     (\<forall>i e. d_indexTable dev i = Some e \<longrightarrow> (\<exists>p < d_nextPeer dev. ie_peer e = Some p))"

lemma pristine_slots: "slots ks = {} \<longleftrightarrow> ks_current ks = None \<and> ks_previous ks = None \<and> ks_next ks = None"
  by (auto simp: slots_def)

lemma cleanD: "clean dev \<Longrightarrow> \<not> pristine (d_peers dev p) \<Longrightarrow> p < d_nextPeer dev"
  by (meson clean_def not_le)

lemma clean_step:
  assumes "clean dev" "d_nextPeer dev' = d_nextPeer dev"
    and "\<And>p. d_nextPeer dev \<le> p \<Longrightarrow> pristine (d_peers dev p) \<Longrightarrow> pristine (d_peers dev' p)"
    and "\<And>i e. d_indexTable dev' i = Some e \<Longrightarrow> d_indexTable dev i = None \<or> ie_peer (the (d_indexTable dev i)) \<noteq> ie_peer e \<Longrightarrow>
           \<exists>p < d_nextPeer dev. ie_peer e = Some p"
  shows "clean dev'"
proof -
  have "\<exists>p < d_nextPeer dev. ie_peer e = Some p" if "d_indexTable dev' i = Some e" for i e
    using assms(1) assms(4) [OF that] by (cases "d_indexTable dev i") (force simp: clean_def)+
  then show ?thesis using assms(1-3) by (simp add: clean_def)
qed

text \<open>The operations of the handshake touch one peer, and give out indices for that peer only.\<close>

lemma draws_fields:
  "d_peers (snd (rand_Read n dev)) = d_peers dev" "d_indexTable (snd (rand_Read n dev)) = d_indexTable dev"
  "d_starved (snd (rand_Read n dev)) = d_starved dev" "d_nextPeer (snd (rand_Read n dev)) = d_nextPeer dev"
  "d_peers (snd (pick_one r dev)) = d_peers dev" "d_indexTable (snd (pick_one r dev)) = d_indexTable dev"
  "d_starved (snd (pick_one r dev)) = d_starved dev" "d_nextPeer (snd (pick_one r dev)) = d_nextPeer dev"
  by (simp_all add: rand_Read_def pick_one_def rand_word_def split_beta split: list.splits)

definition only_for :: "nat \<Rightarrow> Device \<Rightarrow> Device \<Rightarrow> bool" where
  "only_for p dev dev' \<longleftrightarrow>
     (\<forall>q. q \<noteq> p \<longrightarrow> d_peers dev' q = d_peers dev q) \<and> (d_starved dev \<longrightarrow> d_starved dev') \<and>
     (\<forall>i e. d_indexTable dev' i = Some e \<longrightarrow>
        ie_peer e = Some p \<or> (\<exists>e'. d_indexTable dev i = Some e' \<and> ie_peer e' = ie_peer e))"

lemma only_for_refl [simp]: "only_for p dev dev"
  by (auto simp: only_for_def)

lemma only_for_trans: "only_for p a b \<Longrightarrow> only_for p b c \<Longrightarrow> only_for p a c"
  unfolding only_for_def by metis

lemma only_for_base:
  "only_for p dev (upd_handshake p f dev)" "only_for p dev (upd_keypairs p g dev)" "only_for p dev (index_Delete i dev)"
  "only_for p dev (DeleteKeypair k dev)" "only_for p dev (SwapIndexForKeypair i kp dev)"
  "only_for p dev (snd (rand_Read n dev))" "only_for p dev (snd (pick_one r dev))" "only_for p dev (dev\<lparr>d_starved := True\<rparr>)"
  "only_for p dev (dev\<lparr>d_nextKeypair := m, d_keypairs := kps\<rparr>)"
  "NewIndexForHandshake p dev = Some (j, dev') \<Longrightarrow> only_for p dev dev'"
  by (auto simp: only_for_def upd_handshake_def upd_keypairs_def index_Delete_def DeleteKeypair_def SwapIndexForKeypair_def
      NewIndexForHandshake_def draws_fields split: option.splits if_splits)

lemmas only_for_step = only_for_trans [OF _ only_for_base(1)] only_for_trans [OF _ only_for_base(2)]
  only_for_trans [OF _ only_for_base(3)] only_for_trans [OF _ only_for_base(4)] only_for_trans [OF _ only_for_base(5)]
  only_for_trans [OF _ only_for_base(6)] only_for_trans [OF _ only_for_base(7)] only_for_trans [OF _ only_for_base(8)]
  only_for_trans [OF _ only_for_base(9)]

lemma only_for_CreateMessageInitiation: "only_for p dev (fst (CreateMessageInitiation C p dev))"
proof -
  obtain b d1 where 1: "rand_Read 32 dev = (b, d1)" by force
  obtain w d2 where 2: "pick_one (h_init (d_headers d1)) d1 = (w, d2)" by force
  obtain h x where 3: "initiation_seal C (clamp b) (d_publicKey d2) (stamp (time_of (now d2))) (handshake d2 p) = (h, x)" by force
  define D where "D = index_Delete (hs_localIndex h) (upd_handshake p (\<lambda>_. h) d2)"
  have d2: "only_for p dev d2"
    using only_for_base(6) [of p dev 32] only_for_step(7) [of p dev d1 "h_init (d_headers d1)"] 1 2 by simp
  have D: "only_for p dev D" unfolding D_def by (intro only_for_step d2)
  have "only_for p dev (upd_handshake p f d)" if "NewIndexForHandshake p D = Some (i, d)" for f i d
    by (rule only_for_step(1) [OF only_for_trans [OF D only_for_base(10) [OF that]]])
  then show ?thesis
    using only_for_step(1) [OF d2] only_for_step(8) [OF D]
    by (auto simp: CreateMessageInitiation_def 1 2 3 Let_def simp flip: D_def split: sum.splits option.splits)
qed

lemma only_for_CreateMessageResponse: "only_for p dev (fst (CreateMessageResponse C p dev))"
proof (cases "hs_state (handshake dev p) = handshakeInitiationConsumed")
  case True
  define D where "D = index_Delete (hs_localIndex (handshake dev p)) dev"
  have D: "only_for p dev D" by (simp add: D_def only_for_base)
  show ?thesis
  proof (cases "NewIndexForHandshake p D")
    case None
    then show ?thesis using True only_for_step(8) [OF D] by (simp add: CreateMessageResponse_def flip: D_def)
  next
    case (Some z)
    obtain i d1 where z: "z = (i, d1)" by (cases z)
    define d2 where "d2 = upd_handshake p (\<lambda>h. h\<lparr>hs_localIndex := i\<rparr>) d1"
    have "only_for p dev d2"
      unfolding d2_def by (rule only_for_step(1) [OF only_for_trans [OF D only_for_base(10) [OF Some [unfolded z]]]])
    then have "only_for p dev (upd_handshake p f (snd (rand_Read 32 (snd (pick_one r d2)))))" for f r
      by (intro only_for_step)
    then show ?thesis
      using True Some z by (auto simp: CreateMessageResponse_def Let_def split_beta simp flip: D_def d2_def split: sum.splits)
  qed
qed (simp add: CreateMessageResponse_def)

lemma only_for_BeginSymmetricSession: "only_for p dev (fst (BeginSymmetricSession C p dev))"
proof -
  have rot: "only_for p a d \<Longrightarrow> only_for p a (rotate p kp isI d)" for a d kp isI
    unfolding rotate_def Let_def by (auto intro!: only_for_step)
  show ?thesis
    unfolding BeginSymmetricSession_def Let_def by (auto intro!: rot only_for_step split: option.splits)
qed

lemma only_for_keypairs:
  "only_for p dev (fst (ReceivedWithKeypair p k dev))"
  "only_for p dev (ZeroAndFlushAll p dev)"
proof -
  have flush: "only_for p a d \<Longrightarrow> only_for p a (FlushStagedPackets p d)" for a d
    by (erule only_for_trans) (auto simp: only_for_def FlushStagedPackets_def)
  show "only_for p dev (ZeroAndFlushAll p dev)"
    unfolding ZeroAndFlushAll_def Let_def by (intro flush only_for_step only_for_refl)
  show "only_for p dev (fst (ReceivedWithKeypair p k dev))"
    unfolding ReceivedWithKeypair_def Let_def by (auto intro!: only_for_step)
qed

lemma ConsumeMessageInitiation_for:
  assumes "ConsumeMessageInitiation C im dev = (d, r)"
  obtains "d = dev" | p k where "only_for p dev d" "(k, p) \<in> set (d_keyMap dev)"
proof (cases "d = dev")
  case False
  then obtain p k f where "d = upd_handshake p f dev" "LookupPeer k dev = Some p"
    using assms by (auto simp: ConsumeMessageInitiation_def Let_def split: if_splits option.splits)
  then show ?thesis using that(2) [of p k] only_for_base(1) by (simp add: LookupPeer_def map_of_SomeD)
qed (simp add: that)

lemma ConsumeMessageResponse_for:
  assumes "ConsumeMessageResponse C rm dev = (d, r)"
  obtains "d = dev" | p where "only_for p dev d" "hs_state (handshake dev p) = handshakeInitiationCreated"
proof (cases "d = dev")
  case False
  then obtain p f x where "d = upd_handshake p f dev" "response_open C (d_privateKey dev) (handshake dev p) rm = Some x"
    using assms by (auto simp: ConsumeMessageResponse_def Let_def split: if_splits option.splits)
  then show ?thesis using that(2) only_for_base(1) by (auto simp: response_open_def split: if_splits)
qed (simp add: that)

subsection \<open>They stay pristine\<close>

lemma clean_only_for:
  assumes "clean dev" "only_for p dev dev'" "d_nextPeer dev' = d_nextPeer dev" "p < d_nextPeer dev"
  shows "clean dev'"
proof (rule clean_step [OF assms(1,3)])
  show "pristine (d_peers dev' q)" if "d_nextPeer dev \<le> q" "pristine (d_peers dev q)" for q
    using that assms(2,4) by (auto simp: only_for_def)
  show "\<exists>p < d_nextPeer dev. ie_peer e = Some p"
    if "d_indexTable dev' i = Some e" "d_indexTable dev i = None \<or> ie_peer (the (d_indexTable dev i)) \<noteq> ie_peer e" for i e
    using that assms(2,4) unfolding only_for_def by (metis option.sel option.distinct(1))
qed

text \<open>The operations of the handshake do nothing to a number that is not a peer.\<close>

lemma pristine_noop:
  assumes "pristine (d_peers dev p)"
  shows "fst (CreateMessageResponse C p dev) = dev" "fst (BeginSymmetricSession C p dev) = dev"
    "fst (ReceivedWithKeypair p k dev) = dev"
  using assms
  by (auto simp: pristine_def pristine_slots CreateMessageResponse_def BeginSymmetricSession_def session_keys_def ReceivedWithKeypair_def)

subsection \<open>Every handler keeps the invariant\<close>

definition healthy :: "Device \<Rightarrow> bool" where
  "healthy dev \<longleftrightarrow> orderly dev \<and> clean dev \<and> (d_starved dev \<or> index_inv dev)"

lemma healthy_step:
  assumes "healthy dev" "settled dev' = settled dev" "clean dev'" "d_starved dev \<Longrightarrow> d_starved dev'"
    "index_inv dev \<Longrightarrow> \<not> d_starved dev' \<Longrightarrow> index_inv dev'"
  shows "healthy dev' \<and> d_nextPeer dev' = d_nextPeer dev"
  using assms orderly_settled [OF assms(2)] settledD(10) [OF assms(2)] by (auto simp: healthy_def)

text \<open>Changes that concern neither the handshake nor the keypairs of a peer.\<close>

lemma healthy_peer:
  assumes "healthy dev" "p_handshake (f (d_peers dev p)) = handshake dev p" "p_keypairs (f (d_peers dev p)) = p_keypairs (d_peers dev p)"
    "p_isRunning (f (d_peers dev p)) \<longrightarrow> p_isRunning (d_peers dev p) \<or> p < d_nextPeer dev"
  shows "healthy (upd_peer p f dev) \<and> d_nextPeer (upd_peer p f dev) = d_nextPeer dev"
proof (rule healthy_step [OF assms(1)])
  show "settled (upd_peer p f dev) = settled dev" using assms(2) by (simp add: settles)
  have "clean dev" using assms(1) by (simp add: healthy_def)
  then show "clean (upd_peer p f dev)"
    by (rule clean_step) (use assms(2-4) in \<open>auto simp: pristine_def split: if_splits\<close>)
qed (use assms(2,3) in \<open>simp_all add: inv_upd_peer\<close>)

lemma healthy_keypair:
  assumes "healthy dev" "kp_localIndex (f (d_keypairs dev k)) = kp_localIndex (d_keypairs dev k)"
  shows "healthy (upd_keypair k f dev) \<and> d_nextPeer (upd_keypair k f dev) = d_nextPeer dev"
proof (rule healthy_step [OF assms(1)])
  show "clean (upd_keypair k f dev)" using assms(1) by (simp add: healthy_def clean_def)
qed (use assms(2) in \<open>simp_all add: inv_upd_keypair settles\<close>)

text \<open>Changes of fields that the invariant does not mention.\<close>

lemma healthy_plain [simp]:
  "healthy (dev\<lparr>d_sent := a1\<rparr>) = healthy dev" "healthy (dev\<lparr>d_written := a2\<rparr>) = healthy dev"
  "healthy (dev\<lparr>d_handshakeQueue := a3\<rparr>) = healthy dev" "healthy (dev\<lparr>d_limiter := a4\<rparr>) = healthy dev"
  "healthy (dev\<lparr>d_cookieChecker := a5\<rparr>) = healthy dev" "healthy (dev\<lparr>d_underLoadUntil := a6\<rparr>) = healthy dev"
  "healthy (panic dev) = healthy dev" "healthy (dev\<lparr>d_bindOpen := b\<rparr>) = healthy dev"
  "healthy (dev\<lparr>d_port := po\<rparr>) = healthy dev" "healthy (dev\<lparr>d_fwmark := fw\<rparr>) = healthy dev"
  "healthy (dev\<lparr>d_mtu := z\<rparr>) = healthy dev" "healthy (dev\<lparr>d_state := st\<rparr>) = healthy dev"
  "healthy (dev\<lparr>d_junk := j\<rparr>) = healthy dev" "healthy (dev\<lparr>d_ipackets := cs\<rparr>) = healthy dev"
  "healthy (dev\<lparr>d_contentPaddingAddition := r\<rparr>) = healthy dev" "healthy (dev\<lparr>d_timings := ts\<rparr>) = healthy dev"
  by (simp_all add: healthy_def clean_def index_inv_def orderly_def keys_ok_def config_ok_def routes_known_def fromDevice_def
      known_def panic_def)

lemma healthy_env: "healthy dev \<Longrightarrow> healthy (dev\<lparr>d_env := e\<rparr>)"
  by (auto simp: healthy_def clean_def index_inv_def)

lemma healthy_nonpristine: "healthy dev \<Longrightarrow> \<not> pristine (d_peers dev p) \<Longrightarrow> p < d_nextPeer dev"
  by (simp add: healthy_def cleanD)

text \<open>An operation on one peer.\<close>

lemma healthy_for:
  assumes "healthy dev" "only_for p dev dev'" "p < d_nextPeer dev" "settled dev' = settled dev"
    "index_inv dev \<Longrightarrow> \<not> d_starved dev' \<Longrightarrow> index_inv dev'"
  shows "healthy dev' \<and> d_nextPeer dev' = d_nextPeer dev"
  by (rule healthy_step [OF assms(1,4)])
    (use assms clean_only_for [OF _ assms(2) settledD(10) [OF assms(4)] assms(3)] in \<open>auto simp: healthy_def only_for_def\<close>)

lemma healthy_noise:
  assumes "healthy dev"
  shows "p < d_nextPeer dev \<Longrightarrow> healthy (fst (CreateMessageInitiation C p dev)) \<and> d_nextPeer (fst (CreateMessageInitiation C p dev)) = d_nextPeer dev"
    "healthy (fst (CreateMessageResponse C p dev)) \<and> d_nextPeer (fst (CreateMessageResponse C p dev)) = d_nextPeer dev"
    "healthy (fst (BeginSymmetricSession C p dev)) \<and> d_nextPeer (fst (BeginSymmetricSession C p dev)) = d_nextPeer dev"
    "healthy (fst (ReceivedWithKeypair p k dev)) \<and> d_nextPeer (fst (ReceivedWithKeypair p k dev)) = d_nextPeer dev"
proof -
  show "p < d_nextPeer dev \<Longrightarrow> healthy (fst (CreateMessageInitiation C p dev)) \<and> d_nextPeer (fst (CreateMessageInitiation C p dev)) = d_nextPeer dev"
    using inv_CreateMessageInitiation [of dev C p]
    by (intro healthy_for [OF assms only_for_CreateMessageInitiation]) (auto simp: settles prod_eq_iff)
  note p = healthy_nonpristine [OF assms, of p]
  show "healthy (fst (CreateMessageResponse C p dev)) \<and> d_nextPeer (fst (CreateMessageResponse C p dev)) = d_nextPeer dev"
  proof (cases "pristine (d_peers dev p)")
    case False
    then show ?thesis
      using inv_CreateMessageResponse [of dev C p]
      by (intro healthy_for [OF assms only_for_CreateMessageResponse p]) (auto simp: settles prod_eq_iff)
  qed (simp add: pristine_noop assms)
  show "healthy (fst (BeginSymmetricSession C p dev)) \<and> d_nextPeer (fst (BeginSymmetricSession C p dev)) = d_nextPeer dev"
  proof (cases "pristine (d_peers dev p)")
    case False
    then show ?thesis
      by (intro healthy_for [OF assms only_for_BeginSymmetricSession p]) (auto simp: settles inv_BeginSymmetricSession)
  qed (simp add: pristine_noop assms)
  show "healthy (fst (ReceivedWithKeypair p k dev)) \<and> d_nextPeer (fst (ReceivedWithKeypair p k dev)) = d_nextPeer dev"
  proof (cases "pristine (d_peers dev p)")
    case False
    then show ?thesis
      by (intro healthy_for [OF assms only_for_keypairs(1) p]) (auto simp: settles inv_ReceivedWithKeypair)
  qed (simp add: pristine_noop assms)
qed

lemma healthy_consumed:
  assumes "healthy dev"
  shows "healthy (fst (ConsumeMessageInitiation C im dev)) \<and> d_nextPeer (fst (ConsumeMessageInitiation C im dev)) = d_nextPeer dev"
    "healthy (fst (ConsumeMessageResponse C rm dev)) \<and> d_nextPeer (fst (ConsumeMessageResponse C rm dev)) = d_nextPeer dev"
proof -
  obtain d r where i: "ConsumeMessageInitiation C im dev = (d, r)" by force
  have "healthy d \<and> d_nextPeer d = d_nextPeer dev"
    using i
  proof (cases rule: ConsumeMessageInitiation_for)
    case (2 p k)
    moreover have "p < d_nextPeer dev" using 2 assms by (auto simp: healthy_def orderly_def keys_ok_def)
    ultimately show ?thesis
      using inv_ConsumeMessageInitiation [of dev C im] settled_consume(1) [of C im dev] i
      by (intro healthy_for [OF assms 2(1)]) simp_all
  qed (simp add: assms)
  then show "healthy (fst (ConsumeMessageInitiation C im dev)) \<and> d_nextPeer (fst (ConsumeMessageInitiation C im dev)) = d_nextPeer dev"
    using i by simp
  obtain e s where c: "ConsumeMessageResponse C rm dev = (e, s)" by force
  have "healthy e \<and> d_nextPeer e = d_nextPeer dev"
    using c
  proof (cases rule: ConsumeMessageResponse_for)
    case (2 p)
    moreover have "p < d_nextPeer dev" using 2 by (intro healthy_nonpristine [OF assms]) (simp add: pristine_def)
    ultimately show ?thesis
      using inv_ConsumeMessageResponse [of dev C rm] settled_consume(2) [of C rm dev] c
      by (intro healthy_for [OF assms 2(1)]) simp_all
  qed (simp add: assms)
  then show "healthy (fst (ConsumeMessageResponse C rm dev)) \<and> d_nextPeer (fst (ConsumeMessageResponse C rm dev)) = d_nextPeer dev"
    using c by simp
qed

lemma responder_healthy:
  assumes "ConsumeMessageResponse C rm dev = (d, Some p)" "healthy dev"
  shows "p < d_nextPeer dev"
proof -
  obtain e where "index_Lookup (mr_Receiver rm) dev = e" "ie_handshake e \<noteq> None" "ie_peer e = Some p"
    using assms(1) by (auto simp: ConsumeMessageResponse_def Let_def split: if_splits option.splits)
  then have "d_indexTable dev (mr_Receiver rm) = Some e" by (auto simp: index_Lookup_def no_entry_def split: option.splits)
  then show ?thesis using assms(2) \<open>ie_peer e = Some p\<close> unfolding healthy_def clean_def by fastforce
qed

text \<open>An operation on the keys of a peer that may not be there.\<close>

lemma clean_keys:
  assumes "clean dev" "only_for p dev dev'" "d_nextPeer dev' = d_nextPeer dev"
    "pristine (d_peers dev p) \<Longrightarrow> pristine (d_peers dev' p)"
    "\<And>i e. d_indexTable dev' i = Some e \<Longrightarrow> d_indexTable dev i = Some e"
  shows "clean dev'"
proof (rule clean_step [OF assms(1,3)])
  show "pristine (d_peers dev' q)" if "d_nextPeer dev \<le> q" "pristine (d_peers dev q)" for q
    using that assms(2,4) by (cases "q = p") (auto simp: only_for_def)
qed (use assms(5) in auto)

lemma zero_shrinks: "d_indexTable (ZeroAndFlushAll p dev) i = Some e \<Longrightarrow> d_indexTable dev i = Some e"
  by (auto simp: ZeroAndFlushAll_def FlushStagedPackets_def Let_def DeleteKeypair_def index_Delete_def upd_handshake_def
      upd_keypairs_def split: option.splits if_splits)

lemma healthy_zeroed:
  assumes "healthy dev"
  shows "healthy (ZeroAndFlushAll p dev) \<and> d_nextPeer (ZeroAndFlushAll p dev) = d_nextPeer dev"
proof (rule healthy_step [OF assms settled_sessions(3)])
  show "clean (ZeroAndFlushAll p dev)"
  proof (rule clean_keys [OF _ only_for_keypairs(2)])
    show "d_nextPeer (ZeroAndFlushAll p dev) = d_nextPeer dev" by (rule settledD(10) [OF settled_sessions(3)])
    show "pristine (d_peers dev p) \<Longrightarrow> pristine (d_peers (ZeroAndFlushAll p dev) p)"
      by (simp add: pristine_def pristine_slots ZeroAndFlushAll_def FlushStagedPackets_def Let_def Clear_def DeleteKeypair_def
          upd_handshake_def upd_keypairs_def index_Delete_def)
    show "clean dev" using assms by (simp add: healthy_def)
    show "d_indexTable (ZeroAndFlushAll p dev) i = Some e \<Longrightarrow> d_indexTable dev i = Some e" for i e by (rule zero_shrinks)
  qed
  show "d_starved dev \<Longrightarrow> d_starved (ZeroAndFlushAll p dev)" using only_for_keypairs(2) by (simp add: only_for_def)
qed (simp add: inv_ZeroAndFlushAll)

lemma healthy_handshake:
  assumes "healthy dev" "hs_localIndex (f (handshake dev p)) = hs_localIndex (handshake dev p)"
    "hs_state (f (handshake dev p)) = hs_state (handshake dev p)"
    "hs_remoteStatic (f (handshake dev p)) = hs_remoteStatic (handshake dev p)"
  shows "healthy (upd_handshake p f dev) \<and> d_nextPeer (upd_handshake p f dev) = d_nextPeer dev"
proof -
  have "clean (upd_handshake p f dev)"
    by (rule clean_keys [OF _ only_for_base(1)]) (use assms in \<open>auto simp: healthy_def pristine_def upd_handshake_def\<close>)
  moreover have "index_inv (upd_handshake p f dev)" if "index_inv dev"
    using assms by (intro inv_upd_handshake [OF that])
  ultimately show ?thesis
    using assms orderly_statics [of dev f p] only_for_base(1) [of p dev f] by (auto simp: healthy_def only_for_def nextPeer_handshake)
qed

lemma healthy_handed:
  assumes "healthy dev"
  shows "healthy (fst (hand_out p k c dev)) \<and> d_nextPeer (fst (hand_out p k c dev)) = d_nextPeer dev"
proof -
  obtain m kept ooo where a: "assign_nonces k (kp_sendNonce (d_keypairs dev k)) (oc_elems c) = (m, kept, ooo)" by (metis prod_cases3)
  define D where "D = upd_keypair k (\<lambda>kp. kp\<lparr>kp_sendNonce := m\<rparr>) dev"
  define E where "E = (if ooo \<noteq> [] then StagePackets p \<lparr>oc_locked = False, oc_elems = ooo\<rparr> D else D)"
  have D: "healthy D" "d_nextPeer D = d_nextPeer dev" using healthy_keypair [OF assms] unfolding D_def by auto
  have E: "healthy E" "d_nextPeer E = d_nextPeer dev"
    using D healthy_peer [OF D(1), of "\<lambda>peer. peer\<lparr>p_staged := stage (p_staged peer) \<lparr>oc_locked = False, oc_elems = ooo\<rparr>\<rparr>" p]
    unfolding E_def StagePackets_def by auto
  have "fst (hand_out p k c dev) = (if kept \<noteq> [] \<and> p_isRunning (d_peers E p)
      then upd_peer p (\<lambda>peer. peer\<lparr>p_outbound := p_outbound peer @ [\<lparr>oc_locked = True, oc_elems = kept\<rparr>]\<rparr>) E else E)"
    unfolding hand_out_def a Let_def prod.case D_def E_def fst_conv by (rule refl)
  then show ?thesis
    using E healthy_peer [OF E(1), of "\<lambda>peer. peer\<lparr>p_outbound := p_outbound peer @ [\<lparr>oc_locked = True, oc_elems = kept\<rparr>]\<rparr>" p]
    by auto
qed

lemma panic_fields: "d_nextPeer (panic dev) = d_nextPeer dev"
  by (simp add: panic_def)

lemma healthy_traffic: "traffic_invariant C (\<lambda>p. p < n) (\<lambda>dev. healthy dev \<and> d_nextPeer dev = n)"
proof unfold_locales
  show "p < n" if "Current p dev = Some k" "healthy dev \<and> d_nextPeer dev = n" for p dev k
    using that healthy_nonpristine [of dev p] by (auto simp: pristine_def pristine_slots Current_def)
  show "p < n" if "p_isRunning (d_peers dev p)" "healthy dev \<and> d_nextPeer dev = n" for p dev
    using that healthy_nonpristine [of dev p] by (auto simp: pristine_def)
  show "snd kp < n" if "kp \<in> set (d_keyMap dev)" "healthy dev \<and> d_nextPeer dev = n" for kp dev
    using that by (auto simp: healthy_def orderly_def keys_ok_def)
  show "p < n" if "ConsumeMessageResponse C rm dev = (d, Some p)" "healthy dev \<and> d_nextPeer dev = n" for rm dev d p
    using that responder_healthy by blast
  show "healthy (dev\<lparr>d_env := e\<rparr>) \<and> d_nextPeer (dev\<lparr>d_env := e\<rparr>) = n"
    if "healthy dev \<and> d_nextPeer dev = n" "quiet_env (d_env dev) e" for dev e
    using that healthy_env [of dev e] by (simp add: quiet_env_def)
qed (simp_all add: healthy_noise healthy_consumed healthy_zeroed healthy_handed healthy_peer healthy_keypair healthy_handshake
    quiet_peer_def panic_fields)

interpretation healthy_traffic: traffic_invariant C "\<lambda>p. p < n" "\<lambda>dev. healthy dev \<and> d_nextPeer dev = n" for C n
  by (rule healthy_traffic)

text \<open>The owner's changes leave the index table to the operations above.\<close>

lemma healthy_orderly:
  assumes "healthy dev" "orderly dev'" "d_nextPeer dev' = d_nextPeer dev" "d_indexTable dev' = d_indexTable dev"
    "d_peers dev' = d_peers dev" "d_keypairs dev' = d_keypairs dev" "d_nextKeypair dev' = d_nextKeypair dev"
    "d_env dev' = d_env dev" "d_starved dev' = d_starved dev"
  shows "healthy dev'"
  using assms by (auto simp: healthy_def clean_def index_inv_def)

lemma healthy_remove:
  assumes "healthy dev" "\<And>p'. (fst kp, p') \<in> set (d_keyMap dev) \<Longrightarrow> p' = snd kp"
  shows "healthy (removePeerLocked kp dev)"
proof -
  obtain k p where kp: "kp = (k, p)" by (cases kp)
  have o: "orderly dev" using assms(1) by (simp add: healthy_def)
  then obtain m where m: "table_rel (d_allowedips dev) m" by (auto simp: orderly_def routes_known_def)
  obtain T where T: "RemoveByPeer (d_allowedips dev) p = Some T" by (rule RemoveByPeer_total [OF m])
  define D where "D = dev\<lparr>d_allowedips := T\<rparr>"
  have "healthy D"
    by (rule healthy_orderly [OF assms(1)]) (use orderly_drop_all [OF o T] in \<open>simp_all add: D_def\<close>)
  then have S: "healthy (Stop p D)" using healthy_traffic.peer_ops(4) [of D "d_nextPeer D" p] by simp
  have "orderly (removePeerLocked kp dev)" using orderly_remove [OF o] assms(2) by blast
  moreover have "removePeerLocked kp dev = (Stop p D)\<lparr>d_keyMap := filter (\<lambda>e. fst e \<noteq> k) (d_keyMap dev)\<rparr>"
    by (simp add: kp removePeerLocked_eq T D_def)
  ultimately show ?thesis by (intro healthy_orderly [OF S]) simp_all
qed

lemma expire_only_for: "only_for p dev (ExpireCurrentKeypairs p dev)"
proof -
  have spend: "only_for p a d \<Longrightarrow> only_for p a (spend k d)" for a d k
    by (erule only_for_trans) (auto simp: only_for_def spend_def split: option.splits)
  show ?thesis unfolding ExpireCurrentKeypairs_def Let_def by (intro spend only_for_step only_for_refl)
qed

lemma healthy_expire:
  assumes "healthy dev"
  shows "healthy (ExpireCurrentKeypairs p dev)"
proof -
  have "clean (ExpireCurrentKeypairs p dev)"
  proof (rule clean_keys [OF _ expire_only_for nextPeer_expire])
    show "clean dev" using assms by (simp add: healthy_def)
    show "pristine (d_peers dev p) \<Longrightarrow> pristine (d_peers (ExpireCurrentKeypairs p dev) p)"
      by (simp add: ExpireCurrentKeypairs_def spend_def pristine_def pristine_slots Clear_def Let_def upd_handshake_def index_Delete_def)
    show "d_indexTable (ExpireCurrentKeypairs p dev) i = Some e \<Longrightarrow> d_indexTable dev i = Some e" for i e
      by (auto simp: ExpireCurrentKeypairs_def spend_def Let_def upd_handshake_def index_Delete_def split: option.splits if_splits)
  qed
  then show ?thesis
    using assms orderly_expire inv_ExpireCurrentKeypairs expire_only_for [of p dev] by (auto simp: healthy_def only_for_def)
qed

lemma healthy_new_peer:
  assumes "healthy dev" "pk \<noteq> d_publicKey dev" "length pk = 32"
  shows "healthy (fst (NewPeer C pk dev))"
proof (cases "isClosed dev \<or> length (d_keyMap dev) \<ge> MaxPeers \<or> LookupPeer pk dev \<noteq> None")
  case False
  define peer where "peer = zero_peer\<lparr>p_cookieGenerator := generator_Init C zero_generator pk,
            p_handshake := zero_handshake\<lparr>hs_precomputedStaticStatic := scalar_mult C (d_privateKey dev) pk,
              hs_remoteStatic := pk\<rparr>\<rparr>"
  let ?n = "d_nextPeer dev"
  let ?d = "dev\<lparr>d_nextPeer := ?n + 1, d_peers := (d_peers dev)(?n := peer), d_keyMap := (pk, ?n) # d_keyMap dev\<rparr>"
  have new: "fst (NewPeer C pk dev) = ?d" using False by (simp add: NewPeer_def peer_def Let_def)
  have old: "pristine (d_peers dev ?n)" and c: "clean dev" and o: "orderly dev"
    using assms(1) by (simp_all add: healthy_def clean_def)
  have peer: "pristine peer" "slots_distinct (p_keypairs peer)"
    by (simp_all add: peer_def zero_peer_def zero_handshake_def pristine_def slots_def slots_distinct_def)
  have "clean ?d" using c peer(1) unfolding clean_def by simp (metis less_SucI)
  moreover have "index_inv ?d" if "index_inv dev"
  proof -
    have "p_keypairs (d_peers dev ?n) = p_keypairs peer"
      using old peer(1) by (simp add: pristine_def pristine_slots)
    then have "(\<lambda>p. p_keypairs (d_peers ?d p)) = (\<lambda>p. p_keypairs (d_peers dev p))" by (simp add: fun_eq_iff)
    moreover have "local_index ?d = local_index dev" using old peer(1) by (simp add: fun_eq_iff pristine_def)
    ultimately show ?thesis by (intro index_inv_same [OF that]) simp_all
  qed
  ultimately show ?thesis
    using assms orderly_new_peer [OF o assms(2,3), of C] unfolding new by (auto simp: healthy_def)
qed (use assms in \<open>auto simp: NewPeer_def\<close>)

lemma merge_fields:
  fixes sd dev
  defines "dev' \<equiv> fst (mergeWithDevice sd dev)"
  shows "d_nextPeer dev' = d_nextPeer dev" "d_indexTable dev' = d_indexTable dev" "d_peers dev' = d_peers dev"
    "d_keypairs dev' = d_keypairs dev" "d_nextKeypair dev' = d_nextKeypair dev" "d_env dev' = d_env dev"
    "d_starved dev' = d_starved dev"
  by (simp_all add: dev'_def mergeWithDevice_def Let_def)

lemma healthy_merge:
  assumes "healthy dev" "setting_ok sd"
  shows "healthy (fst (mergeWithDevice sd dev))"
  by (rule healthy_orderly [of dev]) (use assms in \<open>simp_all add: merge_fields orderly_merge healthy_def\<close>)

lemma healthy_routes:
  assumes "healthy dev" "orderly dev \<Longrightarrow> orderly (dev\<lparr>d_allowedips := ips\<rparr>)"
  shows "healthy (dev\<lparr>d_allowedips := ips\<rparr>)"
  by (rule healthy_orderly [of dev]) (use assms in \<open>simp_all add: healthy_def\<close>)

lemma healthy_owner: "owner_invariant C (\<lambda>p. p < n) (\<lambda>dev. healthy dev \<and> d_nextPeer dev = n)"
proof (intro owner_invariant.intro healthy_traffic owner_invariant_axioms.intro)
  note ord = orderly_owner [of C n]
  show "healthy (removePeerLocked kp dev) \<and> d_nextPeer (removePeerLocked kp dev) = n"
    if "healthy dev \<and> d_nextPeer dev = n" "\<And>p'. (fst kp, p') \<in> set (d_keyMap dev) \<Longrightarrow> p' = snd kp" for dev kp
    using healthy_remove [of dev kp] that remove_frame(8) [of kp dev] by simp
  show "healthy (dev\<lparr>d_privateKey := sk, d_publicKey := publicKey C sk, d_cookieChecker := ch\<rparr>) \<and>
      d_nextPeer (dev\<lparr>d_privateKey := sk, d_publicKey := publicKey C sk, d_cookieChecker := ch\<rparr>) = n"
    if "healthy dev \<and> d_nextPeer dev = n" "\<forall>e\<in>set (d_keyMap dev). hs_remoteStatic (handshake dev (snd e)) \<noteq> publicKey C sk"
    for dev sk ch
  proof -
    have "orderly (dev\<lparr>d_privateKey := sk, d_publicKey := publicKey C sk, d_cookieChecker := ch\<rparr>)"
      using owner_invariant.identity [OF ord _ that(2), of ch] that(1) by (simp add: healthy_def)
    then have "healthy (dev\<lparr>d_privateKey := sk, d_publicKey := publicKey C sk, d_cookieChecker := ch\<rparr>)"
      by (rule healthy_orderly [of dev, rotated]) (use that(1) in simp_all)
    then show ?thesis using that(1) by simp
  qed
  show "healthy (fst (mergeWithDevice sd dev)) \<and> d_nextPeer (fst (mergeWithDevice sd dev)) = n"
    if "healthy dev \<and> d_nextPeer dev = n" "setting_ok sd" for dev sd
    using that healthy_merge [of dev sd] by (simp add: merge_fields)
  show "healthy (dev\<lparr>d_allowedips := ips\<rparr>) \<and> d_nextPeer (dev\<lparr>d_allowedips := ips\<rparr>) = n"
    if "healthy dev \<and> d_nextPeer dev = n" "known dev p" "prefix_ok pfx" "Insert (d_allowedips dev) pfx p = Some ips" for dev p pfx ips
    using that(1) healthy_routes [OF _ orderly_insert [OF _ that(2-4)]] by simp
  show "healthy (dev\<lparr>d_allowedips := ips\<rparr>) \<and> d_nextPeer (dev\<lparr>d_allowedips := ips\<rparr>) = n"
    if "healthy dev \<and> d_nextPeer dev = n" "prefix_ok pfx" "Remove (d_allowedips dev) pfx p = Some ips" for dev p pfx ips
    using that(1) healthy_routes [OF _ orderly_drop [OF _ that(2,3)]] by simp
  show "healthy (dev\<lparr>d_allowedips := ips\<rparr>) \<and> d_nextPeer (dev\<lparr>d_allowedips := ips\<rparr>) = n"
    if "healthy dev \<and> d_nextPeer dev = n" "RemoveByPeer (d_allowedips dev) p = Some ips" for dev p ips
    using that(1) healthy_routes [OF _ orderly_drop_all [OF _ that(2)]] by simp
  show "base_ok dev" if "healthy dev \<and> d_nextPeer dev = n" for dev
    using that orderly_base by (simp add: healthy_def)
  show "healthy (dev\<lparr>d_env := e\<rparr>) \<and> d_nextPeer (dev\<lparr>d_env := e\<rparr>) = n"
    if "healthy dev \<and> d_nextPeer dev = n" for dev e
    using that healthy_env [of dev e] by simp
qed (simp_all add: healthy_handshake healthy_expire nextPeer_expire)

interpretation healthy: device_invariant C "\<lambda>n p. p < n" healthy for C
  by (rule device_invariant.intro) (simp_all add: healthy_owner healthy_new_peer)






end
