(* ===== verification/Nonces.thy ===== *)
theory Nonces
  imports Peers IndexInvariant
begin

text \<open>
  No nonce is used twice. Every packet on its way out has a keypair and a nonce below the keypair's
  counter; the counter never goes down and never passes \<open>RejectAfterMessages\<close>; a keypair belongs to
  one peer. Hence packets in the queues have different nonces, and a nonce that has left the queue is
  never given out again, whatever the device does.
\<close>

definition out_nonces :: "Device \<Rightarrow> nat \<Rightarrow> (nat option \<times> u64) list" where
  "out_nonces dev p = concat (map nonces (p_outbound (d_peers dev p)))"

abbreviation send_counter :: "Device \<Rightarrow> nat \<Rightarrow> u64" where
  "send_counter dev k \<equiv> kp_sendNonce (d_keypairs dev k)"

text \<open>\<open>own k\<close> is the peer for which the keypair \<open>k\<close> was made.\<close>

definition nonces_ok :: "(nat \<Rightarrow> nat) \<Rightarrow> Device \<Rightarrow> bool" where
  "nonces_ok own dev \<longleftrightarrow>
     (\<forall>p. distinct (out_nonces dev p)) \<and>
     (\<forall>p kk n. (kk, n) \<in> set (out_nonces dev p) \<longrightarrow>
        (\<exists>k < d_nextKeypair dev. kk = Some k \<and> own k = p \<and> n < send_counter dev k)) \<and>
     (\<forall>p. \<forall>k \<in> held dev p. k < d_nextKeypair dev \<and> own k = p) \<and>
     (\<forall>k. send_counter dev k \<le> RejectAfterMessages)"

text \<open>
  What a later state has to do with an earlier one, which had \<open>m\<close> keypairs with the counters \<open>B\<close> and
  the nonces \<open>S\<close> in its queues.
\<close>

definition since :: "(nat \<times> u64) set \<Rightarrow> (nat \<Rightarrow> u64) \<Rightarrow> nat \<Rightarrow> Device \<Rightarrow> bool" where
  "since S B m dev \<longleftrightarrow>
     m \<le> d_nextKeypair dev \<and> (\<forall>k < m. B k \<le> send_counter dev k) \<and>
     (\<forall>p k n. (Some k, n) \<in> set (out_nonces dev p) \<longrightarrow> k < m \<longrightarrow> (k, n) \<in> S \<or> B k \<le> n)"

definition numbering :: "(nat \<times> u64) set \<Rightarrow> (nat \<Rightarrow> u64) \<Rightarrow> nat \<Rightarrow> Device \<Rightarrow> bool" where
  "numbering S B m dev \<longleftrightarrow> orderly dev \<and> (\<exists>own. nonces_ok own dev) \<and> since S B m dev"

subsection \<open>Steps that hand out nothing\<close>

definition narrower :: "Device \<Rightarrow> Device \<Rightarrow> bool" where
  "narrower dev dev' \<longleftrightarrow>
     d_nextKeypair dev' = d_nextKeypair dev \<and>
     (\<forall>k. send_counter dev k \<le> RejectAfterMessages \<longrightarrow>
        send_counter dev k \<le> send_counter dev' k \<and> send_counter dev' k \<le> RejectAfterMessages) \<and>
     (\<forall>p. held dev' p \<subseteq> held dev p) \<and>
     (\<forall>p. set (out_nonces dev' p) \<subseteq> set (out_nonces dev p) \<and> (distinct (out_nonces dev p) \<longrightarrow> distinct (out_nonces dev' p)))"

lemma narrower_refl [simp]: "narrower dev dev"
  by (simp add: narrower_def)

lemma narrower_trans: "narrower a b \<Longrightarrow> narrower b c \<Longrightarrow> narrower a c"
  unfolding narrower_def by (fastforce intro: order_trans)

lemma narrower_nonces:
  assumes "narrower dev dev'" "nonces_ok own dev"
  shows "nonces_ok own dev'"
proof -
  have "\<exists>k < d_nextKeypair dev'. kk = Some k \<and> own k = p \<and> n < send_counter dev' k"
    if "(kk, n) \<in> set (out_nonces dev' p)" for p kk n
  proof -
    have "(kk, n) \<in> set (out_nonces dev p)" using assms(1) that by (auto simp: narrower_def)
    then obtain k where "k < d_nextKeypair dev" "kk = Some k" "own k = p" "n < send_counter dev k"
      using assms(2) unfolding nonces_ok_def by blast
    moreover have "send_counter dev k \<le> send_counter dev' k" using assms by (auto simp: narrower_def nonces_ok_def)
    ultimately show ?thesis using assms(1) unfolding narrower_def by (metis order_less_le_trans)
  qed
  then show ?thesis using assms by (fastforce simp: narrower_def nonces_ok_def)
qed

lemma narrower_since:
  assumes "narrower dev dev'" "nonces_ok own dev" "since S B m dev"
  shows "since S B m dev'"
proof -
  have "B k \<le> send_counter dev' k" if "k < m" for k
    using assms that unfolding narrower_def nonces_ok_def since_def by (meson order_trans)
  then show ?thesis using assms(1,3) by (fastforce simp: narrower_def since_def)
qed

lemma numbering_narrower: "numbering S B m dev \<Longrightarrow> orderly dev' \<Longrightarrow> narrower dev dev' \<Longrightarrow> numbering S B m dev'"
  unfolding numbering_def using narrower_nonces narrower_since by blast

named_theorems narrows

lemma narrower_plain [narrows, simp]:
  "narrower dev (dev\<lparr>d_env := e\<rparr>)" "narrower dev (dev\<lparr>d_sent := out\<rparr>)" "narrower dev (dev\<lparr>d_written := wr\<rparr>)"
  "narrower dev (dev\<lparr>d_handshakeQueue := hq\<rparr>)" "narrower dev (dev\<lparr>d_limiter := lim\<rparr>)"
  "narrower dev (dev\<lparr>d_cookieChecker := ch\<rparr>)" "narrower dev (dev\<lparr>d_underLoadUntil := u\<rparr>)"
  "narrower dev (dev\<lparr>d_starved := b\<rparr>)" "narrower dev (dev\<lparr>d_indexTable := tab\<rparr>)" "narrower dev (panic dev)"
  "narrower dev (index_Delete i dev)" "narrower dev (DeleteKeypair kp dev)" "narrower dev (SwapIndexForKeypair i k dev)"
  "narrower dev (dev\<lparr>d_bindOpen := b\<rparr>)" "narrower dev (dev\<lparr>d_port := po\<rparr>)" "narrower dev (dev\<lparr>d_fwmark := fw\<rparr>)"
  "narrower dev (dev\<lparr>d_mtu := z\<rparr>)" "narrower dev (dev\<lparr>d_state := st\<rparr>)" "narrower dev (dev\<lparr>d_junk := j\<rparr>)"
  "narrower dev (dev\<lparr>d_ipackets := cs\<rparr>)" "narrower dev (dev\<lparr>d_contentPaddingAddition := r\<rparr>)"
  "narrower dev (dev\<lparr>d_timings := ts\<rparr>)" "narrower dev (dev\<lparr>d_allowedips := ips\<rparr>)" "narrower dev (dev\<lparr>d_keyMap := km\<rparr>)"
  "narrower dev (dev\<lparr>d_privateKey := sk, d_publicKey := pk, d_cookieChecker := ch\<rparr>)"
  by (simp_all add: narrower_def out_nonces_def panic_def index_Delete_def DeleteKeypair_def SwapIndexForKeypair_def
      split: option.splits)

lemma narrower_peer:
  assumes "slots (p_keypairs (f (d_peers dev p))) \<subseteq> held dev p"
    and "map nonces (p_outbound (f (d_peers dev p))) = map nonces (drop i (p_outbound (d_peers dev p)))"
  shows "narrower dev (upd_peer p f dev)"
proof -
  have "out_nonces dev p = concat (map nonces (take i (p_outbound (d_peers dev p)))) @
      concat (map nonces (drop i (p_outbound (d_peers dev p))))"
    unfolding out_nonces_def concat_append [symmetric] map_append [symmetric] append_take_drop_id by (rule refl)
  moreover have "out_nonces (upd_peer p f dev) p = concat (map nonces (drop i (p_outbound (d_peers dev p))))"
    by (simp add: out_nonces_def assms(2))
  ultimately have "set (out_nonces (upd_peer p f dev) p) \<subseteq> set (out_nonces dev p)"
    "distinct (out_nonces dev p) \<longrightarrow> distinct (out_nonces (upd_peer p f dev) p)" by simp_all
  moreover have "out_nonces (upd_peer p f dev) q = out_nonces dev q" if "q \<noteq> p" for q
    using that by (simp add: out_nonces_def)
  ultimately show ?thesis
    using assms(1) unfolding narrower_def by simp (metis order_refl)
qed

lemma narrower_same_peer [narrows]:
  assumes "p_keypairs (f (d_peers dev p)) = p_keypairs (d_peers dev p)" "p_outbound (f (d_peers dev p)) = p_outbound (d_peers dev p)"
  shows "narrower dev (upd_peer p f dev)"
  by (rule narrower_peer [of _ _ _ 0]) (simp_all add: assms)

lemma narrower_handshake [narrows, simp]: "narrower dev (upd_handshake p f dev)"
  by (simp add: upd_handshake_def narrower_same_peer)

lemma narrower_keypairs: "slots (f (p_keypairs (d_peers dev p))) \<subseteq> held dev p \<Longrightarrow> narrower dev (upd_keypairs p f dev)"
  by (simp add: upd_keypairs_def narrower_peer [of _ _ _ 0])

lemma narrower_keypair [narrows]:
  assumes "kp_sendNonce (f (d_keypairs dev k)) = send_counter dev k \<or> kp_sendNonce (f (d_keypairs dev k)) = RejectAfterMessages"
  shows "narrower dev (upd_keypair k f dev)"
  using assms by (auto simp: narrower_def out_nonces_def)

lemmas narrower_step = narrower_trans [OF _ narrower_handshake] narrower_trans [OF _ narrower_plain(1)]
  narrower_trans [OF _ narrower_plain(8)] narrower_trans [OF _ narrower_plain(9)] narrower_trans [OF _ narrower_plain(11)]
  narrower_trans [OF _ narrower_plain(12)] narrower_trans [OF _ narrower_plain(13)]

lemma narrower_draws:
  "narrower a dev \<Longrightarrow> narrower a (snd (rand_Read n dev))" "narrower a dev \<Longrightarrow> narrower a (snd (pick_one r dev))"
  "narrower a dev \<Longrightarrow> NewIndexForHandshake p dev = Some (j, dev') \<Longrightarrow> narrower a dev'"
proof -
  show "narrower a dev \<Longrightarrow> narrower a (snd (rand_Read n dev))" "narrower a dev \<Longrightarrow> narrower a (snd (pick_one r dev))"
    by (auto simp: rand_Read_def rand_word_def pick_one_def split_beta narrower_step split: list.splits)
  assume "narrower a dev" "NewIndexForHandshake p dev = Some (j, dev')"
  moreover then have "narrower dev dev'"
    by (auto simp: NewIndexForHandshake_def narrower_def out_nonces_def split: option.splits)
  ultimately show "narrower a dev'" by (blast intro: narrower_trans)
qed

lemma narrower_CreateMessageInitiation [narrows]: "narrower dev (fst (CreateMessageInitiation C p dev))"
proof -
  obtain b d1 where 1: "rand_Read 32 dev = (b, d1)" by force
  obtain w d2 where 2: "pick_one (h_init (d_headers d1)) d1 = (w, d2)" by force
  obtain h x where 3: "initiation_seal C (clamp b) (d_publicKey d2) (stamp (time_of (now d2))) (handshake d2 p) = (h, x)" by force
  define D where "D = index_Delete (hs_localIndex h) (upd_handshake p (\<lambda>_. h) d2)"
  have d2: "narrower dev d2"
    using narrower_draws(1) [of dev dev 32] narrower_draws(2) [of dev d1 "h_init (d_headers d1)"] 1 2 by simp
  have D: "narrower dev D" unfolding D_def by (intro narrower_step d2)
  show ?thesis
    using narrower_step(1) [OF d2] narrower_step(3) [OF D] narrower_step(1) [OF narrower_draws(3) [OF D]]
    by (auto simp: CreateMessageInitiation_def 1 2 3 Let_def simp flip: D_def split: sum.splits option.splits)
qed

lemma narrower_CreateMessageResponse [narrows]: "narrower dev (fst (CreateMessageResponse C p dev))"
proof (cases "hs_state (handshake dev p) = handshakeInitiationConsumed")
  case True
  define D where "D = index_Delete (hs_localIndex (handshake dev p)) dev"
  have D: "narrower dev D" by (simp add: D_def)
  have "narrower dev (upd_handshake p g (snd (rand_Read 32 (snd (pick_one r (upd_handshake p f d))))))"
    if "NewIndexForHandshake p D = Some (i, d)" for f g r i d
    by (intro narrower_step narrower_draws(1,2) narrower_draws(3) [OF D that])
  then show ?thesis
    using True narrower_step(3) [OF D]
    by (auto simp: CreateMessageResponse_def Let_def split_beta simp flip: D_def split: sum.splits option.splits)
qed (simp add: CreateMessageResponse_def)

lemma narrower_consume [narrows]:
  "narrower dev (fst (ConsumeMessageInitiation C im dev))" "narrower dev (fst (ConsumeMessageResponse C rm dev))"
  by (auto simp: ConsumeMessageInitiation_def ConsumeMessageResponse_def Let_def split: option.splits)

lemma narrower_ReceivedWithKeypair [narrows]: "narrower dev (fst (ReceivedWithKeypair p k dev))"
  by (auto simp: ReceivedWithKeypair_def Let_def narrower_def out_nonces_def slots_def upd_keypairs_def DeleteKeypair_def
      index_Delete_def split: option.splits)

lemma narrower_ZeroAndFlushAll [narrows]: "narrower dev (ZeroAndFlushAll p dev)"
  by (auto simp: ZeroAndFlushAll_def FlushStagedPackets_def Let_def narrower_def out_nonces_def slots_def upd_keypairs_def
      upd_handshake_def DeleteKeypair_def index_Delete_def split: option.splits)

lemma narrower_ExpireCurrentKeypairs [narrows]: "narrower dev (ExpireCurrentKeypairs p dev)"
proof -
  have "narrower a d \<Longrightarrow> narrower a (spend k d)" for a d k
    by (erule narrower_trans) (auto simp: spend_def intro: narrower_keypair split: option.splits)
  note spend = this
  show ?thesis unfolding ExpireCurrentKeypairs_def Let_def by (intro spend narrower_step narrower_refl)
qed

lemma narrower_Stop [narrows]: "narrower dev (Stop p dev)"
proof -
  have "narrower dev (timersStop p (upd_peer p (\<lambda>peer. peer\<lparr>p_isRunning := False\<rparr>) dev))"
    by (rule narrower_trans [of _ "upd_peer p (\<lambda>peer. peer\<lparr>p_isRunning := False\<rparr>) dev"])
      (simp_all add: narrower_same_peer timersStop_def upd_timers_def)
  then show ?thesis using narrower_trans [OF _ narrower_ZeroAndFlushAll] by (simp add: Stop_def Let_def)
qed

lemma narrower_remove [narrows]: "narrower dev (removePeerLocked kp dev)"
  unfolding removePeerLocked_def Let_def
  by (cases "RemoveByPeer (d_allowedips dev) (snd kp)")
    (auto intro: narrower_trans [OF narrower_trans [OF narrower_plain(23) narrower_Stop] narrower_plain(24)])

lemma narrower_merge [narrows]: "narrower dev (fst (mergeWithDevice sd dev))"
  by (simp add: mergeWithDevice_def Let_def narrower_def out_nonces_def)

lemma narrower_NewPeer [narrows]: "narrower dev (fst (NewPeer C pk dev))"
  by (auto simp: NewPeer_def Let_def narrower_def out_nonces_def zero_peer_def slots_def)

subsection \<open>Handing out nonces\<close>

lemma assign_nonces_kept:
  assumes "assign_nonces k n elems = (n', kept, ooo)" "n \<le> RejectAfterMessages"
  shows "n \<le> n' \<and> n' \<le> RejectAfterMessages \<and> distinct (map oe_nonce kept) \<and>
     (\<forall>el \<in> set kept. oe_keypair el = Some k \<and> n \<le> oe_nonce el \<and> oe_nonce el < n')"
  using assms
proof (induction elems arbitrary: n n' kept ooo)
  case (Cons el elems)
  show ?case
  proof (cases "n \<ge> RejectAfterMessages")
    case True
    then show ?thesis using Cons.prems by auto
  next
    case False
    obtain m ks os where r: "assign_nonces k (n + 1) elems = (m, ks, os)" by (metis prod_cases3)
    have n: "n < RejectAfterMessages" using False by simp
    then have "unat n < 2 ^ 64 - 2 ^ 13 - 1" by (simp add: word_less_nat_alt RejectAfterMessages_def)
    then have "unat (n + 1) = Suc (unat n)" by (simp add: unat_word_ariths)
    then have le: "n + 1 \<le> RejectAfterMessages" "n < n + 1" using n by (simp_all add: word_less_nat_alt word_le_nat_alt)
    have eq: "n' = m" "kept = el\<lparr>oe_nonce := n, oe_keypair := Some k\<rparr> # ks"
      using Cons.prems(1) False r by (simp_all add: Let_def del: not_le)
    note IH = Cons.IH [OF r le(1)]
    have "n < m" using IH le(2) by (blast intro: order_less_le_trans)
    moreover have "n < oe_nonce x" if "x \<in> set ks" for x using IH le(2) that by (blast intro: order_less_le_trans)
    ultimately show ?thesis using IH unfolding eq by (auto intro: less_imp_le)
  qed
qed simp


lemma numbering_handed:
  assumes "numbering S B m dev" "Current p dev = Some k"
  shows "numbering S B m (fst (hand_out p k c dev))"
proof -
  obtain n' kept ooo where a: "assign_nonces k (send_counter dev k) (oc_elems c) = (n', kept, ooo)" by (metis prod_cases3)
  define D where "D = upd_keypair k (\<lambda>kp. kp\<lparr>kp_sendNonce := n'\<rparr>) dev"
  define E where "E = (if ooo \<noteq> [] then StagePackets p \<lparr>oc_locked = False, oc_elems = ooo\<rparr> D else D)"
  define F where "F = fst (hand_out p k c dev)"
  have F: "F = (if kept \<noteq> [] \<and> p_isRunning (d_peers E p)
      then upd_peer p (\<lambda>peer. peer\<lparr>p_outbound := p_outbound peer @ [\<lparr>oc_locked = True, oc_elems = kept\<rparr>]\<rparr>) E else E)"
    unfolding F_def hand_out_def a Let_def prod.case D_def E_def fst_conv by (rule refl)
  obtain own where own: "nonces_ok own dev" and sn: "since S B m dev" using assms(1) by (auto simp: numbering_def)
  have le: "send_counter dev k \<le> RejectAfterMessages" using own by (simp add: nonces_ok_def)
  have k: "k < d_nextKeypair dev" "own k = p"
    using own assms(2) by (auto simp: nonces_ok_def slots_def Current_def)
  have new: "d_nextKeypair F = d_nextKeypair dev" "send_counter F l = (if l = k then n' else send_counter dev l)"
    "held F q = held dev q"
    "out_nonces F q = out_nonces dev q \<or> q = p \<and> out_nonces F q = out_nonces dev q @ map (\<lambda>el. (oe_keypair el, oe_nonce el)) kept" for l q
    by (auto simp: F E_def D_def StagePackets_def out_nonces_def nonces_def)
  note A = assign_nonces_kept [OF a le]
  have "\<exists>l < d_nextKeypair F. kk = Some l \<and> own l = q \<and> n < send_counter F l" if "(kk, n) \<in> set (out_nonces F q)" for kk n q
  proof (cases "(kk, n) \<in> set (out_nonces dev q)")
    case True
    then obtain l where "l < d_nextKeypair dev" "kk = Some l" "own l = q" "n < send_counter dev l"
      using own unfolding nonces_ok_def by blast
    then show ?thesis using A unfolding new by (auto intro: order_less_le_trans)
  next
    case False
    then have "q = p" "kk = Some k" "n < n'" using that new(4) [of q] A by auto
    then show ?thesis using k by (auto simp: new)
  qed
  moreover have "distinct (out_nonces F q)" for q
  proof -
    have "(Some k, n) \<notin> set (out_nonces dev q)" if "send_counter dev k \<le> n" for n
      using own that unfolding nonces_ok_def by (metis not_less option.inject)
    moreover have "distinct (out_nonces dev q)" using own by (simp add: nonces_ok_def)
    moreover have "distinct (map (\<lambda>el. (oe_keypair el, oe_nonce el)) kept)" using A by (auto simp: distinct_map inj_on_def)
    ultimately show ?thesis using A new(4) [of q] by (auto simp: disjoint_iff)
  qed
  moreover have "(\<forall>l \<in> held F q. l < d_nextKeypair F \<and> own l = q)" "send_counter F l \<le> RejectAfterMessages" for q l
    using own A unfolding nonces_ok_def by (auto simp: new(1-3))
  ultimately have "nonces_ok own F" unfolding nonces_ok_def by blast
  moreover have "(l, n) \<in> S \<or> B l \<le> n" if "(Some l, n) \<in> set (out_nonces F q)" "l < m" for q l n
  proof (cases "(Some l, n) \<in> set (out_nonces dev q)")
    case True
    then show ?thesis using sn that(2) unfolding since_def by blast
  next
    case False
    then have "l = k" "send_counter dev k \<le> n" using that(1) new(4) [of q] A by auto
    then show ?thesis using sn that(2) unfolding since_def by (meson order_trans)
  qed
  moreover have "B l \<le> send_counter F l" if "l < m" for l
  proof -
    have "B l \<le> send_counter dev l" using sn that unfolding since_def by blast
    then show ?thesis using A by (auto simp: new(2) intro: order_trans)
  qed
  ultimately have "nonces_ok own F" "since S B m F" using sn by (simp_all add: since_def new(1))
  moreover have "orderly F" using assms(1) by (auto simp: numbering_def F_def intro: orderly_settled [OF settled_queues])
  ultimately show ?thesis by (auto simp: numbering_def F_def)
qed


subsection \<open>New keypairs\<close>

lemma rotate_view:
  "d_nextKeypair (rotate p kp isI dev) = d_nextKeypair dev" "d_keypairs (rotate p kp isI dev) = d_keypairs dev"
  "out_nonces (rotate p kp isI dev) q = out_nonces dev q"
  "held (rotate p kp isI dev) q \<subseteq> held dev q \<union> (if q = p then {kp} else {})"
  by (auto simp: rotate_def Let_def out_nonces_def slots_def upd_keypairs_def DeleteKeypair_def index_Delete_def split: option.splits)

lemma session_view:
  fixes C p dev
  defines "F \<equiv> fst (BeginSymmetricSession C p dev)"
  obtains "F = dev"
  | "d_nextKeypair F = Suc (d_nextKeypair dev)" "send_counter F (d_nextKeypair dev) = 0"
    "\<And>k. k \<noteq> d_nextKeypair dev \<Longrightarrow> send_counter F k = send_counter dev k" "\<And>q. out_nonces F q = out_nonces dev q"
    "\<And>q. held F q \<subseteq> held dev q \<union> (if q = p then {d_nextKeypair dev} else {})"
proof (cases "session_keys C (handshake dev p)")
  case None
  then show ?thesis using that(1) by (simp add: F_def BeginSymmetricSession_def)
next
  case (Some x)
  obtain sk rk isI where x: "x = (sk, rk, isI)" by (cases x)
  define E where "E = upd_handshake p (\<lambda>h. h\<lparr>hs_chainKey := setZero (hs_chainKey h), hs_hash := setZero (hs_hash h),
                      hs_localEphemeral := setZero (hs_localEphemeral h), hs_state := handshakeZeroed\<rparr>) dev"
  define kp where "kp = new_keypair sk rk isI (now E) (handshake E p)"
  define G where "G = E\<lparr>d_nextKeypair := d_nextKeypair E + 1, d_keypairs := (d_keypairs E)(d_nextKeypair E := kp)\<rparr>"
  define H where "H = upd_handshake p (\<lambda>h. h\<lparr>hs_localIndex := 0\<rparr>)
     (SwapIndexForKeypair (hs_localIndex (handshake G p)) (d_nextKeypair E) G)"
  have F: "F = rotate p (d_nextKeypair E) isI H"
    using Some by (simp add: F_def BeginSymmetricSession_def x Let_def E_def G_def H_def kp_def)
  have E: "d_nextKeypair E = d_nextKeypair dev" "d_keypairs E = d_keypairs dev" by (simp_all add: E_def upd_handshake_def)
  have H: "d_nextKeypair H = Suc (d_nextKeypair dev)" "d_keypairs H = (d_keypairs dev)(d_nextKeypair dev := kp)"
    "out_nonces H q = out_nonces dev q" "held H q = held dev q" for q
    by (simp_all add: H_def G_def E SwapIndexForKeypair_def upd_handshake_def out_nonces_def split: option.splits)
      (simp_all add: E_def upd_handshake_def)
  show ?thesis
    using rotate_view(4) [of p "d_nextKeypair dev" isI H]
    by (intro that(2)) (simp_all add: F rotate_view E H kp_def new_keypair_def)
qed

lemma numbering_session:
  assumes "numbering S B m dev"
  shows "numbering S B m (fst (BeginSymmetricSession C p dev))"
proof (cases C p dev rule: session_view)
  case 2
  let ?F = "fst (BeginSymmetricSession C p dev)" and ?k = "d_nextKeypair dev"
  obtain own where own: "nonces_ok own dev" and sn: "since S B m dev" using assms by (auto simp: numbering_def)
  have old: "\<exists>k < ?k. kk = Some k \<and> own k = q \<and> n < send_counter ?F k" if "(kk, n) \<in> set (out_nonces dev q)" for kk n q
  proof -
    note queued = that
    obtain k where "k < ?k" "kk = Some k" "own k = q" "n < send_counter dev k"
      using own queued unfolding nonces_ok_def by blast
    then show ?thesis using 2(3) [of k] by auto
  qed
  have "\<exists>k < Suc ?k. kk = Some k \<and> (own(?k := p)) k = q \<and> n < send_counter ?F k" if "(kk, n) \<in> set (out_nonces dev q)" for kk n q
    using old [OF that] by (auto intro: less_SucI)
  moreover have "k < Suc ?k \<and> (own(?k := p)) k = q" if "k \<in> held ?F q" for k q
  proof (cases "k \<in> held dev q")
    case True
    then show ?thesis using own unfolding nonces_ok_def by fastforce
  next
    case False
    then show ?thesis using 2(5) [of q] that by (auto split: if_splits)
  qed
  moreover have "send_counter ?F k \<le> RejectAfterMessages" for k
    using own 2(2,3) by (cases "k = ?k") (simp_all add: nonces_ok_def)
  ultimately have "nonces_ok (own(?k := p)) ?F" using own unfolding nonces_ok_def by (simp add: 2(1,4))
  moreover have "since S B m ?F" using sn 2(3) unfolding since_def by (auto simp: 2(1,4))
  moreover have "orderly ?F" using assms by (auto simp: numbering_def intro: orderly_settled [OF settled_sessions(1)])
  ultimately show ?thesis by (auto simp: numbering_def)
qed (simp add: assms)


subsection \<open>Every handler keeps it\<close>

lemma numbering_settled:
  "numbering S B m dev \<Longrightarrow> settled dev' = settled dev \<Longrightarrow> narrower dev dev' \<Longrightarrow> numbering S B m dev'"
  by (rule numbering_narrower) (auto simp: numbering_def orderly_settled)

lemma numbering_next:
  assumes "numbering S B m dev \<and> d_nextPeer dev = n" "settled dev' = settled dev" "narrower dev dev'"
  shows "numbering S B m dev' \<and> d_nextPeer dev' = n"
  using numbering_settled [OF _ assms(2,3)] settledD(10) [OF assms(2)] assms(1) by simp

lemma encrypted_nonces:
  "p_outbound (d_peers dev p) = q \<Longrightarrow> i < length q \<Longrightarrow> nonces c = nonces (q ! i) \<Longrightarrow>
     narrower dev (upd_peer p (\<lambda>peer. peer\<lparr>p_outbound := q[i := c]\<rparr>) dev)"
  by (rule narrower_peer [of _ _ _ 0]) (simp_all add: map_update list_update_same_conv)

lemma numbering_traffic: "traffic_invariant C (\<lambda>_. True) (\<lambda>dev. numbering S B m dev \<and> d_nextPeer dev = n)"
proof unfold_locales
  let ?Q = "\<lambda>dev. numbering S B m dev \<and> d_nextPeer dev = n"
  show "?Q (fst (hand_out p k c dev))" if "?Q dev" "Current p dev = Some k" for dev p k c
    using that numbering_handed [of S B m dev p k c] settledD(10) [OF settled_queues] by simp
  show "?Q (fst (BeginSymmetricSession C p dev))" if "?Q dev" for dev p
    using that numbering_session [of S B m dev C p] settledD(10) [OF settled_sessions(1)] by simp
  show "?Q (upd_peer p f dev)" if "?Q dev" "quiet_peer (d_peers dev p) (f (d_peers dev p))" for dev p f
    by (rule numbering_next [OF that(1)]) (use that(2) in \<open>simp_all add: quiet_peer_def settles narrower_same_peer\<close>)
  show "?Q (upd_peer p (\<lambda>peer. peer\<lparr>p_inbound := [], p_outbound := [], p_isRunning := b\<rparr>) dev)" if "?Q dev" for p dev b
    by (rule numbering_next [OF that]) (simp_all add: settles narrower_peer [of _ _ _ "length (p_outbound (d_peers dev p))"])
  show "?Q (upd_peer p (\<lambda>peer. peer\<lparr>p_outbound := rest\<rparr>) dev)"
    if "?Q dev" "p_outbound (d_peers dev p) = c # rest" for dev p c rest
    by (rule numbering_next [OF that(1)]) (use that(2) in \<open>simp_all add: settles narrower_peer [of _ _ _ 1]\<close>)
  show "?Q (upd_peer p (\<lambda>peer. peer\<lparr>p_outbound := q[i := c]\<rparr>) dev)"
    if "?Q dev" "p_outbound (d_peers dev p) = q" "i < length q" "nonces c = nonces (q ! i)" for dev p q i c
    by (rule numbering_next [OF that(1)]) (use that(2-4) in \<open>simp_all add: settles encrypted_nonces\<close>)
qed (rule TrueI | erule numbering_next, simp add: settles statics_def, simp add: narrows)+


lemma numbering_orderly:
  assumes "numbering S B m dev \<and> d_nextPeer dev = n" "orderly dev \<Longrightarrow> orderly dev'" "d_nextPeer dev' = d_nextPeer dev" "narrower dev dev'"
  shows "numbering S B m dev' \<and> d_nextPeer dev' = n"
  using numbering_narrower [OF _ _ assms(4)] assms(1-3) by (auto simp: numbering_def)

lemma nextPeer_merge: "d_nextPeer (fst (mergeWithDevice sd dev)) = d_nextPeer dev"
  by (simp add: mergeWithDevice_def Let_def)

lemma numbering_owner: "owner_invariant C (\<lambda>_. True) (\<lambda>dev. numbering S B m dev \<and> d_nextPeer dev = n)"
proof (intro owner_invariant.intro numbering_traffic owner_invariant_axioms.intro)
  let ?Q = "\<lambda>dev. numbering S B m dev \<and> d_nextPeer dev = n"
  show "base_ok dev" if "?Q dev" for dev using that by (simp add: numbering_def orderly_base)
  show "?Q (removePeerLocked kp dev)" if "?Q dev" "\<And>p'. (fst kp, p') \<in> set (d_keyMap dev) \<Longrightarrow> p' = snd kp" for dev kp
    using orderly_remove [of dev kp] that(2)
    by (intro numbering_orderly [OF that(1)]) (simp_all add: remove_frame narrower_remove)
  show "?Q (dev\<lparr>d_privateKey := sk, d_publicKey := publicKey C sk, d_cookieChecker := ch\<rparr>)"
    if "?Q dev" "\<forall>e\<in>set (d_keyMap dev). hs_remoteStatic (handshake dev (snd e)) \<noteq> publicKey C sk" for dev sk ch
    using orderly.numbered.identity [of dev "d_nextPeer dev" C sk ch] that(2) by (intro numbering_orderly [OF that(1)]) simp_all
  show "?Q (dev\<lparr>d_allowedips := ips\<rparr>)"
    if "?Q dev" "known dev p" "prefix_ok pfx" "Insert (d_allowedips dev) pfx p = Some ips" for dev p pfx ips
    using orderly_insert [OF _ that(2-4)] by (intro numbering_orderly [OF that(1)]) simp_all
  show "?Q (dev\<lparr>d_allowedips := ips\<rparr>)" if "?Q dev" "prefix_ok pfx" "Remove (d_allowedips dev) pfx p = Some ips" for dev pfx p ips
    using orderly_drop [OF _ that(2,3)] by (intro numbering_orderly [OF that(1)]) simp_all
  show "?Q (dev\<lparr>d_allowedips := ips\<rparr>)" if "?Q dev" "RemoveByPeer (d_allowedips dev) p = Some ips" for dev p ips
    using orderly_drop_all [OF _ that(2)] by (intro numbering_orderly [OF that(1)]) simp_all
  show "?Q (fst (mergeWithDevice sd dev))" if "?Q dev" "setting_ok sd" for dev sd
    using orderly_merge [OF _ that(2)] by (intro numbering_orderly [OF that(1)]) (simp_all add: narrower_merge nextPeer_merge)
  show "?Q (ExpireCurrentKeypairs p dev)" if "?Q dev" for p dev
    by (rule numbering_orderly [OF that]) (simp_all add: orderly_expire nextPeer_expire narrower_ExpireCurrentKeypairs)
qed (erule numbering_orderly, simp add: orderly_statics, simp add: nextPeer_handshake, simp)+

interpretation numbering: device_invariant C "\<lambda>_ _. True" "numbering S B m" for C S B m
proof (rule device_invariant.intro)
  show "numbering S B m (fst (NewPeer C pk dev))" if "numbering S B m dev" "pk \<noteq> d_publicKey dev" "length pk = 32" for dev pk
    by (rule numbering_narrower [OF that(1)]) (use that orderly_new_peer in \<open>auto simp: numbering_def narrower_NewPeer\<close>)
qed (simp_all add: numbering_owner)


subsection \<open>Properties\<close>

lemma NewDevice_numbering:
  assumes "NewDevice mtu env = Some dev"
  shows "numbering S B 0 dev"
proof -
  have "nonces_ok own dev" for own
    using assms by (auto simp: NewDevice_def zero_device_def index_Init_def nonces_ok_def out_nonces_def zero_peer_def slots_def
        new_keypair_def split: bind_splits)
  then show ?thesis
    using NewDevice_orderly [OF assms] assms
    by (auto simp: numbering_def since_def NewDevice_def zero_device_def index_Init_def split: bind_splits)
qed

text \<open>The packets on their way out of all the peers, each with its keypair and nonce.\<close>

definition queued :: "Device \<Rightarrow> (nat \<times> u64) set" where
  "queued dev = {(k, n). \<exists>p. (Some k, n) \<in> set (out_nonces dev p)}"

text \<open>C9: In every state that a device reaches, the packets in the outbound queues have pairwise
  different pairs of keypair and nonce, within a queue and across the peers; each nonce is below the
  keypair's counter, which is at most \<open>RejectAfterMessages\<close>.\<close>

theorem device_nonces_distinct:
  assumes "NewDevice mtu env = Some dev0" "dev = device_run C calls dev0"
  shows "distinct (out_nonces dev p) \<and> (p \<noteq> q \<longrightarrow> set (out_nonces dev p) \<inter> set (out_nonces dev q) = {}) \<and>
    (\<forall>(k, n) \<in> queued dev. n < send_counter dev k \<and> send_counter dev k \<le> RejectAfterMessages)"
proof -
  have "numbering {} (\<lambda>_. 0) 0 dev"
    unfolding assms(2) by (rule numbering.run_keeps [OF NewDevice_numbering [OF assms(1)]])
  then obtain own where own: "nonces_ok own dev" by (auto simp: numbering_def)
  have "own k = r" if "(Some k, n) \<in> set (out_nonces dev r)" for k n r
    using own that unfolding nonces_ok_def by blast
  moreover have "kk \<noteq> None" if "(kk, n) \<in> set (out_nonces dev r)" for kk n r
    using own that unfolding nonces_ok_def by blast
  ultimately have "p = q" if "x \<in> set (out_nonces dev p)" "x \<in> set (out_nonces dev q)" for x
    using that by (metis not_None_eq prod.exhaust)
  moreover have "n < send_counter dev k" if "(Some k, n) \<in> set (out_nonces dev r)" for k n r
    using own that unfolding nonces_ok_def by blast
  ultimately show ?thesis using own by (auto simp: nonces_ok_def queued_def)
qed

text \<open>C3: A nonce that a keypair has given out and that has left the queues, because the packet was
  sent or dropped, is never queued again, whatever the device does from then on: no two packets are
  encrypted with the same key and nonce.\<close>

theorem nonce_never_reused:
  assumes "NewDevice mtu env = Some dev0" "dev = device_run C calls0 dev0"
  shows "queued (device_run C calls dev) \<inter> {(k, n). k < d_nextKeypair dev \<and> n < send_counter dev k} \<subseteq> queued dev"
proof -
  have "numbering {} (\<lambda>_. 0) 0 dev"
    unfolding assms(2) by (rule numbering.run_keeps [OF NewDevice_numbering [OF assms(1)]])
  then have "numbering (queued dev) (send_counter dev) (d_nextKeypair dev) dev"
    by (auto simp: numbering_def since_def queued_def)
  then have "numbering (queued dev) (send_counter dev) (d_nextKeypair dev) (device_run C calls dev)"
    by (rule numbering.run_keeps)
  then show ?thesis by (fastforce simp: numbering_def since_def queued_def not_le [symmetric])
qed

theorem device_nonces_distinct_witness:
  "distinct (out_nonces (device_run demo_crypto sample_calls sample_device) 0) \<and>
   queued (device_run demo_crypto sample_calls sample_device) \<subseteq>
     {(k, n). n < send_counter (device_run demo_crypto sample_calls sample_device) k}"
  using device_nonces_distinct [OF sample_ok refl] by fastforce

theorem nonce_never_reused_witness:
  "queued (device_run demo_crypto sample_calls (device_run demo_crypto sample_calls sample_device)) \<inter>
     {(k, n). k < d_nextKeypair (device_run demo_crypto sample_calls sample_device) \<and>
        n < send_counter (device_run demo_crypto sample_calls sample_device) k}
   \<subseteq> queued (device_run demo_crypto sample_calls sample_device)"
  by (rule nonce_never_reused [OF sample_ok refl])

end
