(* ===== verification/Closing.thy ===== *)
theory Closing
  imports Peers
begin

text \<open>
  A closed device stays closed. Closing removes every peer and with it every route; no call brings the
  device up again or adds a peer, so that nothing is forwarded in either direction any more.
\<close>

definition finished :: "Device \<Rightarrow> bool" where
  "finished dev \<longleftrightarrow> orderly dev \<and> isClosed dev \<and> d_keyMap dev = []"

lemma finished_same:
  assumes "finished dev" "orderly dev \<Longrightarrow> orderly dev'" "d_state dev' = d_state dev" "d_keyMap dev' = d_keyMap dev"
    "d_nextPeer dev' = d_nextPeer dev" "d_nextPeer dev = n"
  shows "finished dev' \<and> d_nextPeer dev' = n"
  using assms by (simp add: finished_def isClosed_def)

lemma finished_settled:
  assumes "settled b = settled a" "finished a \<and> d_nextPeer a = n"
  shows "finished b \<and> d_nextPeer b = n"
  using assms orderly_settled [OF assms(1)] settledD [OF assms(1)] by (intro finished_same [of a]) simp_all

lemma finished_traffic: "traffic_invariant C (\<lambda>_. True) (\<lambda>dev. finished dev \<and> d_nextPeer dev = n)"
  by (rule settled_traffic) (rule finished_settled)

lemma merge_frame:
  "d_state (fst (mergeWithDevice sd dev)) = d_state dev" "d_keyMap (fst (mergeWithDevice sd dev)) = d_keyMap dev"
  "d_nextPeer (fst (mergeWithDevice sd dev)) = d_nextPeer dev"
  by (simp_all add: mergeWithDevice_def Let_def)

lemma handshake_frame:
  "d_state (upd_handshake p f dev) = d_state dev" "d_keyMap (upd_handshake p f dev) = d_keyMap dev"
  "d_nextPeer (upd_handshake p f dev) = d_nextPeer dev"
  by (simp_all add: upd_handshake_def)

lemma expire_frame:
  "d_state (ExpireCurrentKeypairs p dev) = d_state dev" "d_keyMap (ExpireCurrentKeypairs p dev) = d_keyMap dev"
  by (simp_all add: ExpireCurrentKeypairs_def spend_def upd_handshake_def index_Delete_def Let_def split: option.splits)

lemma finished_owner: "owner_invariant C (\<lambda>_. True) (\<lambda>dev. finished dev \<and> d_nextPeer dev = n)"
proof (intro owner_invariant.intro finished_traffic owner_invariant_axioms.intro)
  let ?Q = "\<lambda>dev. finished dev \<and> d_nextPeer dev = n"
  show "base_ok dev" if "?Q dev" for dev using that by (simp add: finished_def orderly_base)
  show "?Q (dev\<lparr>d_state := s\<rparr>)" if "?Q dev" "\<not> isClosed dev" for dev s using that by (simp add: finished_def)
  show "?Q (removePeerLocked kp dev)" if "?Q dev" "\<And>p'. (fst kp, p') \<in> set (d_keyMap dev) \<Longrightarrow> p' = snd kp" for dev kp
    using that orderly_remove [of dev kp] remove_frame(1,3,8) [of kp dev] by (auto simp: finished_def isClosed_def)
  show "?Q (dev\<lparr>d_privateKey := sk, d_publicKey := publicKey C sk, d_cookieChecker := ch\<rparr>)" if "?Q dev" for dev sk ch
    using orderly.numbered.identity [of dev "d_nextPeer dev" C sk ch] that by (auto simp: finished_def isClosed_def)
  show "?Q (dev\<lparr>d_allowedips := ips\<rparr>)" if "?Q dev" "known dev p" for dev p ips
    using that by (simp add: finished_def known_def)
  show "?Q (dev\<lparr>d_allowedips := ips\<rparr>)" if "?Q dev" "prefix_ok pfx" "Remove (d_allowedips dev) pfx p = Some ips" for dev pfx p ips
    using orderly_drop [OF _ that(2,3)] that(1) by (auto simp: finished_def isClosed_def)
  show "?Q (dev\<lparr>d_allowedips := ips\<rparr>)" if "?Q dev" "RemoveByPeer (d_allowedips dev) p = Some ips" for dev p ips
    using orderly_drop_all [OF _ that(2)] that(1) by (auto simp: finished_def isClosed_def)
  show "?Q (fst (mergeWithDevice sd dev))" if "?Q dev" "setting_ok sd" for dev sd
    using orderly_merge [OF _ that(2)] that(1) by (intro finished_same [of dev]) (simp_all add: merge_frame)
  show "?Q (ExpireCurrentKeypairs p dev)" if "?Q dev" for p dev
    using that by (intro finished_same [of dev]) (simp_all add: orderly_expire nextPeer_expire expire_frame)
qed (erule conjE, erule finished_same; simp add: orderly_statics handshake_frame)+

interpretation finished: device_invariant C "\<lambda>_ _. True" finished for C
  by (rule device_invariant.intro) (simp_all add: finished_owner, simp add: finished_def NewPeer_def)

subsection \<open>Closing\<close>

lemma downLocked_state: "d_state (fst (downLocked dev)) = d_state dev"
proof -
  define D where "D = fst (BindClose dev)"
  have "settled (fold (Stop \<circ> snd) (d_keyMap D) D) = settled D"
    by (rule traffic.shape_fold) (simp_all add: traffic.peer_ops)
  then have "d_state (fold (Stop \<circ> snd) (d_keyMap D) D) = d_state D" by (rule settledD)
  then show ?thesis by (simp add: downLocked_def D_def BindClose_def closeBindLocked_def split_beta bind_state)
qed

lemma RemoveAllPeers_state: "d_state (RemoveAllPeers dev) = d_state dev"
proof -
  have "d_state (fold removePeerLocked xs dev) = d_state dev" for xs
    by (induction xs arbitrary: dev) (simp_all add: remove_frame)
  then show ?thesis by (simp add: RemoveAllPeers_def)
qed

lemma device_Close_finished:
  assumes "orderly dev" "\<not> isClosed dev"
  shows "finished (device_Close dev)"
proof -
  define D where "D = fst (downLocked (dev\<lparr>d_state := deviceStateClosed\<rparr>))"
  have "isClosed (RemoveAllPeers D)" by (simp add: isClosed_def RemoveAllPeers_state D_def downLocked_state)
  moreover have "d_keyMap (RemoveAllPeers D) = []" by (simp add: RemoveAllPeers_def)
  moreover have "orderly (device_Close dev)" using orderly.numbered.device_Close_keeps [of dev "d_nextPeer dev"] assms(1) by simp
  ultimately show ?thesis
    using assms(2) by (auto simp: device_Close_def Let_def split_beta finished_def isClosed_def panic_def simp flip: D_def split: option.splits)
qed

text \<open>C16: Once a device has been closed it stays closed: whatever traffic, timers, configuration or
  calls of its owner follow, it is not up again and has no peers, and no address is routed to a peer,
  so that no packet from the tunnel finds a destination and none from the network is accepted.\<close>

theorem close_is_final:
  assumes "NewDevice mtu env = Some dev0"
    and "\<not> isClosed (device_run C calls0 dev0)"
    and "dev = device_run C calls (device_Close (device_run C calls0 dev0))"
  shows "isClosed dev \<and> d_keyMap dev = [] \<and> destination dev packet = None \<and> accept_packet dev p packet = None"
proof -
  have "orderly (device_run C calls0 dev0)" by (rule orderly.run_keeps [OF NewDevice_orderly [OF assms(1)]])
  then have "finished (device_Close (device_run C calls0 dev0))" using assms(2) by (rule device_Close_finished)
  then have f: "finished dev" unfolding assms(3) by (rule finished.run_keeps)
  then have "routed dev ip = None" for ip
    using routed_known [of dev ip] by (cases "routed dev ip") (auto simp: finished_def known_def)
  then show ?thesis using f by (simp add: finished_def destination_def accept_packet_def Let_def)
qed

theorem close_is_final_witness:
  "isClosed (device_run demo_crypto sample_calls (device_Close sample_device)) \<and>
   destination (device_run demo_crypto sample_calls (device_Close sample_device)) (replicate 20 0x45) = None"
proof -
  have "\<not> isClosed (device_run demo_crypto [] sample_device)"
    by (simp add: sample_device_def NewDevice_def Init_def zero_ratelimiter_def isClosed_def index_Init_def zero_device_def)
  then have "isClosed (device_run demo_crypto sample_calls (device_Close (device_run demo_crypto [] sample_device))) \<and>
      destination (device_run demo_crypto sample_calls (device_Close (device_run demo_crypto [] sample_device))) (replicate 20 0x45) = None"
    using close_is_final [OF sample_ok _ refl, of demo_crypto "[]" sample_calls "replicate 20 0x45" 0] by blast
  then show ?thesis unfolding fold_simps(1) .
qed

end
