(* ===== verification/Routing.thy ===== *)
theory Routing
  imports Peers
begin

text \<open>
  Cryptokey routing on the way in: what the sequential receiver of a peer writes to the tunnel are the
  packets of that peer whose source address is routed to it, cut to the length in their header.
\<close>

subsection \<open>Only the receiver writes\<close>






subsection \<open>What it writes\<close>








text \<open>The 16 bit sum: with a payload length of 65496 an IPv6 packet is accepted as the empty packet.\<close>

theorem ipv6_length_wraps:
  assumes "drop_bit 4 (packet ! 0) = 6" "ipv6_HeaderLen \<le> length packet" "get_be16 (slice 4 6 packet) = 65496"
    "routed dev (slice 8 24 packet) = Some p"
  shows "accept_packet dev p packet = Some []"
  using assms by (simp add: accept_packet_def ip_consts Let_def)



end
