(* ===== verification/Transport.thy ===== *)
theory Transport
  imports Peers IndexInvariant
begin

text \<open>
  From one device to the other. What a device puts on the wire, padded and with its header protected,
  is recognised by a device with the same parameters: the type of the message, and the message itself.
  A packet that goes in at one end of a session comes out at the other.
\<close>

subsection \<open>The key stream\<close>

lemma map2_xor_twice: "length xs \<le> length ys \<Longrightarrow> map2 (XOR) (map2 (XOR) xs ys) (ys :: bytes) = xs"
proof (induction xs arbitrary: ys)
  case (Cons x xs)
  then obtain y ys' where "ys = y # ys'" by (cases ys) auto
  then show ?case using Cons by (simp add: xor.assoc)
qed simp

lemma map2_xor_zero: "length ys = n \<Longrightarrow> map2 (XOR) (replicate n 0) (ys :: bytes) = ys"
  by (induction n arbitrary: ys) (auto simp: length_Suc_conv)

text \<open>The first \<open>n\<close> bytes of a message in protected form, as sender and receiver compute them.\<close>

lemma type_hash:
  assumes "crypto_ok C"
  shows "XORKeyStream C \<lparr>ci_key = k, ci_nonce = s, ci_pos = 0\<rparr> (replicate 4 0) =
    (chacha20_stream C k s 4, \<lparr>ci_key = k, ci_nonce = s, ci_pos = 4\<rparr>)"
  by (simp add: XORKeyStream_def map2_xor_zero crypto_laws(9) [OF assms])

lemma protected_type:
  assumes "crypto_ok C" "4 \<le> length msg"
  shows "applyHash (take 4 (fst (XORKeyStream C \<lparr>ci_key = k, ci_nonce = s, ci_pos = 0\<rparr> msg))) (chacha20_stream C k s 4) = take 4 msg"
proof -
  obtain l where l: "length msg = 4 + l" using assms(2) le_Suc_ex by blast
  have "take 4 (map2 (XOR) msg (chacha20_stream C k s (length msg))) = map2 (XOR) (take 4 msg) (chacha20_stream C k s 4)"
    by (simp add: take_map take_zip l crypto_laws(10) [OF assms(1)])
  then show ?thesis by (simp add: XORKeyStream_def applyHash_def map2_xor_twice crypto_laws(9) [OF assms(1)])
qed

lemma protected_rest:
  assumes "crypto_ok C" "4 \<le> length msg"
  shows "fst (XORKeyStream C \<lparr>ci_key = k, ci_nonce = s, ci_pos = 4\<rparr>
      (drop 4 (fst (XORKeyStream C \<lparr>ci_key = k, ci_nonce = s, ci_pos = 0\<rparr> msg)))) = drop 4 msg"
  using assms(2)
  by (simp add: XORKeyStream_def drop_map drop_zip crypto_laws(9) [OF assms(1)] map2_xor_twice)

subsection \<open>Classification\<close>

text \<open>A datagram of length \<open>sz\<close> whose message has type \<open>t\<close>, padding \<open>pad\<close> and type field \<open>w\<close>.\<close>

definition carries :: "Device \<Rightarrow> u32 \<Rightarrow> u32 \<Rightarrow> nat \<Rightarrow> u32 \<Rightarrow> bool" where
  "carries dev t pad sz w \<longleftrightarrow>
     t = MessageInitiationType \<and> pad = s_init (d_paddings dev) \<and> sz = unat pad + MessageInitiationSize \<and> Contains (h_init (d_headers dev)) w \<or>
     t = MessageResponseType \<and> pad = s_response (d_paddings dev) \<and> sz = unat pad + MessageResponseSize \<and> Contains (h_response (d_headers dev)) w \<or>
     t = MessageCookieReplyType \<and> pad = s_cookie (d_paddings dev) \<and> sz = unat pad + MessageCookieReplySize \<and> Contains (h_cookie (d_headers dev)) w \<or>
     t = MessageTransportType \<and> pad = s_transport (d_paddings dev) \<and> sz \<ge> unat pad + MessageTransportHeaderSize \<and> Contains (h_transport (d_headers dev)) w"

text \<open>
  The length alone also fits a message with another padding, at which other bytes, random ones, are
  read as the type.
\<close>

definition mistakable :: "Device \<Rightarrow> u32 \<Rightarrow> nat \<Rightarrow> bool" where
  "mistakable dev pad sz \<longleftrightarrow>
     list_ex (\<lambda>(s, n). s \<noteq> pad \<and> sz = unat s + n)
       [(s_init (d_paddings dev), MessageInitiationSize), (s_response (d_paddings dev), MessageResponseSize),
        (s_cookie (d_paddings dev), MessageCookieReplySize)]"

lemma headers_disjoint:
  assumes "config_ok dev"
  shows "Contains (h_init (d_headers dev)) w \<Longrightarrow> \<not> Contains (h_response (d_headers dev)) w \<and> \<not> Contains (h_cookie (d_headers dev)) w \<and> \<not> Contains (h_transport (d_headers dev)) w"
    "Contains (h_response (d_headers dev)) w \<Longrightarrow> \<not> Contains (h_cookie (d_headers dev)) w \<and> \<not> Contains (h_transport (d_headers dev)) w"
    "Contains (h_cookie (d_headers dev)) w \<Longrightarrow> \<not> Contains (h_transport (d_headers dev)) w"
  using assms by (auto simp: config_ok_def headers_of_def setting_ok_def fromDevice_def Overlap_iff)

lemma determine_carried:
  assumes "config_ok dev" "carries dev t pad (length packet) w" "\<not> mistakable dev pad (length packet)"
    and "type_field packet pad typeHash = w"
  shows "DeterminePacketTypeAndPadding dev packet MessageUnknownType typeHash = (t, pad)"
  using assms(2-4) headers_disjoint [OF assms(1), of w]
  unfolding carries_def mistakable_def DeterminePacketTypeAndPadding_def Let_def
  by (elim disjE conjE) auto

subsection \<open>Receiving a framed message\<close>

text \<open>Two devices whose owners configured the same obfuscation.\<close>

definition same_framing :: "Device \<Rightarrow> Device \<Rightarrow> bool" where
  "same_framing a b \<longleftrightarrow> d_headers b = d_headers a \<and> d_paddings b = d_paddings a \<and> d_headerKey b = d_headerKey a"

text \<open>
  The state of the receiver's cipher after the type field, and the message it sees: \<open>msg\<close> is the part
  of the message that the sender protects.
\<close>

definition type_cipher :: "Crypto \<Rightarrow> Device \<Rightarrow> bytes \<Rightarrow> bytes \<times> Cipher option" where
  "type_cipher C dev packet =
     (case HeaderProtectionCipher dev (take HeaderCipherNonceSize packet) of
        None \<Rightarrow> (replicate 4 0, None)
      | Some c \<Rightarrow> let (h, c) = XORKeyStream C c (replicate 4 0) in (h, Some c))"

lemma applyHash_zero: "length xs = n \<Longrightarrow> applyHash xs (replicate n 0) = xs"
  by (induction n arbitrary: xs) (auto simp: applyHash_def length_Suc_conv)

lemma carried_padding: "config_ok dev \<Longrightarrow> carries dev t pad sz w \<Longrightarrow> \<not> key_IsZero (d_headerKey dev) \<Longrightarrow> HeaderCipherNonceSize \<le> unat pad"
  by (auto simp: config_ok_def carries_def paddings_of_def)

lemma frame_seen:
  assumes C: "crypto_ok C" and cfg: "config_ok dev" "same_framing dev0 dev"
    and msg: "4 \<le> length msg" "get_le32 msg = w"
    and frame: "packet = crypt @ protect C dev0 crypt msg @ rest" "length crypt = unat pad"
    and t: "carries dev t pad (length packet) w" "\<not> mistakable dev pad (length packet)"
    and tc: "type_cipher C dev packet = (typeHash, cip)"
  shows "DeterminePacketTypeAndPadding dev packet MessageUnknownType typeHash = (t, pad)"
    "unprotect C cip (length msg) (if cip \<noteq> None
       then applyHash (take 4 (drop (unat pad) packet)) typeHash @ drop 4 (drop (unat pad) packet)
       else drop (unat pad) packet) = msg @ rest"
proof -
  have key: "d_headerKey dev0 = d_headerKey dev" using cfg(2) by (simp add: same_framing_def)
  have "applyHash (take 4 (drop (unat pad) packet)) typeHash = take 4 msg \<and>
    unprotect C cip (length msg) (if cip \<noteq> None
       then applyHash (take 4 (drop (unat pad) packet)) typeHash @ drop 4 (drop (unat pad) packet)
       else drop (unat pad) packet) = msg @ rest"
  proof (cases "key_IsZero (d_headerKey dev)")
    case True
    then show ?thesis
      using tc msg(1) by (auto simp: type_cipher_def HeaderProtectionCipher_def frame protect_def key unprotect_def applyHash_zero)
  next
    case False
    define s where "s = take HeaderCipherNonceSize crypt"
    have "HeaderCipherNonceSize \<le> length crypt" using carried_padding [OF cfg(1) t(1) False] frame(2) by simp
    then have salt: "take HeaderCipherNonceSize (crypt @ ys) = s" for ys by (simp add: s_def)
    let ?c = "\<lambda>n. \<lparr>ci_key = d_headerKey dev, ci_nonce = s, ci_pos = n\<rparr>"
    let ?p = "fst (XORKeyStream C (?c 0) msg)"
    have p: "protect C dev0 crypt msg = ?p" using False by (simp add: protect_def HeaderProtectionCipher_def salt key del: take_append)
    have len: "length ?p = length msg" by (simp add: XORKeyStream_def crypto_laws(9) [OF C])
    have th: "typeHash = chacha20_stream C (d_headerKey dev) s 4" "cip = Some (?c 4)"
      using tc False by (auto simp: type_cipher_def HeaderProtectionCipher_def frame(1) salt type_hash [OF C] simp del: take_append)
    have first: "applyHash (take 4 (?p @ rest)) typeHash = take 4 msg"
      using msg(1) len protected_type [OF C msg(1), of "d_headerKey dev" s] by (simp add: th(1))
    moreover have "slice 4 (length msg) (take 4 msg @ drop 4 (?p @ rest)) = drop 4 ?p"
      using msg(1) len by (simp add: slice_def)
    ultimately show ?thesis
      using msg(1) len protected_rest [OF C msg(1), of "d_headerKey dev" s] frame
      by (simp add: p th(2) unprotect_def)
  qed
  moreover then have "type_field packet pad typeHash = w"
    using msg by (simp add: type_field_def slice_def get_le32_def)
  ultimately show "DeterminePacketTypeAndPadding dev packet MessageUnknownType typeHash = (t, pad)"
    "unprotect C cip (length msg) (if cip \<noteq> None
       then applyHash (take 4 (drop (unat pad) packet)) typeHash @ drop 4 (drop (unat pad) packet)
       else drop (unat pad) packet) = msg @ rest"
    using determine_carried [OF cfg(1) t] by simp_all
qed


lemma receive_unfold:
  assumes "MinMessageSize \<le> length packet" "type_cipher C dev packet = (typeHash, cip)"
    and "DeterminePacketTypeAndPadding dev packet MessageUnknownType typeHash = (t, pad)"
    and "seen = (if cip \<noteq> None then applyHash (take 4 (drop (unat pad) packet)) typeHash @ drop 4 (drop (unat pad) packet)
       else drop (unat pad) packet)"
  shows "receive_datagram C dev (packet, ep) =
    (let fixed = (\<lambda>n. if length seen \<noteq> n then Dropped
                       else HandshakeMessage \<lparr>he_msgType = t, he_packet = unprotect C cip n seen, he_endpoint = ep\<rparr>)
     in if t = MessageTransportType then
          if length seen < MessageTransportSize then Dropped
          else
          let packet = unprotect C cip MessageTransportHeaderSize seen;
              receiver = get_le32 (slice MessageTransportOffsetReceiver MessageTransportOffsetCounter packet);
              value = index_Lookup receiver dev
          in case (ie_keypair value, ie_peer value) of
               (Some k, Some p) \<Rightarrow>
                 if kp_created (d_keypairs dev k) + keychainExpireTime dev < now dev then Dropped
                 else Transport p \<lparr>ib_packet = Some packet, ib_counter = 0, ib_keypair = k,
                                   ib_endpoint = ep, ib_padding = pad\<rparr>
             | _ \<Rightarrow> Dropped
        else if t = MessageInitiationType then fixed MessageInitiationSize
        else if t = MessageResponseType then fixed MessageResponseSize
        else if t = MessageCookieReplyType then fixed MessageCookieReplySize
        else Dropped)"
proof -
  have "\<not> length packet < MinMessageSize" using assms(1) by simp
  then show ?thesis
    unfolding receive_datagram_def fst_conv snd_conv assms(2) [unfolded type_cipher_def Let_def] assms(4) Let_def prod.case assms(3)
    by (rule if_not_P)
qed

lemma length_seen:
  assumes "crypto_ok C" "length crypt = unat pad" "packet = crypt @ protect C dev0 crypt msg @ rest" "4 \<le> length msg" "4 \<le> length typeHash"
  shows "length (if b then applyHash (take 4 (drop (unat pad) packet)) typeHash @ drop 4 (drop (unat pad) packet)
       else drop (unat pad) packet) = length msg + length rest"
proof -
  have "length (protect C dev0 crypt msg) = length msg"
    by (simp add: protect_def XORKeyStream_def crypto_laws(9) [OF assms(1)] split: option.splits)
  then show ?thesis using assms by (simp add: applyHash_def min_def)
qed

lemma length_type_hash: "crypto_ok C \<Longrightarrow> type_cipher C dev packet = (typeHash, cip) \<Longrightarrow> length typeHash = 4"
  by (auto simp: type_cipher_def HeaderProtectionCipher_def type_hash crypto_laws(9) split: if_splits)

text \<open>C21: A handshake message, padded and protected as the sender does, is recognised by a device with
  the same header ranges, paddings and protection key: the datagram gives the message itself, byte
  for byte, with its type. The length of the datagram must not fit a message with another padding.\<close>

theorem handshake_frame_recognised:
  assumes "crypto_ok C" "config_ok dev" "same_framing dev0 dev"
    and "get_le32 msg = w" "packet = crypt @ protect C dev0 crypt msg" "length crypt = unat pad"
    and "carries dev t pad (unat pad + length msg) w" "t \<noteq> MessageTransportType"
    and "\<not> mistakable dev pad (unat pad + length msg)"
  shows "receive_datagram C dev (packet, ep) = HandshakeMessage \<lparr>he_msgType = t, he_packet = msg, he_endpoint = ep\<rparr>"
proof -
  obtain typeHash cip where tc: "type_cipher C dev packet = (typeHash, cip)" by force
  have "length (protect C dev0 crypt msg) = length msg"
    by (simp add: protect_def XORKeyStream_def crypto_laws(9) [OF assms(1)] split: option.splits)
  then have len: "length packet = unat pad + length msg" by (simp add: assms(5,6))
  have size: "t = MessageInitiationType \<and> length msg = MessageInitiationSize \<or> t = MessageResponseType \<and> length msg = MessageResponseSize \<or>
    t = MessageCookieReplyType \<and> length msg = MessageCookieReplySize" using assms(7,8) by (auto simp: carries_def)
  then have four: "4 \<le> length msg" "MinMessageSize \<le> length packet"
    by (auto simp: len MinMessageSize_def message_sizes)
  have frame: "packet = crypt @ protect C dev0 crypt msg @ []" using assms(5) by simp
  note seen = frame_seen [OF assms(1-3) four(1) assms(4) frame assms(6) assms(7,9) [folded len] tc]
  note ls = length_seen [OF assms(1,6) frame four(1), of typeHash "cip \<noteq> None"] length_type_hash [OF assms(1) tc]
  show ?thesis
    using size ls seen(2) by (auto simp: receive_unfold [OF four(2) tc seen(1) refl] Let_def message_types)
qed


subsection \<open>Transport messages\<close>

lemma length_transport_header [simp]: "length (transport_header ty r n) = 16"
  by (simp add: transport_header_def put_le32_def put_le64_def)

lemma transport_header_fields:
  "get_le32 (transport_header ty r n @ rest) = ty"
  "get_le32 (slice MessageTransportOffsetReceiver MessageTransportOffsetCounter (transport_header ty r n @ rest)) = r"
  "get_le64 (slice MessageTransportOffsetCounter MessageTransportOffsetContent (transport_header ty r n @ rest)) = n"
  "drop MessageTransportOffsetContent (transport_header ty r n @ rest) = rest"
  using unat_u32_less [of ty] unat_u32_less [of r] unat_u64_less [of n]
  by (simp_all add: transport_header_def transport_offsets slice_def get_le32_def get_le64_def put_le32_def put_le64_def
      get_put_le)

lemma drawn_fields:
  assumes "drawn dev dev'"
  shows "d_headers dev' = d_headers dev" "d_headerKey dev' = d_headerKey dev" "d_keypairs dev' = d_keypairs dev"
  using assms by (auto simp: drawn_def)

lemma pick_one_Contains: "pick_one r dev = (w, dev') \<Longrightarrow> range_ok r \<Longrightarrow> Contains r w"
  by (auto simp: pick_one_def PickOne_Contains split: prod.splits)

lemma encrypted_frame:
  assumes enc: "encrypt_elem C el dev = Some (el', dev')" and k: "oe_keypair el = Some k" and C: "crypto_ok C"
    and size: "length (oe_packet el') \<le> MaxMessageSize" and r: "range_ok (h_transport (d_headers dev))"
  obtains crypt w n where "length crypt = unat (oe_padding el)" "Contains (h_transport (d_headers dev)) w"
    "oe_packet el' = crypt @ protect C dev crypt (transport_header w (kp_remoteIndex (d_keypairs dev k)) (oe_nonce el)) @
       aead_seal C (kp_send (d_keypairs dev k)) (transport_nonce (oe_nonce el)) (oe_packet el @ replicate n 0) []"
proof -
  obtain crypt d1 where 1: "rand_Read (unat (oe_padding el)) dev = (crypt, d1)" by force
  obtain ty d2 where 2: "pick_one (h_transport (d_headers d1)) d1 = (ty, d2)" by force
  obtain sz d3 where 3: "randomPaddingAddition (int (length (oe_packet el))) (d_mtu d2) d2 = (sz, d3)" by force
  have d1: "drawn dev d1" by (rule drawn_basic(1) [OF 1])
  have d3: "drawn dev d3" using d1 drawn_pick_one [OF 2] drawn_randomPaddingAddition [OF 3] by (blast intro: drawn_trans)
  define m where "m = (if sz < 0 then calculatePaddingSize (int (length (oe_packet el))) (d_mtu d2) else sz)"
  define head where "head = transport_header ty (kp_remoteIndex (d_keypairs dev k)) (oe_nonce el)"
  define sealed where "sealed = aead_seal C (kp_send (d_keypairs dev k)) (transport_nonce (oe_nonce el)) (oe_packet el @ replicate (nat m) 0) []"
  have crypt: "length crypt = unat (oe_padding el)" using 1 by (auto simp: rand_Read_def split: list.splits)
  have prot: "protect C d3 crypt x = protect C dev crypt x" for x
    by (simp add: protect_def HeaderProtectionCipher_def drawn_fields(2) [OF d3])
  have lp: "length (protect C dev crypt x) = length x" for x
    by (simp add: protect_def XORKeyStream_def crypto_laws(9) [OF C] split: option.splits)
  have "oe_packet el' = crypt @ (if length crypt + length head + length sealed \<le> MaxMessageSize then protect C dev crypt head else head) @ sealed"
    using enc by (auto simp: encrypt_elem_def k 1 2 3 Let_def prot simp flip: m_def head_def sealed_def split: if_splits)
  moreover then have "length crypt + length head + length sealed \<le> MaxMessageSize" using size by (auto simp: lp split: if_splits)
  ultimately show ?thesis
    using that [OF crypt, of ty "nat m"] pick_one_Contains [OF 2] r drawn_fields(1) [OF d1] by (simp add: head_def sealed_def)
qed

text \<open>The receiving side of a session, for packets that the other side sends with keypair \<open>k\<close> of \<open>dev0\<close>.\<close>

definition session_end :: "Device \<Rightarrow> nat \<Rightarrow> Device \<Rightarrow> nat \<Rightarrow> nat \<Rightarrow> bool" where
  "session_end dev0 k dev p l \<longleftrightarrow>
     d_indexTable dev (kp_remoteIndex (d_keypairs dev0 k)) = Some (entry_k p l) \<and>
     kp_receive (d_keypairs dev l) = kp_send (d_keypairs dev0 k) \<and>
     now dev \<le> kp_created (d_keypairs dev l) + keychainExpireTime dev"

lemma transport_received:
  assumes "crypto_ok C" "config_ok dev0" "config_ok dev" "same_framing dev0 dev"
    and "encrypt_elem C el dev0 = Some (el', dev')" "oe_keypair el = Some k" "oe_padding el = s_transport (d_paddings dev0)"
    and "length (oe_packet el') \<le> MaxMessageSize" "\<not> mistakable dev (oe_padding el) (length (oe_packet el'))"
    and "session_end dev0 k dev p l"
  obtains inb n where "receive_datagram C dev (oe_packet el', ep) = Transport p inb" "ib_keypair inb = l" "ib_endpoint inb = ep"
    "decrypt_elem C dev inb = Some (inb\<lparr>ib_counter := oe_nonce el, ib_packet := Some (oe_packet el @ replicate n 0)\<rparr>)"
proof -
  let ?kp = "d_keypairs dev0 k"
  have "range_ok (h_transport (d_headers dev0))" using assms(2) by (simp add: config_ok_def setting_ok_def fromDevice_def headers_of_def)
  then obtain crypt w n where f: "length crypt = unat (oe_padding el)" "Contains (h_transport (d_headers dev0)) w"
    "oe_packet el' = crypt @ protect C dev0 crypt (transport_header w (kp_remoteIndex ?kp) (oe_nonce el)) @
       aead_seal C (kp_send ?kp) (transport_nonce (oe_nonce el)) (oe_packet el @ replicate n 0) []"
    by (rule encrypted_frame [OF assms(5,6,1,8)])
  let ?h = "transport_header w (kp_remoteIndex ?kp) (oe_nonce el)"
  let ?s = "aead_seal C (kp_send ?kp) (transport_nonce (oe_nonce el)) (oe_packet el @ replicate n 0) []"
  obtain typeHash cip where tc: "type_cipher C dev (oe_packet el') = (typeHash, cip)" by force
  have len: "length (oe_packet el') = unat (oe_padding el) + 16 + length ?s" "length ?s = length (oe_packet el) + n + 16"
    by (simp_all add: f(1,3) protect_def XORKeyStream_def crypto_laws(3,9) [OF assms(1)] split: option.splits)
  have t: "carries dev MessageTransportType (oe_padding el) (length (oe_packet el')) w"
    using assms(4,7) f(2) by (simp add: carries_def len same_framing_def message_sizes message_types)
  have h: "4 \<le> length ?h" "get_le32 ?h = w" using transport_header_fields(1) [of w _ _ "[]"] by simp_all
  have min: "MinMessageSize \<le> length (oe_packet el')" by (simp add: len MinMessageSize_def message_sizes)
  note seen = frame_seen [OF assms(1,3,4) h f(3,1) t assms(9) tc]
  note ls = length_seen [OF assms(1) f(1,3) h(1), of typeHash "cip \<noteq> None"] length_type_hash [OF assms(1) tc]
  have e: "index_Lookup (kp_remoteIndex ?kp) dev = entry_k p l" using assms(10) by (simp add: session_end_def index_Lookup_def)
  define inb where "inb = \<lparr>ib_packet = Some (?h @ ?s), ib_counter = 0, ib_keypair = l, ib_endpoint = ep, ib_padding = oe_padding el\<rparr>"
  have "receive_datagram C dev (oe_packet el', ep) = Transport p inb"
    using ls len(2) seen(2) assms(10)
    by (simp add: receive_unfold [OF min tc seen(1) refl] Let_def message_sizes transport_header_fields e entry_k_def session_end_def
        inb_def del: length_append)
  moreover have "decrypt_elem C dev inb = Some (inb\<lparr>ib_counter := oe_nonce el, ib_packet := Some (oe_packet el @ replicate n 0)\<rparr>)"
    using assms(10) by (simp add: decrypt_elem_def inb_def transport_header_fields Let_def session_end_def crypto_laws(4) [OF assms(1)]
        del: drop_append)
  moreover have "ib_keypair inb = l" "ib_endpoint inb = ep" by (simp_all add: inb_def)
  ultimately show ?thesis using that by blast
qed


text \<open>An IP packet of the length that its header says, with the source address \<open>src\<close>.\<close>

definition ip_packet :: "bytes \<Rightarrow> bytes \<Rightarrow> bool" where
  "ip_packet packet src \<longleftrightarrow>
     drop_bit 4 (packet ! 0) = 4 \<and> ipv4_HeaderLen \<le> length packet \<and>
       unat (get_be16 (slice 2 4 packet)) = length packet \<and> src = slice 12 16 packet \<or>
     drop_bit 4 (packet ! 0) = 6 \<and> ipv6_HeaderLen \<le> length packet \<and> length packet < 2 ^ 16 \<and>
       unat (get_be16 (slice 4 6 packet)) + ipv6_HeaderLen = length packet \<and> src = slice 8 24 packet"

lemma accept_padded:
  assumes "ip_packet packet src" "routed dev src = Some p"
  shows "accept_packet dev p (packet @ replicate n 0) = Some packet"
proof -
  have "unat (x + 40 :: u16) = unat x + 40" if "unat x + 40 < 2 ^ 16" for x using that by (simp add: unat_word_ariths)
  moreover have "packet \<noteq> []" using assms(1) by (auto simp: ip_packet_def ip_consts)
  ultimately show ?thesis
    using assms by (auto simp: ip_packet_def accept_packet_def ip_consts slice_append_left nth_append Let_def)
qed

text \<open>C2: A packet that a device encrypts for a session comes out at the other end: a device with the
  same obfuscation parameters that holds the other end of the session recognises the datagram as a
  transport message of the right peer and keypair, decrypts it with the counter it was sent with, and,
  if the packet's source is routed to that peer, writes exactly the original packet, without the
  padding, to the tunnel.\<close>

theorem transport_delivers:
  assumes "crypto_ok C" "config_ok dev0" "config_ok dev" "same_framing dev0 dev"
    and "encrypt_elem C el dev0 = Some (el', dev')" "oe_keypair el = Some k" "oe_padding el = s_transport (d_paddings dev0)"
    and "length (oe_packet el') \<le> MaxMessageSize" "\<not> mistakable dev (oe_padding el) (length (oe_packet el'))"
    and "session_end dev0 k dev p l" "ip_packet (oe_packet el) src" "routed dev src = Some p"
  shows "\<exists>inb decrypted content. receive_datagram C dev (oe_packet el', ep) = Transport p inb \<and>
    decrypt_elem C dev inb = Some decrypted \<and> ib_keypair decrypted = l \<and> ib_counter decrypted = oe_nonce el \<and>
    ib_packet decrypted = Some content \<and> accept_packet dev p content = Some (oe_packet el)"
proof -
  obtain inb n where "receive_datagram C dev (oe_packet el', ep) = Transport p inb" "ib_keypair inb = l"
    "decrypt_elem C dev inb = Some (inb\<lparr>ib_counter := oe_nonce el, ib_packet := Some (oe_packet el @ replicate n 0)\<rparr>)"
    by (rule transport_received [OF assms(1-10)])
  then show ?thesis using accept_padded [OF assms(11,12), of n] by auto
qed


subsection \<open>A sample session\<close>

definition sample_framed :: Device where
  "sample_framed = sample_device\<lparr>d_headerKey := replicate 32 7,
     d_paddings := \<lparr>s_init = 12, s_response = 12, s_cookie = 12, s_transport = 12\<rparr>\<rparr>"

definition sample_keypair :: Keypair where
  "sample_keypair = (new_keypair (replicate 32 5) (replicate 32 5) True 0 zero_handshake)\<lparr>kp_remoteIndex := 9\<rparr>"

definition sample_sender :: Device where
  "sample_sender = sample_framed\<lparr>d_keypairs := \<lambda>_. sample_keypair\<rparr>"

definition sample_receiver :: Device where
  "sample_receiver = sample_framed\<lparr>d_keypairs := \<lambda>_. sample_keypair, d_indexTable := [9 \<mapsto> entry_k 0 0],
     d_allowedips := empty_AllowedIPs\<lparr>IPv4 := Node (Some 0) (replicate 4 0) 0 Nil Nil\<rparr>\<rparr>"

definition sample_packet :: bytes where
  "sample_packet = [0x45, 0, 0, 20] @ replicate 8 0 @ [10, 1, 2, 3] @ [10, 0, 0, 1]"

definition sample_elem :: QueueOutboundElement where
  "sample_elem = \<lparr>oe_packet = sample_packet, oe_nonce = 3, oe_keypair = Some 0, oe_padding = 12, oe_isKeepalive = False\<rparr>"

definition sample_endpoint :: Endpoint where
  "sample_endpoint = \<lparr>ep_dst = \<lparr>ap_addr = V4 [192, 0, 2, 1], ap_port = 51820\<rparr>, ep_src = []\<rparr>"

lemma sample_config: "config_ok sample_sender" "config_ok sample_receiver" "same_framing sample_sender sample_receiver"
proof -
  have "config_ok sample_framed"
    using NewDevice_orderly [OF sample_ok(1)] NewDevice_fields [OF sample_ok(1)]
    by (auto simp: orderly_def config_ok_def sample_framed_def setting_ok_def fromDevice_def paddings_of_def HeaderCipherNonceSize_def)
  then show "config_ok sample_sender" "config_ok sample_receiver"
    by (simp_all add: sample_sender_def sample_receiver_def config_ok_def fromDevice_def)
  show "same_framing sample_sender sample_receiver"
    by (simp add: sample_sender_def sample_receiver_def same_framing_def)
qed

lemma sample_parameters:
  "t_rejectAfterTimeSec (d_timings sample_device) = 0" "d_mtu sample_device = 1420" "d_contentPaddingAddition sample_device = 0"
  by (simp_all add: sample_device_def NewDevice_def Init_def zero_ratelimiter_def index_Init_def zero_device_def int32_def)

lemma sample_end: "session_end sample_sender 0 sample_receiver 0 0"
  using NewDevice_fields [OF sample_ok(1)]
  by (simp add: session_end_def sample_sender_def sample_receiver_def sample_framed_def sample_keypair_def new_keypair_def
      keychainExpireTime_def sample_env_def timeout_consts sample_parameters range_IsZero_def)


lemma sample_encrypted:
  obtains el' dev' where "encrypt_elem demo_crypto sample_elem sample_sender = Some (el', dev')" "length (oe_packet el') = 76"
proof -
  obtain ty d where ty: "pick_one (h_transport (d_headers sample_sender)) sample_sender = (ty, d)" by force
  have d: "d_mtu d = 1420" "d_contentPaddingAddition d = 0" "d_headerKey d = d_headerKey sample_sender"
    using drawn_pick_one [OF ty] by (auto simp: drawn_def sample_sender_def sample_framed_def sample_parameters)
  have draw: "rand_Read 12 sample_sender = (replicate 12 0, sample_sender)"
    using NewDevice_fields(8) [OF sample_ok(1)] by (simp add: rand_Read_def sample_sender_def sample_framed_def sample_env_def)
  have pad: "calculatePaddingSize 20 1420 = 12" by (simp add: calculatePaddingSize_def round_up_def PaddingMultiple_def)
  have "\<exists>el' dev'. encrypt_elem demo_crypto sample_elem sample_sender = Some (el', dev') \<and> length (oe_packet el') = 76"
    by (simp add: encrypt_elem_def sample_elem_def Let_def draw ty d randomPaddingAddition_def range_IsZero_def pad sample_packet_def
        MaxMessageSize_def MaxSegmentSize_def message_sizes protect_def XORKeyStream_def crypto_laws [OF demo_crypto_ok] split: option.splits)
  then show ?thesis using that by blast
qed


theorem transport_delivers_witness:
  "\<exists>el' dev' inb decrypted content. encrypt_elem demo_crypto sample_elem sample_sender = Some (el', dev') \<and>
     receive_datagram demo_crypto sample_receiver (oe_packet el', sample_endpoint) = Transport 0 inb \<and>
     decrypt_elem demo_crypto sample_receiver inb = Some decrypted \<and> ib_packet decrypted = Some content \<and>
     accept_packet sample_receiver 0 content = Some sample_packet"
proof -
  obtain el' dev' where e: "encrypt_elem demo_crypto sample_elem sample_sender = Some (el', dev')" "length (oe_packet el') = 76"
    by (rule sample_encrypted)
  have el: "oe_keypair sample_elem = Some 0" "oe_padding sample_elem = s_transport (d_paddings sample_sender)"
    by (simp_all add: sample_elem_def sample_sender_def sample_framed_def)
  have small: "length (oe_packet el') \<le> MaxMessageSize" by (simp add: e(2) MaxMessageSize_def MaxSegmentSize_def)
  have clear: "\<not> mistakable sample_receiver (oe_padding sample_elem) (length (oe_packet el'))"
    by (simp add: mistakable_def sample_receiver_def sample_framed_def sample_elem_def)
  have ip: "ip_packet (oe_packet sample_elem) [10, 1, 2, 3]"
    by (simp add: ip_packet_def sample_elem_def sample_packet_def ip_consts slice_def get_be16_def get_be_def)
  have route: "routed sample_receiver [10, 1, 2, 3] = Some 0"
    by (simp add: routed_def Lookup_def sample_receiver_def commonBits_def node_choose_def Let_def)
  show ?thesis
    using transport_delivers [OF demo_crypto_ok sample_config e(1) el small clear sample_end ip route, of sample_endpoint] e(1)
    by (auto simp: sample_elem_def)
qed

theorem handshake_frame_recognised_witness:
  "receive_datagram demo_crypto sample_receiver
     (replicate 12 3 @ protect demo_crypto sample_sender (replicate 12 3) (put_le32 3 @ replicate 60 8), sample_endpoint) =
   HandshakeMessage \<lparr>he_msgType = MessageCookieReplyType, he_packet = put_le32 3 @ replicate 60 8, he_endpoint = sample_endpoint\<rparr>"
proof (rule handshake_frame_recognised [OF demo_crypto_ok sample_config(2,3) refl refl, where pad = 12])
  show "carries sample_receiver MessageCookieReplyType 12 (unat (12 :: u32) + length (put_le32 3 @ replicate 60 8 :: bytes))
      (get_le32 (put_le32 3 @ replicate 60 8))"
    using NewDevice_fields(4) [OF sample_ok(1)]
    by (simp add: carries_def sample_receiver_def sample_framed_def message_types message_sizes put_le32_def get_le32_def
        get_put_le Contains_iff)
  show "\<not> mistakable sample_receiver 12 (unat (12 :: u32) + length (put_le32 3 @ replicate 60 8 :: bytes))"
    by (simp add: mistakable_def sample_receiver_def sample_framed_def)
qed (simp_all add: message_types)

end
