(* ===== verification/Retries.thy ===== *)
theory Retries
  imports Peers
begin

text \<open>
  A handshake that nobody answers. The timer for its retransmission is called back again and again,
  each time in a new world; it stops after the configured number of attempts, whatever the results of
  the calls in between, and then drops the packets that wait for a session.
\<close>

subsection \<open>Who counts the attempts\<close>

definition tries :: "Device \<Rightarrow> nat \<Rightarrow> u32 \<times> u32" where
  "tries dev p = (ts_handshakeAttempts (timers dev p), ts_maxHandshakeAttempts (timers dev p))"

lemma tries_same: "p_timers (d_peers dev' p) = timers dev p \<Longrightarrow> tries dev' p = tries dev p"
  by (simp add: tries_def)

lemma tries_drawn: "drawn dev dev' \<Longrightarrow> tries dev' p = tries dev p"
  by (auto simp: drawn_def tries_def)

lemma timers_created: "p_timers (d_peers (fst (CreateMessageInitiation C q dev)) p) = timers dev p"
proof -
  have new: "d_peers dev' = d_peers dev" if "NewIndexForHandshake q dev = Some (i, dev')" for i dev' dev
    using that by (auto simp: NewIndexForHandshake_def split: option.splits)
  have draws: "d_peers (snd (rand_Read n dev)) = d_peers dev" "d_peers (snd (pick_one r dev)) = d_peers dev" for n r dev
    by (simp_all add: settled_draws)
  show ?thesis
    by (auto simp: CreateMessageInitiation_def Let_def split_beta upd_handshake_def index_Delete_def
        dest!: new split: sum.splits option.splits) (simp_all add: draws)
qed

lemma drawn_junk: "drawn dev (snd (JunkPackets dev))"
proof -
  have "drawn dev (snd (junk_loop n lo hi dev))" for n lo hi
  proof (induction n arbitrary: dev)
    case (Suc n)
    obtain w d1 where 1: "rand_word dev = (w, d1)" by force
    obtain b d2 where 2: "rand_Read (unat (lo + fastrandn w (hi - lo))) d1 = (b, d2)" by force
    have "drawn dev d2" using drawn_basic(2) [OF 1] drawn_basic(1) [OF 2] by (rule drawn_trans)
    then show ?case using Suc [of d2] by (auto simp: 1 2 Let_def split_beta intro: drawn_trans)
  qed simp
  then show ?thesis by (simp add: JunkPackets_def)
qed

lemma drawn_ipackets: "ipacket_buffers cs dev = Some (bufs, dev') \<Longrightarrow> drawn dev dev'"
proof (induction cs dev arbitrary: bufs rule: ipacket_buffers.induct)
  case (3 c cs dev)
  obtain r d where t: "take_bytes (length (obfs c)) dev = (r, d)" by force
  then have "drawn dev d" by (auto simp: take_bytes_def quiet_env_def intro: drawn_env)
  moreover have "drawn d dev'" using 3 t by (auto simp: Let_def split: if_splits bind_splits)
  ultimately show ?case by (rule drawn_trans)
qed simp_all

lemma tries_hooks:
  "tries (timersAnyAuthenticatedPacketTraversal q dev) p = tries dev p"
  "tries (timersAnyAuthenticatedPacketSent q dev) p = tries dev p"
  "tries (timersHandshakeInitiated q dev) p = tries dev p"
  "tries (fst (SendBuffers q bufs dev)) p = tries dev p"
proof -
  have draws: "d_peers (snd (pick_one r dev)) = d_peers dev" "d_peers (snd (retransmitHandshakeTimeout dev)) = d_peers dev"
    "d_peers (snd (jitter dev)) = d_peers dev" for r dev
    by (simp_all add: settled_draws retransmitHandshakeTimeout_def jitter_def rand_word_def Let_def split_beta split: list.splits)
  show "tries (timersAnyAuthenticatedPacketTraversal q dev) p = tries dev p"
    "tries (timersAnyAuthenticatedPacketSent q dev) p = tries dev p"
    "tries (timersHandshakeInitiated q dev) p = tries dev p"
    by (simp_all add: tries_def timersAnyAuthenticatedPacketTraversal_def timersAnyAuthenticatedPacketSent_def
        timersHandshakeInitiated_def upd_timers_def Let_def split_beta draws)
  show "tries (fst (SendBuffers q bufs dev)) p = tries dev p"
    by (simp add: tries_def SendBuffers_def bind_Send_def Let_def split_beta split: option.splits list.splits)
qed

lemma tries_retry: "tries (fst (SendHandshakeInitiation C True q dev)) p = tries dev p"
proof (cases "time_sub (now dev) (hs_lastSentHandshake (handshake dev q)) < rekeyMinTimeout dev")
  case False
  define D where "D = upd_handshake q (\<lambda>h. h\<lparr>hs_lastSentHandshake := now dev\<rparr>) dev"
  obtain E created where c: "CreateMessageInitiation C q D = (E, created)" by force
  have "p_timers (d_peers E p) = timers dev p"
    using timers_created [of C q D p] c by (simp add: D_def upd_handshake_def)
  then have E: "tries E p = tries dev p" by (rule tries_same)
  show ?thesis
  proof (cases created)
    case (Inl err)
    then show ?thesis using False c E by (simp add: SendHandshakeInitiation_def flip: D_def)
  next
    case (Inr msg)
    show ?thesis
    proof (cases "ipacket_buffers (d_ipackets E) E")
      case None
      then show ?thesis using False c E Inr by (simp add: SendHandshakeInitiation_def panic_def tries_def flip: D_def)
    next
      case (Some x)
      obtain ips F where x: "x = (ips, F)" by (cases x)
      obtain junk G where j: "JunkPackets F = (junk, G)" by force
      have "drawn E G" using drawn_ipackets [OF Some [unfolded x]] drawn_junk [of F] j by (auto intro: drawn_trans)
      moreover have "drawn G (snd (rand_Read n G))" for n using drawn_basic(1) by (metis prod.collapse)
      ultimately have G: "tries G p = tries dev p" "tries (snd (rand_Read n G)) p = tries dev p" for n
        using E tries_drawn by metis+
      then show ?thesis
        using False c Inr Some x j
        by (simp add: SendHandshakeInitiation_def Let_def split_beta tries_hooks flip: D_def split: option.splits)
          (auto simp: tries_def panic_def)
    qed
  qed
qed (simp add: SendHandshakeInitiation_def)

subsection \<open>Call after call\<close>

definition retransmission :: "Device \<Rightarrow> nat \<Rightarrow> Timer" where
  "retransmission dev p = ts_retransmitHandshake (timers dev p)"

text \<open>The world \<open>e\<close> is late enough for the timer, which has not been deleted.\<close>

definition due :: "Env \<Rightarrow> nat \<Rightarrow> Device \<Rightarrow> bool" where
  "due e p dev \<longleftrightarrow>
     (case tm_deadline (retransmission dev p) of None \<Rightarrow> False | Some d \<Rightarrow> d \<le> e_now e \<and> tm_duration (retransmission dev p) \<noteq> 0)"

definition retry :: "Crypto \<Rightarrow> nat \<Rightarrow> Env \<Rightarrow> Device \<Rightarrow> Device" where
  "retry C p e dev = timer_callback C TRetransmit p (dev\<lparr>d_env := e\<rparr>)"

fun fired :: "Crypto \<Rightarrow> nat \<Rightarrow> Env list \<Rightarrow> Device \<Rightarrow> nat" where
  "fired C p [] dev = 0"
| "fired C p (e # es) dev = (if due e p dev then 1 else 0) + fired C p es (retry C p e dev)"

lemma retry_idle:
  assumes "\<not> due e p dev"
  shows "tries (retry C p e dev) p = tries dev p"
    "tm_deadline (retransmission dev p) = None \<Longrightarrow> tm_deadline (retransmission (retry C p e dev) p) = None"
  using assms
  by (auto simp: retry_def timer_callback_def timer_fire_def due_def retransmission_def tries_def upd_timers_def Let_def
      split: option.splits)

lemma retry_due:
  assumes "due e p dev"
  defines "dev' \<equiv> upd_timers p (\<lambda>ts. ts\<lparr>ts_retransmitHandshake := \<lparr>tm_duration = 0, tm_deadline = None\<rparr>\<rparr>) (dev\<lparr>d_env := e\<rparr>)"
  shows "retry C p e dev = expiredRetransmitHandshake C p dev'"
  using assms
  by (cases "ts_retransmitHandshake (timers dev p)") (auto simp: retry_def timer_callback_def timer_fire_def due_def retransmission_def upd_timers_def Let_def
      split: option.splits)

lemma gives_up:
  assumes "due e p dev" "fst (tries dev p) > snd (tries dev p)"
  shows "tm_deadline (retransmission (retry C p e dev) p) = None" "p_staged (d_peers (retry C p e dev) p) = []"
  using assms
  by (auto simp: retry_due expiredRetransmitHandshake_def tries_def upd_timers_def FlushStagedPackets_def Let_def retransmission_def
      timersActive_def isUp_def)

lemma tries_again:
  assumes "due e p dev" "\<not> fst (tries dev p) > snd (tries dev p)"
  shows "tries (retry C p e dev) p = (fst (tries dev p) + 1, snd (tries dev p))"
proof -
  have "tries (markEndpointSrcForClearing p d) p = tries d p" for d
    by (simp add: markEndpointSrcForClearing_def tries_def)
  then show ?thesis
    using assms by (simp add: retry_due expiredRetransmitHandshake_def tries_retry Let_def) (simp add: tries_def upd_timers_def)
qed

lemma fired_idle: "tm_deadline (retransmission dev p) = None \<Longrightarrow> fired C p es dev = 0"
proof (induction es arbitrary: dev)
  case (Cons e es)
  then have "\<not> due e p dev" by (simp add: due_def)
  then show ?case using Cons retry_idle(2) [of e p dev C] by simp
qed simp

lemma fired_bound:
  assumes "tries dev p = (a, m)" "m \<noteq> - 1"
  shows "fired C p es dev \<le> (if a > m then 1 else unat m + 2 - unat a)"
  using assms(1)
proof (induction es arbitrary: dev a)
  case (Cons e es)
  show ?case
  proof (cases "due e p dev")
    case False
    then show ?thesis using Cons.IH [of "retry C p e dev" a] Cons.prems retry_idle(1) [OF False, of C] by simp
  next
    case True
    show ?thesis
    proof (cases "a > m")
      case gt: True
      then show ?thesis using True Cons.prems fired_idle [OF gives_up(1) [OF True]] by simp
    next
      case False
      then have le: "unat a \<le> unat m" by (simp add: word_less_nat_alt)
      have "unat m \<noteq> unat (- 1 :: u32)" using assms(2) unfolding word_unat_eq_iff by simp
      then have "unat m < 2 ^ 32 - 1" using unat_u32_less [of m] by (simp add: unsigned_minus_1_eq_mask mask_eq_exp_minus_1)
      then have a1: "unat (a + 1) = unat a + 1" using le by (simp add: unat_word_ariths)
      have "fired C p es (retry C p e dev) \<le> (if a + 1 > m then 1 else unat m + 2 - unat (a + 1))"
        by (rule Cons.IH) (use tries_again [OF True] False Cons.prems in simp)
      then show ?thesis using True False le a1 by (auto simp: word_less_nat_alt split: if_splits)
    qed
  qed
qed simp


text \<open>C17: A handshake that gets no answer is not repeated forever: however often and in whatever worlds the
  runtime calls the retransmission timer of a peer back, it fires at most two times more than the
  number of attempts allowed, unless that number is the largest of its type, which the counter cannot
  exceed. When it fires for the last time, the packets that waited for the session are dropped and the
  timer is not armed again.\<close>

theorem retries_end:
  assumes "ts_maxHandshakeAttempts (timers dev p) \<noteq> - 1"
  shows "fired C p es dev \<le> unat (ts_maxHandshakeAttempts (timers dev p)) + 2 \<and>
    (due e p dev \<and> ts_handshakeAttempts (timers dev p) > ts_maxHandshakeAttempts (timers dev p) \<longrightarrow>
       p_staged (d_peers (retry C p e dev) p) = [] \<and> fired C p es (retry C p e dev) = 0)"
proof -
  have "fired C p es dev \<le> unat (ts_maxHandshakeAttempts (timers dev p)) + 2"
    using fired_bound [of dev p _ _ C es] assms by (auto simp: tries_def split: if_splits intro: order_trans)
  then show ?thesis using gives_up [of e p dev C] fired_idle by (auto simp: tries_def)
qed


text \<open>A peer with a handshake under way and one attempt allowed.\<close>

definition sample_waiting :: Device where
  "sample_waiting = (zero_device sample_env)\<lparr>d_peers := \<lambda>_. zero_peer\<lparr>p_timers := timersInit\<lparr>
     ts_retransmitHandshake := \<lparr>tm_duration = 5, tm_deadline = Some 5\<rparr>, ts_maxHandshakeAttempts := 1\<rparr>\<rparr>\<rparr>"

theorem retries_end_witness:
  "due (sample_env\<lparr>e_now := 5\<rparr>) 0 sample_waiting \<and>
   fired demo_crypto 0 [sample_env\<lparr>e_now := 5\<rparr>, sample_env\<lparr>e_now := 20\<rparr>, sample_env\<lparr>e_now := 90\<rparr>] sample_waiting \<le> 3"
proof
  show "due (sample_env\<lparr>e_now := 5\<rparr>) 0 sample_waiting" by (simp add: due_def retransmission_def sample_waiting_def)
  have max: "ts_maxHandshakeAttempts (timers sample_waiting 0) = 1" by (simp add: sample_waiting_def)
  show "fired demo_crypto 0 [sample_env\<lparr>e_now := 5\<rparr>, sample_env\<lparr>e_now := 20\<rparr>, sample_env\<lparr>e_now := 90\<rparr>] sample_waiting \<le> 3"
    using retries_end [of sample_waiting 0 demo_crypto
      "[sample_env\<lparr>e_now := 5\<rparr>, sample_env\<lparr>e_now := 20\<rparr>, sample_env\<lparr>e_now := 90\<rparr>]"] unfolding max by simp
qed

end
