(* ===== verification/Checksum.thy ===== *)
theory Checksum
  imports GoPrelude
begin

text \<open>
  The Internet checksum of \<open>tun/checksum.go\<close>.

  The routine adds the data eight bytes at a time in the byte order of the machine, in unrolled
  chains of \<open>bits.Add64\<close>, swaps the bytes of the total and folds it to sixteen bits. The byte order
  is the parameter \<open>le\<close>, so the results hold on little and on big endian machines. \<open>rfc1071\<close> is the
  definition the routine is compared with: the end-around-carry sum of the big endian sixteen bit
  words, the last one padded with a zero byte.
\<close>

subsection \<open>The routine\<close>

text \<open>\<open>binary.NativeEndian\<close> on 8, 4 and 2 bytes, the value widened to a \<open>uint64\<close>.\<close>

definition native :: "bool \<Rightarrow> bytes \<Rightarrow> u64" where
  "native le b = of_nat (if le then get_le b else get_be b)"

definition put_native :: "bool \<Rightarrow> u64 \<Rightarrow> bytes" where
  "put_native le v = (if le then put_le64 v else put_be64 v)"

text \<open>\<open>bits.Add64\<close>: the sum and the carry out.\<close>

definition Add64 :: "u64 \<Rightarrow> u64 \<Rightarrow> u64 \<Rightarrow> u64 \<times> u64" where
  "Add64 x y carry = (x + y + carry, if 2 ^ 64 \<le> unat x + unat y + unat carry then 1 else 0)"

text \<open>One unrolled chain over \<open>n\<close> words: the carry starts at 0, runs through the chain and is added at the end.\<close>

definition add_words :: "bool \<Rightarrow> nat \<Rightarrow> bytes \<Rightarrow> u64 \<Rightarrow> u64" where
  "add_words le n b ac =
     (let (ac, carry) = fold (\<lambda>i (ac, carry). Add64 ac (native le (slice (8 * i) (8 * i + 8) b)) carry) [0..<n] (ac, 0)
      in ac + carry)"

function add_blocks :: "bool \<Rightarrow> bytes \<Rightarrow> u64 \<Rightarrow> bytes \<times> u64" where
  "add_blocks le b ac =
     (if length b \<ge> 128 then add_blocks le (drop 128 b) (add_words le 16 b ac) else (b, ac))"
  by pat_completeness auto

termination
  by (relation "measure (\<lambda>(_, b, _). length b)") auto

declare add_blocks.simps [simp del]

definition add_tail :: "bool \<Rightarrow> nat \<Rightarrow> bytes \<times> u64 \<Rightarrow> bytes \<times> u64" where
  "add_tail le n s =
     (case s of (b, ac) \<Rightarrow>
        if length b \<ge> 8 * n then (drop (8 * n) b, add_words le n b ac) else (b, ac))"

definition add_short :: "bool \<Rightarrow> nat \<Rightarrow> bytes \<times> u64 \<Rightarrow> bytes \<times> u64" where
  "add_short le n s =
     (case s of (b, ac) \<Rightarrow>
        if length b \<ge> n
        then (drop n b, case Add64 ac (native le (take n b)) 0 of (ac, carry) \<Rightarrow> ac + carry)
        else (b, ac))"

definition add_odd :: "bool \<Rightarrow> bytes \<times> u64 \<Rightarrow> u64" where
  "add_odd le s =
     (case s of (b, ac) \<Rightarrow>
        if length b = 1
        then (case Add64 ac (native le [b ! 0, 0]) 0 of (ac, carry) \<Rightarrow> ac + carry)
        else ac)"

definition checksumNoFold :: "bool \<Rightarrow> bytes \<Rightarrow> u64 \<Rightarrow> u64" where
  "checksumNoFold le b initial =
     (let ac = get_be64 (put_native le initial);
          s = add_blocks le b ac;
          s = add_tail le 8 s;
          s = add_tail le 4 s;
          s = add_tail le 2 s;
          s = add_tail le 1 s;
          s = add_short le 4 s;
          s = add_short le 2 s
      in get_be64 (put_native le (add_odd le s)))"

definition fold16 :: "u64 \<Rightarrow> u64" where
  "fold16 ac = drop_bit 16 ac + (ac AND 0xffff)"

definition checksum :: "bool \<Rightarrow> bytes \<Rightarrow> u64 \<Rightarrow> u16" where
  "checksum le b initial = ucast (fold16 (fold16 (fold16 (fold16 (checksumNoFold le b initial)))))"

definition pseudoHeaderChecksumNoFold :: "bool \<Rightarrow> byte \<Rightarrow> bytes \<Rightarrow> bytes \<Rightarrow> u16 \<Rightarrow> u64" where
  "pseudoHeaderChecksumNoFold le protocol srcAddr dstAddr totalLen =
     (let sum = checksumNoFold le srcAddr 0;
          sum = checksumNoFold le dstAddr sum;
          sum = checksumNoFold le [0, protocol] sum
      in checksumNoFold le (put_be16 totalLen) sum)"

subsection \<open>The reference\<close>

fun words16 :: "bytes \<Rightarrow> nat list" where
  "words16 [] = []"
| "words16 [a] = [256 * unat a]"
| "words16 (a # b # r) = (256 * unat a + unat b) # words16 r"

definition end_around :: "nat \<Rightarrow> nat \<Rightarrow> nat" where
  "end_around a w = (if a + w \<ge> 65536 then a + w - 65535 else a + w)"

definition rfc1071 :: "bytes \<Rightarrow> nat" where
  "rfc1071 b = foldl end_around 0 (words16 b)"

subsection \<open>Sums modulo 65535 with one zero kept apart\<close>

text \<open>Sixteen bit ones' complement arithmetic: sums modulo 65535 in which only zero itself is zero.\<close>

definition ones :: "nat \<Rightarrow> nat" where
  "ones x = (if x = 0 then 0 else (x - 1) mod 65535 + 1)"

lemma ones_le: "ones x \<le> 65535"
  using mod_less_divisor [of 65535 "x - 1"] by (auto simp: ones_def)

lemma ones_eq_iff: "ones x = ones y \<longleftrightarrow> x mod 65535 = y mod 65535 \<and> (x = 0 \<longleftrightarrow> y = 0)"
proof (cases "x = 0 \<or> y = 0")
  case True
  then show ?thesis by (auto simp: ones_def)
next
  case False
  then obtain a b where "x = Suc a" "y = Suc b" by (metis not0_implies_Suc)
  moreover have "Suc a mod 65535 = Suc b mod 65535 \<longleftrightarrow> a mod 65535 = b mod 65535"
    by (auto simp: mod_Suc)
  ultimately show ?thesis by (simp add: ones_def)
qed

lemma ones_self: "x \<le> 65535 \<Longrightarrow> ones x = x"
  by (auto simp: ones_def)

lemma ones_ones [simp]: "ones (ones x) = ones x"
  using ones_self ones_le by blast

lemma ones_add_cong: "ones x = ones y \<Longrightarrow> ones u = ones v \<Longrightarrow> ones (x + u) = ones (y + v)"
  unfolding ones_eq_iff by (auto intro: mod_add_cong)

lemma ones_mult_cong: "ones x = ones y \<Longrightarrow> ones (c * x) = ones (c * y)"
  unfolding ones_eq_iff by (auto intro: mod_mult_cong)

lemma ones_add_left [simp]: "ones (ones x + y) = ones (x + y)"
  by (intro ones_add_cong) simp_all

lemma ones_wrap: "x + 65535 * k = y \<Longrightarrow> (y \<noteq> 0 \<Longrightarrow> x \<noteq> 0) \<Longrightarrow> ones x = ones y"
  unfolding ones_eq_iff by auto

lemma ones_65536 [simp]: "ones (65536 * x) = ones x"
  by (rule sym, rule ones_wrap [of _ x]) auto

lemma end_around_ones: "a \<le> 65535 \<Longrightarrow> w \<le> 65535 \<Longrightarrow> end_around a w = ones (a + w)"
  by (auto simp: end_around_def ones_def mod_if)

lemma words16_le: "w \<in> set (words16 b) \<Longrightarrow> w \<le> 65535"
proof (induction b rule: words16.induct)
  case (3 a b r)
  have "256 * unat a + unat b \<le> 65535" using unat_byte_less [of a] unat_byte_less [of b] by linarith
  with 3 show ?case by auto
next
  case (2 a)
  then show ?case using unat_byte_less [of a] by simp
qed auto

lemma foldl_end_around:
  "\<forall>w\<in>set ws. w \<le> 65535 \<Longrightarrow> a \<le> 65535 \<Longrightarrow> foldl end_around a ws = ones (a + sum_list ws)"
proof (induction ws arbitrary: a)
  case Nil
  then show ?case by (simp add: ones_self)
next
  case (Cons w ws)
  then show ?case by (simp add: end_around_ones ones_le add.assoc)
qed

definition sum16 :: "bytes \<Rightarrow> nat" where
  "sum16 b = sum_list (words16 b)"

lemma rfc1071_ones: "rfc1071 b = ones (sum16 b)"
  by (simp add: rfc1071_def foldl_end_around words16_le sum16_def)

lemma sum16_simps [simp]:
  "sum16 [] = 0" "sum16 [a] = 256 * unat a" "sum16 (a # b # r) = 256 * unat a + unat b + sum16 r"
  by (simp_all add: sum16_def)

lemma sum16_append: "even (length a) \<Longrightarrow> sum16 (a @ b) = sum16 a + sum16 b"
  by (induction a rule: words16.induct) auto

lemma sum16_take_drop: "even n \<Longrightarrow> n \<le> length b \<Longrightarrow> sum16 b = sum16 (take n b) + sum16 (drop n b)"
  using sum16_append [of "take n b" "drop n b"] by simp



subsection \<open>The routine computes the sum\<close>

definition order :: "bool \<Rightarrow> nat" where
  "order le = (if le then 256 else 1)"

lemma ones_order_twice: "ones (order le * (order le * x)) = ones x"
  using ones_65536 [of x] by (auto simp: order_def mult.assoc [symmetric] simp del: ones_65536)

lemma ones_get_le: "even (length b) \<Longrightarrow> ones (get_le b) = ones (256 * sum16 b)"
proof (induction b rule: words16.induct)
  case (3 a b r)
  have "ones (65536 * get_le r) = ones (256 * sum16 r)" using 3 by simp
  moreover have "ones (unat a) = ones (65536 * unat a)" by simp
  ultimately have "ones (unat a + 65536 * get_le r + 256 * unat b) =
      ones (65536 * unat a + 256 * sum16 r + 256 * unat b)"
    by (intro ones_add_cong refl)
  then show ?case by (simp add: algebra_simps)
qed auto

lemma ones_256_power: "ones (256 ^ (2 * k) * x) = ones x"
  by (induction k) (auto simp: power_add mult.assoc power2_eq_square)

lemma ones_get_be: "even (length b) \<Longrightarrow> ones (get_be b) = ones (sum16 b)"
proof (induction b rule: words16.induct)
  case (3 a b r)
  then obtain k where k: "length r = 2 * k" by auto
  have "get_be (a # b # r) = 256 ^ (2 * k) * (256 * unat a + unat b) + get_be r"
    using k by (simp add: get_be_Cons algebra_simps)
  then show ?case
    using 3 k ones_add_cong [OF ones_256_power, of "get_be r" "sum16 r"] by simp
qed (auto simp: get_be_Cons)

lemma native_value:
  assumes "length b \<le> 8"
  shows "unat (native le b) = (if le then get_le b else get_be b)"
proof -
  have "(256 :: nat) ^ length b \<le> 256 ^ 8" using assms by (rule power_increasing) simp
  then have "get_le b < 2 ^ 64" "get_be b < 2 ^ 64"
    using get_le_less [of b] get_be_less [of b] by simp_all
  then show ?thesis by (simp add: native_def unat_of_nat_id)
qed

lemma ones_native:
  assumes "length b \<le> 8" and "even (length b)"
  shows "ones (unat (native le b)) = ones (order le * sum16 b)"
  using assms by (simp add: native_value order_def ones_get_le ones_get_be)

lemma ones_swap: "ones (unat (get_be64 (put_native le v))) = ones (order le * unat v)"
proof (cases le)
  case False
  then show ?thesis by (simp add: put_native_def order_def)
next
  case True
  define b where "b = put_le64 v"
  have len: "length b = 8" by (simp add: b_def)
  have v: "get_le b = unat v"
    using unat_word_bounds(3) [of v] by (simp add: b_def put_le64_def get_put_le)
  have "unat (get_be64 b) = get_be b"
    using get_be_less [of b] len by (simp add: get_be64_def unat_of_nat_id)
  moreover have "ones (256 * unat v) = ones (256 * (256 * sum16 b))"
    using ones_get_le [of b] len v by (intro ones_mult_cong) simp
  moreover have "\<dots> = ones (sum16 b)" using ones_order_twice [of True] by (simp add: order_def)
  ultimately show ?thesis using True len ones_get_be [of b] by (simp add: put_native_def order_def b_def)
qed

text \<open>
  A carry out of \<open>Add64\<close> leaves a sum below the largest word, so the carry of a chain can always be
  added to it without a second carry.
\<close>

definition chain_ok :: "u64 \<times> u64 \<Rightarrow> bool" where
  "chain_ok s = (case s of (ac, carry) \<Rightarrow> unat carry = 0 \<or> unat carry = 1 \<and> unat ac < 2 ^ 64 - 1)"

lemma unat_sum3: "unat (x + y + c :: u64) = (unat x + unat y + unat c) mod 2 ^ 64"
  by (simp add: unat_word_ariths mod_add_left_eq)

lemma Add64_step:
  assumes "chain_ok (ac, carry)"
  shows "chain_ok (Add64 ac x carry)"
    and "case Add64 ac x carry of (ac', carry') \<Rightarrow>
           ones (unat ac' + unat carry') = ones (unat ac + unat carry + unat x)"
proof -
  define s where "s = unat ac + unat x + unat carry"
  have b: "s < 2 * 2 ^ 64 - 1"
    using assms unat_u64_less [of ac] unat_u64_less [of x] by (auto simp: chain_ok_def s_def)
  have "chain_ok (Add64 ac x carry) \<and>
    (case Add64 ac x carry of (ac', carry') \<Rightarrow> ones (unat ac' + unat carry') = ones s)"
  proof (cases "s < 2 ^ 64")
    case True
    then show ?thesis by (simp add: Add64_def unat_sum3 chain_ok_def flip: s_def)
  next
    case False
    then have m: "s mod 2 ^ 64 = s - 2 ^ 64" using b by (simp add: le_mod_geq)
    have "(s - (2 ^ 64 - 1)) + 65535 * ((2 ^ 64 - 1) div 65535) = s" using False by simp
    then have "ones (s - (2 ^ 64 - 1)) = ones s" by (rule ones_wrap) (use False in simp)
    moreover have "s - 2 ^ 64 < 2 ^ 64 - 1" using False b by simp
    ultimately show ?thesis using False b m by (simp add: Add64_def unat_sum3 chain_ok_def flip: s_def)
  qed
  then show "chain_ok (Add64 ac x carry)"
    and "case Add64 ac x carry of (ac', carry') \<Rightarrow>
           ones (unat ac' + unat carry') = ones (unat ac + unat carry + unat x)"
    by (auto simp: s_def ac_simps)
qed

lemma chain_end: "chain_ok (ac, carry) \<Longrightarrow> unat (ac + carry) = unat ac + unat carry"
  using unat_u64_less [of ac] by (auto simp: chain_ok_def unat_word_ariths)

definition sums :: "bool \<Rightarrow> bytes \<times> u64 \<Rightarrow> nat" where
  "sums le s = ones (unat (snd s) + order le * sum16 (fst s))"

lemma add_words_prefix:
  assumes "8 * n \<le> length b" and "(ac', carry) =
    fold (\<lambda>i (ac, carry). Add64 ac (native le (slice (8 * i) (8 * i + 8) b)) carry) [0..<n] (ac, 0)"
  shows "chain_ok (ac', carry) \<and> ones (unat ac' + unat carry) = ones (unat ac + order le * sum16 (take (8 * n) b))"
  using assms
proof (induction n arbitrary: ac' carry)
  case 0
  then show ?case by (simp add: chain_ok_def)
next
  case (Suc n)
  obtain a1 c1 where f: "fold (\<lambda>i (ac, carry). Add64 ac (native le (slice (8 * i) (8 * i + 8) b)) carry) [0..<n] (ac, 0) = (a1, c1)"
    by fastforce
  define w where "w = slice (8 * n) (8 * n + 8) b"
  have w: "length w = 8" using Suc.prems(1) by (simp add: w_def)
  have ih: "chain_ok (a1, c1)" "ones (unat a1 + unat c1) = ones (unat ac + order le * sum16 (take (8 * n) b))"
    using Suc.IH [OF _ f [symmetric]] Suc.prems(1) by simp_all
  have step: "Add64 a1 (native le w) c1 = (ac', carry)" using Suc.prems(2) f by (simp add: w_def)
  have "take (8 * Suc n) b = take (8 * n) b @ w"
    by (simp add: w_def slice_def) (metis add.commute take_add)
  then have s: "sum16 (take (8 * Suc n) b) = sum16 (take (8 * n) b) + sum16 w"
    using Suc.prems(1) by (simp add: sum16_append)
  have "ones (unat ac' + unat carry) = ones (unat a1 + unat c1 + unat (native le w))"
    using Add64_step(2) [OF ih(1), of "native le w"] step by simp
  also have "\<dots> = ones (unat ac + order le * sum16 (take (8 * n) b) + order le * sum16 w)"
    by (rule ones_add_cong [OF ih(2)]) (use ones_native [of w le] w in simp)
  finally show ?case
    using Add64_step(1) [OF ih(1), of "native le w"] step s by (simp add: algebra_simps)
qed

lemma sums_split:
  assumes "even n" and "n \<le> length b" and "ones (unat ac') = ones (unat ac + order le * sum16 (take n b))"
  shows "sums le (drop n b, ac') = sums le (b, ac)"
proof -
  have "ones (unat ac' + order le * sum16 (drop n b)) =
      ones (unat ac + order le * sum16 (take n b) + order le * sum16 (drop n b))"
    by (intro ones_add_cong assms(3) refl)
  then show ?thesis using sum16_take_drop [OF assms(1,2)] by (simp add: sums_def algebra_simps)
qed

lemma ones_add_words:
  assumes "8 * n \<le> length b"
  shows "ones (unat (add_words le n b ac)) = ones (unat ac + order le * sum16 (take (8 * n) b))"
proof -
  obtain a c where f: "fold (\<lambda>i (ac, carry). Add64 ac (native le (slice (8 * i) (8 * i + 8) b)) carry) [0..<n] (ac, 0) = (a, c)"
    by fastforce
  show ?thesis using add_words_prefix [OF assms f [symmetric]] f by (simp add: add_words_def chain_end)
qed

lemma sums_add_words: "8 * n \<le> length b \<Longrightarrow> sums le (drop (8 * n) b, add_words le n b ac) = sums le (b, ac)"
  by (intro sums_split ones_add_words) simp_all

lemma sums_add_blocks: "sums le (add_blocks le b ac) = sums le (b, ac) \<and> length (fst (add_blocks le b ac)) < 128"
proof (induction le b ac rule: add_blocks.induct)
  case (1 le b ac)
  show ?case
  proof (cases "length b \<ge> 128")
    case True
    then show ?thesis
      using 1 sums_add_words [of 16 b le ac] by (subst (1 2) add_blocks.simps) simp
  next
    case False
    then show ?thesis by (subst (1 2) add_blocks.simps) simp
  qed
qed

lemma sums_add_tail:
  "sums le (add_tail le n s) = sums le s"
  "length (fst s) < 2 * m \<Longrightarrow> m = 8 * n \<Longrightarrow> length (fst (add_tail le n s)) < m"
  by (auto simp: add_tail_def sums_add_words split: prod.splits)

lemma ones_Add64:
  "ones (unat (case Add64 ac x 0 of (ac, carry) \<Rightarrow> ac + carry)) = ones (unat ac + unat x)"
proof -
  have "chain_ok (ac, 0)" by (simp add: chain_ok_def)
  from Add64_step [OF this, of x] show ?thesis by (auto simp: chain_end split: prod.splits)
qed

lemma sums_add_short:
  assumes "even n" and "n \<le> 8"
  shows "sums le (add_short le n s) = sums le s"
    and "length (fst s) < 2 * n \<Longrightarrow> length (fst (add_short le n s)) < n"
proof -
  obtain b ac where s: "s = (b, ac)" by fastforce
  have "sums le (drop n b, case Add64 ac (native le (take n b)) 0 of (ac, carry) \<Rightarrow> ac + carry) = sums le (b, ac)"
    if "n \<le> length b"
  proof (rule sums_split [OF assms(1) that])
    show "ones (unat (case Add64 ac (native le (take n b)) 0 of (ac, carry) \<Rightarrow> ac + carry)) =
        ones (unat ac + order le * sum16 (take n b))"
      unfolding ones_Add64 using ones_native [of "take n b" le] assms that by (intro ones_add_cong) simp_all
  qed
  then show "sums le (add_short le n s) = sums le s" by (simp add: add_short_def s)
  show "length (fst (add_short le n s)) < n" if "length (fst s) < 2 * n" using that by (auto simp: add_short_def s)
qed

lemma ones_add_odd: "length (fst s) < 2 \<Longrightarrow> ones (unat (add_odd le s)) = sums le s"
proof -
  assume l: "length (fst s) < 2"
  obtain b ac where s: "s = (b, ac)" by fastforce
  show ?thesis
  proof (cases b)
    case Nil
    then show ?thesis by (simp add: s add_odd_def sums_def)
  next
    case (Cons x r)
    then have "ones (unat ac + unat (native le [x, 0])) = ones (unat ac + order le * sum16 [x])"
      using ones_native [of "[x, 0]" le] by (intro ones_add_cong) simp_all
    then show ?thesis using l Cons by (simp add: s add_odd_def sums_def ones_Add64)
  qed
qed

lemma ones_checksumNoFold: "ones (unat (checksumNoFold le b initial)) = ones (unat initial + sum16 b)"
proof -
  define s0 where "s0 = add_blocks le b (get_be64 (put_native le initial))"
  define s1 where "s1 = add_tail le 1 (add_tail le 2 (add_tail le 4 (add_tail le 8 s0)))"
  define s2 where "s2 = add_short le 2 (add_short le 4 s1)"
  have "length (fst s0) < 128" unfolding s0_def using sums_add_blocks by blast
  then have "length (fst s1) < 8"
    unfolding s1_def by (intro sums_add_tail(2)) simp_all
  then have "length (fst s2) < 2"
    unfolding s2_def using sums_add_short(2) [of 2 "add_short le 4 s1" le] sums_add_short(2) [of 4 s1 le] by simp
  then have "ones (unat (add_odd le s2)) = sums le s0"
    unfolding s2_def s1_def by (simp add: ones_add_odd sums_add_short sums_add_tail)
  also have "\<dots> = ones (order le * unat initial + order le * sum16 b)"
    unfolding s0_def using sums_add_blocks ones_add_cong [OF ones_swap refl] by (simp add: sums_def)
  finally have "ones (order le * unat (add_odd le s2)) = ones (order le * (order le * (unat initial + sum16 b)))"
    by (intro ones_mult_cong) (simp add: algebra_simps)
  then show ?thesis
    unfolding checksumNoFold_def Let_def s0_def [symmetric] s1_def [symmetric] s2_def [symmetric]
    by (simp add: ones_swap ones_order_twice)
qed

lemma unat_fold16: "unat (fold16 ac) = unat ac div 65536 + unat ac mod 65536"
proof -
  have m: "unat (ac AND 0xffff) = unat ac mod 65536"
  proof -
    have "ac AND 0xffff = take_bit 16 ac" by (simp add: take_bit_eq_mask mask_eq_exp_minus_1)
    then show ?thesis by (simp add: take_bit_eq_mod unat_mod)
  qed
  have d: "unat (drop_bit 16 ac) = unat ac div 65536"
    by (simp only: unat_drop_bit_eq, simp add: drop_bit_eq_div)
  have "unat ac div 65536 + unat ac mod 65536 < 2 ^ 64"
    using unat_u64_less [of ac] by simp
  then show ?thesis by (simp add: fold16_def unat_word_ariths m d)
qed

lemma ones_fold16: "ones (unat (fold16 ac)) = ones (unat ac)"
proof (rule ones_wrap [of _ "unat ac div 65536"])
  show "unat (fold16 ac) + 65535 * (unat ac div 65536) = unat ac"
    using div_mult_mod_eq [of "unat ac" 65536] by (simp add: unat_fold16)
  show "unat (fold16 ac) \<noteq> 0" if "unat ac \<noteq> 0"
    using that div_mult_mod_eq [of "unat ac" 65536] by (auto simp: unat_fold16)
qed

lemma fold16_bound: "unat ac \<le> 65536 * k + 65534 \<Longrightarrow> unat (fold16 ac) \<le> k + 65534"
proof -
  assume a: "unat ac \<le> 65536 * k + 65534"
  have "unat ac = 65536 * (unat ac div 65536) + unat ac mod 65536" by simp
  moreover have "unat ac mod 65536 < 65536" by simp
  ultimately have "unat ac div 65536 < k \<or> unat ac div 65536 = k \<and> unat ac mod 65536 \<le> 65534" using a by linarith
  moreover have "unat ac mod 65536 \<le> 65535" by (simp add: less_Suc_eq_le [symmetric])
  ultimately show ?thesis unfolding unat_fold16 by linarith
qed

lemma ones_checksum: "unat (checksum le b initial) = ones (unat initial + sum16 b)"
proof -
  define ac where "ac = checksumNoFold le b initial"
  define f where "f = fold16 (fold16 (fold16 (fold16 ac)))"
  have "unat ac \<le> 65536 * 281474976710656 + 65534" using unat_u64_less [of ac] by simp
  then have "unat (fold16 ac) \<le> 65536 * 4294967296 + 65534" using fold16_bound [of _ 281474976710656] by simp
  then have "unat (fold16 (fold16 ac)) \<le> 65536 * 65536 + 65534" using fold16_bound [of _ 4294967296] by simp
  then have "unat (fold16 (fold16 (fold16 ac))) \<le> 65536 * 1 + 65534" using fold16_bound [of _ 65536] by simp
  then have f: "unat f \<le> 65535" unfolding f_def using fold16_bound [of _ 1] by simp
  have "unat (checksum le b initial) = unat f"
    using f by (simp add: checksum_def f_def ac_def unsigned_ucast_eq take_bit_nat_eq_self)
  also have "\<dots> = ones (unat ac)" using ones_self [OF f] by (simp add: f_def ones_fold16)
  finally show ?thesis by (simp add: ac_def ones_checksumNoFold)
qed

lemma sum16_put_be16: "sum16 (put_be16 l) = unat l"
proof -
  define v where "v = unat l"
  have "put_be16 l = [of_nat (v div 256), of_nat v]"
    by (simp add: put_be16_def put_be_def numeral_2_eq_2 flip: v_def)
  moreover have "v div 256 < 256" using unat_u16_less [of l] by (simp add: v_def div_less_iff_less_mult)
  ultimately show ?thesis by (simp flip: v_def)
qed

lemma ones_pseudo: "ones (unat (pseudoHeaderChecksumNoFold le p src dst l)) =
    ones (sum16 src + sum16 dst + unat p + unat l)"
proof -
  have step: "ones (unat (checksumNoFold le b s) + x) = ones (unat s + (sum16 b + x))" for b s x
    using ones_add_cong [OF ones_checksumNoFold refl, of le b s x] by (simp only: add.assoc)
  show ?thesis
    unfolding pseudoHeaderChecksumNoFold_def Let_def ones_checksumNoFold step sum16_put_be16 by (simp add: add.assoc)
qed

lemma ones_complement: "ones (s + (65535 - ones s)) = 65535"
proof -
  have "ones (s + (65535 - ones s)) = ones (ones s + (65535 - ones s))" by (simp only: ones_add_left)
  then show ?thesis using ones_le [of s] by (simp add: ones_self)
qed

text \<open>C12: On little and on big endian machines, for data of every length and every initial value, the
  unrolled and byte swapped routine computes the checksum of RFC 1071: the end-around-carry sum of the
  big endian words of the initial value and of the data. No carry is lost on the way.\<close>

theorem checksum_is_rfc1071: "unat (checksum le b initial) = rfc1071 (put_be64 initial @ b)"
proof -
  have "ones (unat initial) = ones (sum16 (put_be64 initial))"
    using ones_get_be [of "put_be64 initial"] unat_word_bounds(3) [of initial] by (simp add: put_be64_def get_put_be)
  from ones_add_cong [OF this refl] show ?thesis by (simp add: ones_checksum rfc1071_ones sum16_append)
qed

end
