(* ===== verification/PacketFields.thy ===== *)
theory PacketFields
  imports Checksum
begin

text \<open>
  Fixed fields inside a packet buffer: \<open>put_field k v b\<close> is the store \<open>copy(b[k:], v)\<close>, or
  \<open>binary.BigEndian.PutUint16(b[k:], x)\<close>, on a buffer that has room for it, \<open>store\<close> the same with the
  panic of an index out of range as \<open>None\<close>. The collection \<open>store_simps\<close> moves stores past the
  slices of the other fields, and the last lemmas relate a store to the checksum of the packet.
\<close>

named_theorems store_simps \<open>stores and slices of packet fields\<close>

definition put_field :: "nat \<Rightarrow> 'a list \<Rightarrow> 'a list \<Rightarrow> 'a list" where
  "put_field k v b = take k b @ v @ drop (k + length v) b"

definition store :: "nat \<Rightarrow> 'a list \<Rightarrow> 'a list \<Rightarrow> 'a list option" where
  "store k v b = (if k + length v \<le> length b then Some (put_field k v b) else None)"

definition load :: "nat \<Rightarrow> nat \<Rightarrow> 'a list \<Rightarrow> 'a list option" where
  "load i j b = (if i \<le> j \<and> j \<le> length b then Some (slice i j b) else None)"

lemma store_Some [store_simps]: "k + length v \<le> length b \<Longrightarrow> store k v b = Some (put_field k v b)"
  by (simp add: store_def)

lemma load_Some [store_simps]: "i \<le> j \<Longrightarrow> j \<le> length b \<Longrightarrow> load i j b = Some (slice i j b)"
  by (simp add: load_def)

lemma length_put_field [store_simps]: "k + length v \<le> length b \<Longrightarrow> length (put_field k v b) = length b"
  by (simp add: put_field_def)

lemma take_put_field_before [store_simps]:
  "n \<le> k \<Longrightarrow> k + length v \<le> length b \<Longrightarrow> take n (put_field k v b) = take n b"
  by (simp add: put_field_def min_def)

lemma take_put_field_after [store_simps]:
  "k + length v \<le> n \<Longrightarrow> k + length v \<le> length b \<Longrightarrow> take n (put_field k v b) = put_field k v (take n b)"
proof -
  assume a: "k + length v \<le> n" "k + length v \<le> length b"
  then obtain m where "n = k + length v + m" using le_Suc_ex by blast
  with a show ?thesis by (simp add: put_field_def drop_take min_def)
qed

lemma slice_eq: "slice i j b = drop i (take j b)"
  by (simp add: slice_def drop_take)

lemma drop_put_field_after [store_simps]:
  "k + length v \<le> n \<Longrightarrow> k + length v \<le> length b \<Longrightarrow> drop n (put_field k v b) = drop n b"
  by (simp add: put_field_def min_def)

lemma drop_put_field_before [store_simps]:
  "n \<le> k \<Longrightarrow> k + length v \<le> length b \<Longrightarrow> drop n (put_field k v b) = put_field (k - n) v (drop n b)"
  by (simp add: put_field_def drop_take)

lemma slice_put_field_before [store_simps]:
  "j \<le> k \<Longrightarrow> k + length v \<le> length b \<Longrightarrow> slice i j (put_field k v b) = slice i j b"
  by (simp add: slice_eq store_simps)

lemma slice_put_field_after [store_simps]:
  "k + length v \<le> i \<Longrightarrow> k + length v \<le> length b \<Longrightarrow> slice i j (put_field k v b) = slice i j b"
  by (simp add: slice_def store_simps)

lemma slice_put_field_within [store_simps]:
  "i \<le> k \<Longrightarrow> k + length v \<le> j \<Longrightarrow> k + length v \<le> length b \<Longrightarrow>
     slice i j (put_field k v b) = put_field (k - i) v (slice i j b)"
  by (simp add: slice_def store_simps)

lemma slice_put_field_same [store_simps]: "k + length v \<le> length b \<Longrightarrow> j = k + length v \<Longrightarrow> slice k j (put_field k v b) = v"
  by (simp add: slice_def put_field_def)

lemma put_field_all [store_simps]: "length v = length b \<Longrightarrow> put_field 0 v b = v"
  by (simp add: put_field_def)

lemma put_field_slice: "i \<le> j \<Longrightarrow> j \<le> length b \<Longrightarrow> put_field i (slice i j b) b = b"
  using take_slice_drop [of i j b] by (simp add: put_field_def)

lemma slice_slice: "i + l \<le> j \<Longrightarrow> slice k l (slice i j b) = slice (i + k) (i + l) b"
  by (auto simp: slice_def drop_take min_def add.commute)

lemma slice_split: "i \<le> j \<Longrightarrow> j \<le> k \<Longrightarrow> k \<le> length b \<Longrightarrow> slice i k b = slice i j b @ slice j k b"
proof -
  assume ij: "i \<le> j" "j \<le> k" "k \<le> length b"
  have "take j (take k b) @ drop j (take k b) = take k b" by (rule append_take_drop_id)
  then have "drop i (take k b) = drop i (take j (take k b) @ drop j (take k b))" by (rule arg_cong [OF sym])
  then show ?thesis using ij by (simp add: slice_eq)
qed

lemma drop_slice_drop: "i \<le> j \<Longrightarrow> drop i b = slice i j b @ drop j b"
  using append_take_drop_id [of "j - i" "drop i b"] by (simp add: slice_def)

lemma slice_take [store_simps]: "j \<le> n \<Longrightarrow> slice i j (take n b) = slice i j b"
  by (simp add: slice_def drop_take)

subsection \<open>Stores and the checksum\<close>

lemma sum16_put_field:
  assumes "even k" and "even (length v)" and "k + length v \<le> length b"
  shows "sum16 (put_field k v b) + sum16 (slice k (k + length v) b) = sum16 b + sum16 v"
proof -
  define s where "s = slice k (k + length v) b"
  have s: "length s = length v" using assms by (simp add: s_def)
  have "sum16 b = sum16 (take k b @ s @ drop (k + length v) b)"
    using assms by (simp add: s_def take_slice_drop)
  also have "\<dots> = sum16 (take k b) + (sum16 s + sum16 (drop (k + length v) b))"
    using assms s by (simp add: sum16_append)
  finally show ?thesis using assms by (simp add: put_field_def sum16_append s_def)
qed

lemma unat_not_u16: "unat (NOT x :: u16) = 65535 - unat x"
proof -
  have "NOT x = - 1 - x" by (simp add: not_eq_complement)
  moreover have "x \<le> - 1" by simp
  ultimately have "unat (NOT x) = unat (- 1 :: u16) - unat x" by (simp only: unat_sub)
  then show ?thesis by (simp add: unsigned_minus_1_eq_mask mask_eq_exp_minus_1)
qed

text \<open>
  Storing the complement of the checksum in a field that was zero makes the checksum of the whole all
  ones, whatever was added to it from outside.
\<close>

lemma checksum_stored:
  assumes "even k" and "k + 2 \<le> length b" and "sum16 (slice k (k + 2) b) = 0"
  shows "checksum le (put_field k (put_be16 (NOT (checksum le b initial))) b) initial = 0xffff"
proof -
  let ?c = "checksum le b initial"
  have "sum16 (put_field k (put_be16 (NOT ?c)) b) = sum16 b + (65535 - ones (unat initial + sum16 b))"
    using sum16_put_field [of k "put_be16 (NOT ?c)" b] assms by (simp add: sum16_put_be16 unat_not_u16 ones_checksum)
  then have "unat (checksum le (put_field k (put_be16 (NOT ?c)) b) initial) = 65535"
    using ones_complement [of "unat initial + sum16 b"] by (simp add: ones_checksum add.assoc)
  then show ?thesis by (simp add: word_unat_eq_iff)
qed

end
