(* ===== verification/Offload.thy ===== *)
theory Offload
  imports PacketFields "HOL-Library.Monad_Syntax"
begin

text \<open>
  Segmentation offload on Linux: the virtio header and the read side of \<open>tun/offload_linux.go\<close>
  (\<open>gsoSplit\<close>, \<open>gsoNoneChecksum\<close>, \<open>checksumValid\<close>) and \<open>handleVirtioRead\<close> of \<open>tun/tun_linux.go\<close>. The
  kernel delivers one large TCP or UDP packet behind a virtio header; the code cuts it into packets
  of at most \<open>gsoSize\<close> payload bytes and completes their headers and checksums.

  A panic (an index or a slice out of range) is \<open>None\<close>; slices are taken within the length of a
  buffer. An error of the source is a \<open>tun_error\<close>. The byte order \<open>le\<close> of the machine is a parameter.
\<close>

subsection \<open>The virtio header\<close>

record virtioNetHdr =
  vh_flags :: byte
  vh_gsoType :: byte
  vh_hdrLen :: u16
  vh_gsoSize :: u16
  vh_csumStart :: u16
  vh_csumOffset :: u16

datatype tun_error =
    ErrShortBuffer
  | ErrTooManySegments
  | ReadOverflow nat nat
  | UnsupportedGSO byte
  | WrongIPVersion byte byte
  | InvalidIPVersion byte
  | PacketTooShort
  | InvalidTCPHeaderLen u16
  | ShorterThanHeader nat u16
  | HeaderBelowChecksum u16 u16
  | ChecksumBeyondPacket nat nat
  | InvalidOffset

definition virtioNetHdrLen :: nat where
  "virtioNetHdrLen = 10"

definition VIRTIO_NET_HDR_F_NEEDS_CSUM :: byte where "VIRTIO_NET_HDR_F_NEEDS_CSUM = 1"

definition GSO_NONE :: byte where "GSO_NONE = 0"

definition GSO_TCPV4 :: byte where "GSO_TCPV4 = 1"

definition GSO_TCPV6 :: byte where "GSO_TCPV6 = 4"

definition GSO_UDP_L4 :: byte where "GSO_UDP_L4 = 5"

definition IPPROTO_TCP :: byte where "IPPROTO_TCP = 6"

definition IPPROTO_UDP :: byte where "IPPROTO_UDP = 17"

definition tcpFlagsOffset :: nat where "tcpFlagsOffset = 13"

definition tcpFlagFIN :: byte where "tcpFlagFIN = 0x01"

definition tcpFlagPSH :: byte where "tcpFlagPSH = 0x08"

definition tcpFlagACK :: byte where "tcpFlagACK = 0x10"

definition ipv4SrcAddrOffset :: nat where "ipv4SrcAddrOffset = 12"

definition ipv6SrcAddrOffset :: nat where "ipv6SrcAddrOffset = 8"

lemmas offload_consts =
  virtioNetHdrLen_def VIRTIO_NET_HDR_F_NEEDS_CSUM_def GSO_NONE_def GSO_TCPV4_def GSO_TCPV6_def GSO_UDP_L4_def
  IPPROTO_TCP_def IPPROTO_UDP_def tcpFlagsOffset_def tcpFlagFIN_def tcpFlagPSH_def tcpFlagACK_def
  ipv4SrcAddrOffset_def ipv6SrcAddrOffset_def

definition put_native16 :: "bool \<Rightarrow> u16 \<Rightarrow> bytes" where
  "put_native16 le w = (if le then put_le 2 (unat w) else put_be 2 (unat w))"

definition get_native16 :: "bool \<Rightarrow> bytes \<Rightarrow> u16" where
  "get_native16 le b = of_nat (if le then get_le (take 2 b) else get_be (take 2 b))"

text \<open>The header in memory: the fields in order, without padding.\<close>

definition hdr_bytes :: "bool \<Rightarrow> virtioNetHdr \<Rightarrow> bytes" where
  "hdr_bytes le v =
     [vh_flags v, vh_gsoType v] @ put_native16 le (vh_hdrLen v) @ put_native16 le (vh_gsoSize v) @
     put_native16 le (vh_csumStart v) @ put_native16 le (vh_csumOffset v)"

definition hdr_decode :: "bool \<Rightarrow> bytes \<Rightarrow> tun_error + virtioNetHdr" where
  "hdr_decode le b =
     (if length b < virtioNetHdrLen then Inl ErrShortBuffer
      else Inr \<lparr>vh_flags = b ! 0, vh_gsoType = b ! 1, vh_hdrLen = get_native16 le (drop 2 b),
             vh_gsoSize = get_native16 le (drop 4 b), vh_csumStart = get_native16 le (drop 6 b),
             vh_csumOffset = get_native16 le (drop 8 b)\<rparr>)"

definition hdr_encode :: "bool \<Rightarrow> virtioNetHdr \<Rightarrow> bytes \<Rightarrow> tun_error + bytes" where
  "hdr_encode le v b = (if length b < virtioNetHdrLen then Inl ErrShortBuffer else Inr (put_field 0 (hdr_bytes le v) b))"

subsection \<open>Checksums of a packet\<close>

definition checksumValid :: "bool \<Rightarrow> bytes \<Rightarrow> nat \<Rightarrow> byte \<Rightarrow> bool \<Rightarrow> bool" where
  "checksumValid le pkt iphLen proto isV6 =
     (let srcAddrAt = (if isV6 then ipv6SrcAddrOffset else ipv4SrcAddrOffset);
          addrSize = (if isV6 then 16 else 4);
          lenForPseudo = of_nat (length pkt - iphLen);
          cSum = pseudoHeaderChecksumNoFold le proto (slice srcAddrAt (srcAddrAt + addrSize) pkt)
                   (slice (srcAddrAt + addrSize) (srcAddrAt + addrSize * 2) pkt) lenForPseudo
      in NOT (checksum le (drop iphLen pkt) cSum) = 0)"

definition gsoNoneChecksum :: "bool \<Rightarrow> bytes \<Rightarrow> u16 \<Rightarrow> u16 \<Rightarrow> bytes option" where
  "gsoNoneChecksum le inp cSumStart cSumOffset =
     (let cSumAt = unat (cSumStart + cSumOffset) in
      do { initial \<leftarrow> load cSumAt (cSumAt + 2) inp;
           inp \<leftarrow> store cSumAt [0, 0] inp;
           data \<leftarrow> load (unat cSumStart) (length inp) inp;
           store cSumAt (put_be16 (NOT (checksum le data (ucast (get_be16 initial))))) inp })"

subsection \<open>Splitting a packet\<close>

definition set_ipv4_header :: "bool \<Rightarrow> nat \<Rightarrow> nat \<Rightarrow> nat \<Rightarrow> bytes \<Rightarrow> bytes option" where
  "set_ipv4_header le iphLen i totalLen out =
     do { out \<leftarrow> (if i > 0
                  then do { idb \<leftarrow> load 4 6 out; store 4 (put_be16 (get_be16 idb + of_nat i)) out }
                  else Some out);
          out \<leftarrow> store 2 (put_be16 (of_nat totalLen)) out;
          h \<leftarrow> load 0 iphLen out;
          store 10 (put_be16 (NOT (checksum le h 0))) out }"

definition set_tcp_header :: "virtioNetHdr \<Rightarrow> u32 \<Rightarrow> nat \<Rightarrow> bool \<Rightarrow> bytes \<Rightarrow> bytes option" where
  "set_tcp_header hdr firstTCPSeqNum i final out =
     do { out \<leftarrow> store (unat (vh_csumStart hdr + 4)) (put_be32 (firstTCPSeqNum + ucast (vh_gsoSize hdr * of_nat i))) out;
          if final then Some out
          else let at = unat (vh_csumStart hdr + of_nat tcpFlagsOffset) in
               do { f \<leftarrow> load at (at + 1) out; store at [hd f AND NOT (tcpFlagFIN OR tcpFlagPSH)] out } }"

definition set_udp_header :: "virtioNetHdr \<Rightarrow> nat \<Rightarrow> bytes \<Rightarrow> bytes option" where
  "set_udp_header hdr segmentDataLen out =
     store (unat (vh_csumStart hdr + 4)) (put_be16 (of_nat segmentDataLen + (vh_hdrLen hdr - vh_csumStart hdr))) out"

definition gso_segment ::
    "bool \<Rightarrow> bytes \<Rightarrow> virtioNetHdr \<Rightarrow> bool \<Rightarrow> byte \<Rightarrow> u32 \<Rightarrow> nat \<Rightarrow> nat \<Rightarrow> nat \<Rightarrow> bytes \<Rightarrow> bytes option" where
  "gso_segment le inp hdr isV6 protocol firstTCPSeqNum i nextSegmentDataAt nextSegmentEnd out =
     (let iphLen = unat (vh_csumStart hdr);
          hdrLen = unat (vh_hdrLen hdr);
          srcAddrOffset = (if isV6 then ipv6SrcAddrOffset else ipv4SrcAddrOffset);
          addrLen = (if isV6 then 16 else 4);
          segmentDataLen = nextSegmentEnd - nextSegmentDataAt;
          totalLen = hdrLen + segmentDataLen
      in do { iph \<leftarrow> load 0 iphLen inp;
              out \<leftarrow> Some (copy_at 0 iph out);
              out \<leftarrow> (if isV6 then store 4 (put_be16 (of_nat (totalLen - iphLen))) out
                     else set_ipv4_header le iphLen i totalLen out);
              th \<leftarrow> load iphLen hdrLen inp;
              out \<leftarrow> store iphLen th out;
              out \<leftarrow> (if protocol = IPPROTO_TCP
                     then set_tcp_header hdr firstTCPSeqNum i (nextSegmentEnd = length inp) out
                     else set_udp_header hdr segmentDataLen out);
              out \<leftarrow> Some (copy_at hdrLen (slice nextSegmentDataAt nextSegmentEnd inp) out);
              src \<leftarrow> load srcAddrOffset (srcAddrOffset + addrLen) inp;
              dst \<leftarrow> load (srcAddrOffset + addrLen) (srcAddrOffset + addrLen * 2) inp;
              t \<leftarrow> load iphLen totalLen out;
              store (unat (vh_csumStart hdr + vh_csumOffset hdr))
                (put_be16 (NOT (checksum le t (pseudoHeaderChecksumNoFold le protocol src dst
                   (of_nat (unat (vh_hdrLen hdr - vh_csumStart hdr) + segmentDataLen)))))) out })"

text \<open>The loop runs over the buffers \<open>outBuffs\<close> from index \<open>i\<close> on; it returns them rewritten, with the sizes.\<close>

fun gso_loop ::
    "bool \<Rightarrow> bytes \<Rightarrow> virtioNetHdr \<Rightarrow> bool \<Rightarrow> byte \<Rightarrow> u32 \<Rightarrow> nat \<Rightarrow> nat \<Rightarrow> nat \<Rightarrow> bytes list \<Rightarrow> nat list \<Rightarrow>
       (int \<times> tun_error option \<times> bytes list \<times> nat list) option" where
  "gso_loop le inp hdr isV6 protocol seq outOffset i next outs sizes =
     (if next < length inp then
        (case outs of
           [] \<Rightarrow> Some (int i - 1, Some ErrTooManySegments, [], sizes)
         | ob # os \<Rightarrow>
             let end' = min (next + unat (vh_gsoSize hdr)) (length inp);
                 totalLen = unat (vh_hdrLen hdr) + (end' - next)
             in if length sizes \<le> i \<or> length ob < outOffset then None
                else do { out \<leftarrow> gso_segment le inp hdr isV6 protocol seq i next end' (drop outOffset ob);
                          (n, err, os, sizes) \<leftarrow>
                            gso_loop le inp hdr isV6 protocol seq outOffset (i + 1) (next + unat (vh_gsoSize hdr)) os (sizes[i := totalLen]);
                          Some (n, err, (take outOffset ob @ out) # os, sizes) })
      else Some (int i, None, outs, sizes))"

declare gso_loop.simps [simp del]

definition gsoSplit ::
    "bool \<Rightarrow> bytes \<Rightarrow> virtioNetHdr \<Rightarrow> bytes list \<Rightarrow> nat list \<Rightarrow> nat \<Rightarrow> bool \<Rightarrow>
       (int \<times> tun_error option \<times> bytes list \<times> nat list) option" where
  "gsoSplit le inp hdr outBuffs sizes outOffset isV6 =
     (let transportCsumAt = unat (vh_csumStart hdr + vh_csumOffset hdr);
          tcp = (vh_gsoType hdr = GSO_TCPV4 \<or> vh_gsoType hdr = GSO_TCPV6);
          protocol = (if tcp then IPPROTO_TCP else IPPROTO_UDP)
      in do { inp \<leftarrow> (if isV6 then Some inp else store 10 [0, 0] inp);
              inp \<leftarrow> store transportCsumAt [0, 0] inp;
              seq \<leftarrow> (if tcp then map_option get_be32 (load (unat (vh_csumStart hdr + 4)) (unat (vh_csumStart hdr + 4) + 4) inp)
                     else Some 0);
              gso_loop le inp hdr isV6 protocol seq outOffset 0 (unat (vh_hdrLen hdr)) outBuffs sizes })"

definition virtio_none :: "bool \<Rightarrow> virtioNetHdr \<Rightarrow> bytes \<Rightarrow> bytes list \<Rightarrow> nat list \<Rightarrow> nat \<Rightarrow>
    (int \<times> tun_error option \<times> bytes list \<times> nat list) option" where
  "virtio_none le hdr inp bufs sizes offset =
     do { inp \<leftarrow> (if vh_flags hdr AND VIRTIO_NET_HDR_F_NEEDS_CSUM \<noteq> 0
                then gsoNoneChecksum le inp (vh_csumStart hdr) (vh_csumOffset hdr) else Some inp);
          (case (bufs, sizes) of
             (b # bs, _ # ss) \<Rightarrow>
               if length b < offset then None
               else if length inp > length b - offset
               then Some (0, Some (ReadOverflow (length inp) (length b - offset)), bufs, sizes)
               else Some (1, None, put_field offset inp b # bs, length inp # ss)
           | _ \<Rightarrow> None) }"

definition virtio_version :: "virtioNetHdr \<Rightarrow> byte \<Rightarrow> tun_error option" where
  "virtio_version hdr ipVersion =
     (if ipVersion = 4 then
        if vh_gsoType hdr \<noteq> GSO_TCPV4 \<and> vh_gsoType hdr \<noteq> GSO_UDP_L4 then Some (WrongIPVersion ipVersion (vh_gsoType hdr)) else None
      else if ipVersion = 6 then
        if vh_gsoType hdr \<noteq> GSO_TCPV6 \<and> vh_gsoType hdr \<noteq> GSO_UDP_L4 then Some (WrongIPVersion ipVersion (vh_gsoType hdr)) else None
      else Some (InvalidIPVersion ipVersion))"

definition virtio_hdrLen :: "virtioNetHdr \<Rightarrow> bytes \<Rightarrow> tun_error + virtioNetHdr" where
  "virtio_hdrLen hdr inp =
     (if vh_gsoType hdr = GSO_UDP_L4 then Inr (hdr\<lparr>vh_hdrLen := vh_csumStart hdr + 8\<rparr>)
      else if length inp \<le> unat (vh_csumStart hdr + 12) then Inl PacketTooShort
      else let tcpHLen = ucast (drop_bit 4 (inp ! unat (vh_csumStart hdr + 12)) * 4) :: u16
           in if tcpHLen < 20 \<or> tcpHLen > 60 then Inl (InvalidTCPHeaderLen tcpHLen)
              else Inr (hdr\<lparr>vh_hdrLen := vh_csumStart hdr + tcpHLen\<rparr>))"

definition virtio_bounds :: "virtioNetHdr \<Rightarrow> bytes \<Rightarrow> tun_error option" where
  "virtio_bounds hdr inp =
     (let cSumAt = unat (vh_csumStart hdr + vh_csumOffset hdr) in
      if length inp < unat (vh_hdrLen hdr) then Some (ShorterThanHeader (length inp) (vh_hdrLen hdr))
      else if vh_hdrLen hdr < vh_csumStart hdr then Some (HeaderBelowChecksum (vh_hdrLen hdr) (vh_csumStart hdr))
      else if cSumAt + 1 \<ge> length inp then Some (ChecksumBeyondPacket (cSumAt + 1) (length inp))
      else None)"

definition handleVirtioRead ::
    "bool \<Rightarrow> bytes \<Rightarrow> bytes list \<Rightarrow> nat list \<Rightarrow> nat \<Rightarrow> (int \<times> tun_error option \<times> bytes list \<times> nat list) option" where
  "handleVirtioRead le inp bufs sizes offset =
     (case hdr_decode le inp of
        Inl e \<Rightarrow> Some (0, Some e, bufs, sizes)
      | Inr hdr \<Rightarrow>
          let inp = drop virtioNetHdrLen inp in
          if vh_gsoType hdr = GSO_NONE then virtio_none le hdr inp bufs sizes offset
          else if vh_gsoType hdr \<noteq> GSO_TCPV4 \<and> vh_gsoType hdr \<noteq> GSO_TCPV6 \<and> vh_gsoType hdr \<noteq> GSO_UDP_L4
          then Some (0, Some (UnsupportedGSO (vh_gsoType hdr)), bufs, sizes)
          else if inp = [] then None
          else let ipVersion = drop_bit 4 (inp ! 0) in
            (case virtio_version hdr ipVersion of
               Some e \<Rightarrow> Some (0, Some e, bufs, sizes)
             | None \<Rightarrow>
                 (case virtio_hdrLen hdr inp of
                    Inl e \<Rightarrow> Some (0, Some e, bufs, sizes)
                  | Inr hdr \<Rightarrow>
                      (case virtio_bounds hdr inp of
                         Some e \<Rightarrow> Some (0, Some e, bufs, sizes)
                       | None \<Rightarrow> gsoSplit le inp hdr bufs sizes offset (ipVersion = 6)))))"

subsection \<open>The headers of a segment\<close>

text \<open>A packet header with a field that is rewritten: the rest of the header is kept.\<close>

lemma put_prefix: "n \<le> length b \<Longrightarrow> length b' = length b \<Longrightarrow> drop n b' = drop n b \<Longrightarrow> b' = take n b' @ drop n b"
  by (metis append_take_drop_id)

lemma ipv4_header:
  assumes "20 \<le> n" "n \<le> length out" "sum16 (slice 10 12 out) = 0"
  obtains h where "set_ipv4_header le n i len out = Some (h @ drop n out)" "length h = n"
    "slice 12 n h = slice 12 n out" "get_be16 (slice 2 4 h) = of_nat len" "checksum le h 0 = 0xffff"
proof -
  define o1 where "o1 = (if i > 0 then put_field 4 (put_be16 (get_be16 (slice 4 6 out) + of_nat i)) out else out)"
  have o1: "length o1 = length out" "drop n o1 = drop n out" "slice 12 n o1 = slice 12 n out" "slice 10 12 o1 = slice 10 12 out"
    using assms by (simp_all add: o1_def store_simps)
  define o2 where "o2 = put_field 2 (put_be16 (of_nat len)) o1"
  have o2: "length o2 = length out" "drop n o2 = drop n out" "slice 12 n o2 = slice 12 n out" "slice 10 12 o2 = slice 10 12 out"
    "slice 2 4 o2 = put_be16 (of_nat len)"
    using assms o1 by (simp_all add: o2_def store_simps)
  define c where "c = NOT (checksum le (slice 0 n o2) 0)"
  define o3 where "o3 = put_field 10 (put_be16 c) o2"
  have o3: "length o3 = length out" "drop n o3 = drop n out" "slice 12 n o3 = slice 12 n out" "slice 2 4 o3 = put_be16 (of_nat len)"
    using assms o2 by (simp_all add: o3_def store_simps)
  have s: "slice 0 n x = take n x" for x :: bytes by (simp add: slice_def)
  have "set_ipv4_header le n i len out = Some o3"
    using assms o1 o2 by (simp add: set_ipv4_header_def store_simps o1_def [symmetric] o2_def [symmetric] o3_def c_def)
      (simp add: o1_def store_simps o2_def o3_def)
  then have "set_ipv4_header le n i len out = Some (take n o3 @ drop n out)"
    using put_prefix [of n out o3] assms o3 by simp
  moreover have "take n o3 = put_field 10 (put_be16 c) (take n o2)"
    using assms o2 by (simp add: o3_def store_simps)
  then have "checksum le (take n o3) 0 = 0xffff"
    using checksum_stored [of 10 "take n o2" le 0] assms o2 by (simp add: c_def s store_simps)
  moreover have "slice 12 n (take n o3) = slice 12 n out" "slice 2 4 (take n o3) = put_be16 (of_nat len)"
    using assms o3 by (simp_all add: store_simps)
  ultimately show ?thesis using that [of "take n o3"] assms o3 by simp
qed

lemma put_middle:
  assumes "n \<le> m" "m \<le> length b" "length b' = length b" "take n b' = take n b" "drop m b' = drop m b"
  shows "b' = take n b @ slice n m b' @ drop m b"
  using take_slice_drop [of n m b'] assms by simp

lemma unat_add_small: "unat (a :: u16) + k < 65536 \<Longrightarrow> unat (a + of_nat k) = unat a + k"
  by (simp add: unat_word_ariths unat_of_nat_id)

lemma tcp_header:
  assumes "unat (vh_csumStart hdr) = n" "n + 20 \<le> m" "m \<le> length out" "m < 65536"
  obtains t where "set_tcp_header hdr seq i final out = Some (take n out @ t @ drop m out)" "length t = m - n"
    "slice 0 4 t = slice n (n + 4) out" "slice 14 (m - n) t = slice (n + 14) m out"
    "slice 8 13 t = slice (n + 8) (n + 13) out"
    "get_be32 (slice 4 8 t) = seq + ucast (vh_gsoSize hdr * of_nat i)"
    "t ! 13 = (if final then out ! (n + 13) else out ! (n + 13) AND NOT (tcpFlagFIN OR tcpFlagPSH))"
proof -
  have at: "unat (vh_csumStart hdr + 4) = n + 4" "unat (vh_csumStart hdr + of_nat tcpFlagsOffset) = n + 13"
    using unat_add_small [of "vh_csumStart hdr" 4] unat_add_small [of "vh_csumStart hdr" 13] assms by (simp_all add: tcpFlagsOffset_def)
  define o1 where "o1 = put_field (n + 4) (put_be32 (seq + ucast (vh_gsoSize hdr * of_nat i))) out"
  have o1: "length o1 = length out" "take n o1 = take n out" "drop m o1 = drop m out" "slice n (n + 4) o1 = slice n (n + 4) out"
    "slice (n + 8) j o1 = slice (n + 8) j out" "slice (n + 14) m o1 = slice (n + 14) m out" "slice (n + 4) (n + 8) o1 = put_be32 (seq + ucast (vh_gsoSize hdr * of_nat i))"
    "slice (n + 13) (n + 14) o1 = slice (n + 13) (n + 14) out" for j
    using assms by (simp_all add: o1_def store_simps)
  have fl: "slice (n + 13) (n + 14) out = [out ! (n + 13)]"
    using assms by (simp add: slice_def take_Suc_conv_app_nth hd_drop_conv_nth Cons_nth_drop_Suc [symmetric])
  define f where "f = (if final then out ! (n + 13) else out ! (n + 13) AND NOT (tcpFlagFIN OR tcpFlagPSH))"
  define o2 where "o2 = put_field (n + 13) [f] o1"
  have o2: "length o2 = length out" "take n o2 = take n out" "drop m o2 = drop m out" "slice n (n + 4) o2 = slice n (n + 4) out"
    "slice (n + 8) (n + 13) o2 = slice (n + 8) (n + 13) out" "slice (n + 14) m o2 = slice (n + 14) m out"
    "slice (n + 4) (n + 8) o2 = put_be32 (seq + ucast (vh_gsoSize hdr * of_nat i))" "slice (n + 13) (n + 14) o2 = [f]"
    using assms o1 by (simp_all add: o2_def store_simps)
  have "o2 = o1" if final
    using put_field_slice [of "n + 13" "n + 14" o1] that assms o1 fl by (simp add: o2_def f_def)
  then have "set_tcp_header hdr seq i final out = Some o2"
    using assms o1 fl by (auto simp: set_tcp_header_def at o1_def [symmetric] o2_def f_def store_simps Let_def)
      (simp_all add: o1_def store_simps fl add.commute [of 14])
  moreover have "o2 = take n out @ slice n m o2 @ drop m out"
    using assms o2 by (intro put_middle) simp_all
  ultimately have eq: "set_tcp_header hdr seq i final out = Some (take n out @ slice n m o2 @ drop m out)" by simp
  have sl: "slice j k (slice n m o2) = slice (n + j) (n + k) o2" if "n + k \<le> m" for j k
    using that by (rule slice_slice)
  have "slice 13 14 (slice n m o2) = [f]" using sl [of 14 13] assms o2 by simp
  then have "slice n m o2 ! 13 = f" using assms o2
    by (simp add: slice_def take_Suc_conv_app_nth)
  then show ?thesis
    using that [OF eq] assms o2 sl [of 4 0] sl [of "m - n" 14] sl [of 13 8] sl [of 8 4] by (simp add: f_def)
qed

lemma udp_header:
  assumes "unat (vh_csumStart hdr) = n" "n + 8 \<le> length out" "n + 8 < 65536"
  obtains t where "set_udp_header hdr dataLen out = Some (take n out @ t @ drop (n + 8) out)" "length t = 8"
    "slice 0 4 t = slice n (n + 4) out" "slice 6 8 t = slice (n + 6) (n + 8) out"
    "get_be16 (slice 4 6 t) = of_nat dataLen + (vh_hdrLen hdr - vh_csumStart hdr)"
proof -
  have at: "unat (vh_csumStart hdr + 4) = n + 4" using unat_add_small [of "vh_csumStart hdr" 4] assms by simp
  define o1 where "o1 = put_field (n + 4) (put_be16 (of_nat dataLen + (vh_hdrLen hdr - vh_csumStart hdr))) out"
  have o1: "length o1 = length out" "take n o1 = take n out" "drop (n + 8) o1 = drop (n + 8) out"
    "slice n (n + 4) o1 = slice n (n + 4) out" "slice (n + 6) (n + 8) o1 = slice (n + 6) (n + 8) out"
    "slice (n + 4) (n + 6) o1 = put_be16 (of_nat dataLen + (vh_hdrLen hdr - vh_csumStart hdr))"
    using assms by (simp_all add: o1_def store_simps)
  have mid: "o1 = take n out @ slice n (n + 8) o1 @ drop (n + 8) out"
    using assms o1 by (intro put_middle) simp_all
  have "set_udp_header hdr dataLen out = Some o1" using assms by (simp add: set_udp_header_def at store_Some o1_def)
  then have eq: "set_udp_header hdr dataLen out = Some (take n out @ slice n (n + 8) o1 @ drop (n + 8) out)"
    by (rule trans) (rule arg_cong [OF mid])
  have sl: "slice j k (slice n (n + 8) o1) = slice (n + j) (n + k) o1" if "k \<le> 8" for j k
    using slice_slice [of n k "n + 8" j o1] that by simp
  show ?thesis using that [OF eq] assms o1 sl [of 4 0] sl [of 8 6] sl [of 6 4] by simp
qed

subsection \<open>A segment\<close>

definition gso_tcp :: "virtioNetHdr \<Rightarrow> bool" where
  "gso_tcp hdr = (vh_gsoType hdr = GSO_TCPV4 \<or> vh_gsoType hdr = GSO_TCPV6)"

definition gso_protocol :: "virtioNetHdr \<Rightarrow> byte" where
  "gso_protocol hdr = (if gso_tcp hdr then IPPROTO_TCP else IPPROTO_UDP)"

text \<open>
  What the kernel promises of a packet and its header: the checksum starts at the transport header,
  behind a complete IP header, and lies at the place of the transport's checksum; the header ends
  behind the transport header; the packet is no longer than an IP packet can be.
\<close>

definition gso_frame :: "virtioNetHdr \<Rightarrow> bytes \<Rightarrow> bool \<Rightarrow> bool" where
  "gso_frame hdr inp isV6 =
     (let n = unat (vh_csumStart hdr); m = unat (vh_hdrLen hdr) in
      (if isV6 then 40 else 20) \<le> n \<and> m \<le> length inp \<and> length inp < 65536 \<and> 0 < vh_gsoSize hdr \<and>
      (if gso_tcp hdr then n + 20 \<le> m \<and> vh_csumOffset hdr = 16 else m = n + 8 \<and> vh_csumOffset hdr = 6))"

definition segment_ok :: "bool \<Rightarrow> virtioNetHdr \<Rightarrow> bytes \<Rightarrow> bool \<Rightarrow> u32 \<Rightarrow> bytes \<Rightarrow> bytes \<Rightarrow> bool" where
  "segment_ok le hdr inp isV6 seq data pkt =
     (let n = unat (vh_csumStart hdr); m = unat (vh_hdrLen hdr) in
      length pkt = m + length data \<and> drop m pkt = data \<and>
      checksumValid le pkt n (gso_protocol hdr) isV6 \<and>
      (if isV6 then get_be16 (slice 4 6 pkt) = of_nat (length pkt - n) \<and> slice 8 40 pkt = slice 8 40 inp
       else get_be16 (slice 2 4 pkt) = of_nat (length pkt) \<and> checksum le (take n pkt) 0 = 0xffff \<and> slice 12 20 pkt = slice 12 20 inp) \<and>
      slice n (n + 4) pkt = slice n (n + 4) inp \<and>
      (if gso_tcp hdr then get_be32 (slice (n + 4) (n + 8) pkt) = seq
       else get_be16 (slice (n + 4) (n + 6) pkt) = of_nat (length pkt - n)))"

lemma ip_header:
  assumes "(if isV6 then 40 else 20) \<le> n" "n \<le> length out" "\<not> isV6 \<Longrightarrow> sum16 (slice 10 12 out) = 0"
  obtains h where "(if isV6 then store 4 (put_be16 (of_nat (len - n))) out else set_ipv4_header le n i len out) = Some (h @ drop n out)"
    "length h = n" "\<not> isV6 \<Longrightarrow> slice 12 20 h = slice 12 20 out" "isV6 \<Longrightarrow> slice 8 40 h = slice 8 40 out"
    "isV6 \<Longrightarrow> get_be16 (slice 4 6 h) = of_nat (len - n)"
    "\<not> isV6 \<Longrightarrow> get_be16 (slice 2 4 h) = of_nat len \<and> checksum le h 0 = 0xffff"
proof (cases isV6)
  case True
  define o1 where "o1 = put_field 4 (put_be16 (of_nat (len - n))) out"
  have o1: "length o1 = length out" "drop n o1 = drop n out" "slice 8 40 o1 = slice 8 40 out" "slice 4 6 o1 = put_be16 (of_nat (len - n))"
    using assms True by (simp_all add: o1_def store_simps)
  have st: "store 4 (put_be16 (of_nat (len - n))) out = Some o1" using assms True by (simp add: o1_def store_Some)
  moreover have "o1 = take n o1 @ drop n out" using put_prefix [of n out o1] o1 assms by simp
  moreover have "slice 8 40 (take n o1) = slice 8 40 out" "slice 4 6 (take n o1) = put_be16 (of_nat (len - n))"
    using assms o1 True by (simp_all add: store_simps)
  ultimately show ?thesis using that [of "take n o1"] True assms o1 by simp
next
  case False
  obtain h where h: "set_ipv4_header le n i len out = Some (h @ drop n out)" "length h = n"
    "slice 12 n h = slice 12 n out" "get_be16 (slice 2 4 h) = of_nat len" "checksum le h 0 = 0xffff"
    using ipv4_header [of n out le i len] assms False by auto
  have "slice 12 20 h = slice 0 8 (slice 12 n h)" "slice 12 20 out = slice 0 8 (slice 12 n out)"
    using slice_slice [of 12 8 n 0 h] slice_slice [of 12 8 n 0 out] assms False by simp_all
  then have "slice 12 20 h = slice 12 20 out" using h(3) by simp
  then show ?thesis using that [of h] False h by simp
qed

lemma transport_header:
  assumes "gso_frame hdr inp isV6" "unat (vh_csumStart hdr) = n" "unat (vh_hdrLen hdr) = m" "m \<le> length out"
  obtains t where "(if gso_protocol hdr = IPPROTO_TCP then set_tcp_header hdr seq i final out else set_udp_header hdr dataLen out) =
      Some (take n out @ t @ drop m out)" "length t = m - n" "slice 0 4 t = slice n (n + 4) out"
    "slice (unat (vh_csumOffset hdr)) (unat (vh_csumOffset hdr) + 2) t =
       slice (n + unat (vh_csumOffset hdr)) (n + (unat (vh_csumOffset hdr) + 2)) out"
    "gso_tcp hdr \<Longrightarrow> get_be32 (slice 4 8 t) = seq + ucast (vh_gsoSize hdr * of_nat i)"
    "\<not> gso_tcp hdr \<Longrightarrow> get_be16 (slice 4 6 t) = of_nat (m - n + dataLen)"
proof (cases "gso_tcp hdr")
  case True
  have b: "n + 20 \<le> m" "m < 65536" "unat (vh_csumOffset hdr) = 16" using assms True by (auto simp: gso_frame_def Let_def)
  obtain t where t: "set_tcp_header hdr seq i final out = Some (take n out @ t @ drop m out)" "length t = m - n"
    "slice 0 4 t = slice n (n + 4) out" "slice 14 (m - n) t = slice (n + 14) m out"
    "get_be32 (slice 4 8 t) = seq + ucast (vh_gsoSize hdr * of_nat i)"
    using tcp_header [OF assms(2) b(1) assms(4) b(2), of seq i final] by metis
  have "slice 16 18 t = slice 2 4 (slice 14 (m - n) t)" "slice (n + 16) (n + 18) out = slice 2 4 (slice (n + 14) m out)"
    using slice_slice [of 14 4 "m - n" 2 t] slice_slice [of "n + 14" 4 m 2 out] b by (simp_all add: add.commute)
  then have "slice 16 18 t = slice (n + 16) (n + 18) out" using t(4) by simp
  then show ?thesis using that [of t] True t b by (simp add: gso_protocol_def IPPROTO_TCP_def)
next
  case False
  have b: "m = n + 8" "m < 65536" "unat (vh_csumOffset hdr) = 6" using assms False by (auto simp: gso_frame_def Let_def)
  have "vh_hdrLen hdr = vh_csumStart hdr + 8"
    using unat_add_small [of "vh_csumStart hdr" 8] b assms(2,3) by (simp add: word_unat_eq_iff)
  then have l: "of_nat dataLen + (vh_hdrLen hdr - vh_csumStart hdr) = of_nat (m - n + dataLen)" using b by (simp add: add.commute)
  show ?thesis
    by (rule udp_header [of hdr n out dataLen])
      (use that False l b assms in \<open>auto simp: gso_protocol_def IPPROTO_TCP_def IPPROTO_UDP_def\<close>)
qed

lemma append_fields [store_simps]:
  "length h = n \<Longrightarrow> put_field n v (h @ r) = h @ put_field 0 v r"
  "length h = n \<Longrightarrow> k + length v \<le> length t \<Longrightarrow> put_field (n + k) v (h @ t @ r) = h @ put_field k v t @ r"
  "k + length v \<le> length t \<Longrightarrow> put_field k v (t @ r) = put_field k v t @ r"
  by (auto simp: put_field_def)

lemma segment_valid:
  assumes frame: "gso_frame hdr inp isV6" and n: "unat (vh_csumStart hdr) = n" and m: "unat (vh_hdrLen hdr) = m"
    and co: "unat (vh_csumOffset hdr) = co"
    and h: "length h = n" "\<not> isV6 \<Longrightarrow> slice 12 20 h = slice 12 20 inp" "isV6 \<Longrightarrow> slice 8 40 h = slice 8 40 inp"
    and t: "length t = m - n" "sum16 (slice co (co + 2) t) = 0"
    and c: "c = NOT (checksum le (t @ data) (pseudoHeaderChecksumNoFold le p
      (slice (if isV6 then 8 else 12) (if isV6 then 24 else 16) inp)
      (slice (if isV6 then 24 else 16) (if isV6 then 40 else 20) inp) (of_nat (m - n + length data))))"
  shows "checksumValid le (h @ put_field co (put_be16 c) t @ data) n p isV6"
proof -
  have b: "(if isV6 then 40 else 20) \<le> n" "n \<le> m" "even co" "co + 2 \<le> m - n"
    using frame n m co by (auto simp: gso_frame_def Let_def split: if_splits)
  let ?pkt = "h @ put_field co (put_be16 c) t @ data"
  have "drop n ?pkt = put_field co (put_be16 c) (t @ data)" using h t b by (simp add: store_simps)
  moreover have "length ?pkt - n = m - n + length data" using h t b by (simp add: store_simps)
  moreover have "slice (if isV6 then 8 else 12) (if isV6 then 24 else 16) ?pkt = slice (if isV6 then 8 else 12) (if isV6 then 24 else 16) inp"
    "slice (if isV6 then 24 else 16) (if isV6 then 40 else 20) ?pkt = slice (if isV6 then 24 else 16) (if isV6 then 40 else 20) inp"
  proof -
    have "slice 8 24 x = slice 0 16 (slice 8 40 x)" "slice 24 40 x = slice 16 32 (slice 8 40 x)"
      "slice 12 16 x = slice 0 4 (slice 12 20 x)" "slice 16 20 x = slice 4 8 (slice 12 20 x)" for x :: bytes
      by (simp_all add: slice_slice)
    then show "slice (if isV6 then 8 else 12) (if isV6 then 24 else 16) ?pkt = slice (if isV6 then 8 else 12) (if isV6 then 24 else 16) inp"
      "slice (if isV6 then 24 else 16) (if isV6 then 40 else 20) ?pkt = slice (if isV6 then 24 else 16) (if isV6 then 40 else 20) inp"
      using h b by (cases isV6; simp add: slice_append_left)+
  qed
  moreover have "checksum le (put_field co (put_be16 c) (t @ data)) s = 0xffff"
    if "c = NOT (checksum le (t @ data) s)" for s
    using checksum_stored [of co "t @ data" le s] b t that by (simp add: slice_append_left)
  ultimately show ?thesis
    using c by (cases isV6) (simp_all add: checksumValid_def Let_def offload_consts)
qed

text \<open>The checksum that the code stores in a segment with transport header \<open>t\<close> and payload \<open>data\<close>.\<close>

definition segment_csum :: "bool \<Rightarrow> bytes \<Rightarrow> bool \<Rightarrow> byte \<Rightarrow> bytes \<Rightarrow> bytes \<Rightarrow> u16" where
  "segment_csum le inp isV6 p t data =
     NOT (checksum le (t @ data) (pseudoHeaderChecksumNoFold le p
       (slice (if isV6 then 8 else 12) (if isV6 then 24 else 16) inp)
       (slice (if isV6 then 24 else 16) (if isV6 then 40 else 20) inp) (of_nat (length t + length data))))"

lemma gso_segment_shape:
  assumes b: "(if isV6 then 40 else 20) \<le> n" "n \<le> m" "m \<le> length inp" "co + 2 \<le> m - n" "n + co < 65536"
    and n: "unat (vh_csumStart hdr) = n" and m: "unat (vh_hdrLen hdr) = m" and co: "unat (vh_csumOffset hdr) = co"
    and d: "data = slice next en inp" "length data = en - next" "m + length data \<le> length out"
    and h: "(if isV6 then store 4 (put_be16 (of_nat (m + length data - n))) (take n inp @ drop n out)
        else set_ipv4_header le n i (m + length data) (take n inp @ drop n out)) = Some (h @ drop n out)" "length h = n"
    and t: "(if p = IPPROTO_TCP then set_tcp_header hdr seq i (en = length inp) (h @ slice n m inp @ drop m out)
        else set_udp_header hdr (length data) (h @ slice n m inp @ drop m out)) = Some (h @ t @ drop m out)" "length t = m - n"
  shows "gso_segment le inp hdr isV6 p seq i next en out =
    Some (h @ put_field co (put_be16 (segment_csum le inp isV6 p t data)) t @ data @ drop (m + length data) out)"
proof -
  have o0: "copy_at 0 (slice 0 n inp) out = take n inp @ drop n out"
    using b d by (simp add: copy_at_fits slice_def min_def)
  have o1: "store n (slice n m inp) (h @ drop n out) = Some (h @ slice n m inp @ drop m out)"
    using h b d by (simp add: store_def put_field_def)
  have o2: "copy_at m data (h @ t @ drop m out) = h @ t @ data @ drop (m + length data) out"
    using h(2) t(2) b d(3) by (simp add: copy_at_fits add.commute)
  have o3: "load n (m + length data) (h @ t @ data @ drop (m + length data) out) = Some (t @ data)"
    using h(2) t(2) b d(3) by (simp add: load_def slice_def)
  have at: "unat (vh_csumStart hdr + vh_csumOffset hdr) = n + co"
    using b n co by (simp add: unat_word_ariths)
  have le: "vh_csumStart hdr \<le> vh_hdrLen hdr" using b n m by (simp add: word_le_nat_alt)
  have pl: "unat (vh_hdrLen hdr - vh_csumStart hdr) = m - n" using n m by (simp add: unat_sub [OF le])
  have st: "store (n + co) (put_be16 c) (h @ t @ data @ drop (m + length data) out) =
      Some (h @ put_field co (put_be16 c) t @ data @ drop (m + length data) out)" for c
    using h(2) t(2) b d(3) by (simp add: store_def append_fields)
  have ad: "load (if isV6 then 8 else 12) (if isV6 then 24 else 16) inp = Some (slice (if isV6 then 8 else 12) (if isV6 then 24 else 16) inp)"
    "load (if isV6 then 24 else 16) (if isV6 then 40 else 20) inp = Some (slice (if isV6 then 24 else 16) (if isV6 then 40 else 20) inp)"
    using b by (auto simp: load_def split: if_splits)
  have ends: "(if isV6 then 8 else 12) + (if isV6 then 16 else 4) = (if isV6 then 24 else 16 :: nat)"
    "(if isV6 then 8 else 12) + (if isV6 then 16 else 4) * 2 = (if isV6 then 40 else 20 :: nat)" by simp_all
  have ld: "load 0 n inp = Some (slice 0 n inp)" "load n m inp = Some (slice n m inp)" using b by (simp_all add: load_def)
  show ?thesis
    unfolding gso_segment_def n m Let_def at pl d(2) [symmetric] d(1) [symmetric] ipv6SrcAddrOffset_def ipv4SrcAddrOffset_def ends
    by (simp only: ld Option.bind.simps o0 h(1) o1 t(1) o2 ad o3 st) (simp only: segment_csum_def t(2))
qed

lemma segment_parts_ok:
  assumes frame: "gso_frame hdr inp isV6" and n: "unat (vh_csumStart hdr) = n" and m: "unat (vh_hdrLen hdr) = m"
    and co: "unat (vh_csumOffset hdr) = co"
    and h: "length h = n" "\<not> isV6 \<Longrightarrow> slice 12 20 h = slice 12 20 inp" "isV6 \<Longrightarrow> slice 8 40 h = slice 8 40 inp"
      "isV6 \<Longrightarrow> get_be16 (slice 4 6 h) = of_nat (m + length data - n)"
      "\<not> isV6 \<Longrightarrow> get_be16 (slice 2 4 h) = of_nat (m + length data) \<and> checksum le h 0 = 0xffff"
    and t: "length t = m - n" "slice 0 4 t = slice n (n + 4) inp" "sum16 (slice co (co + 2) t) = 0"
      "gso_tcp hdr \<Longrightarrow> get_be32 (slice 4 8 t) = seq"
      "\<not> gso_tcp hdr \<Longrightarrow> get_be16 (slice 4 6 t) = of_nat (m - n + length data)"
  shows "segment_ok le hdr inp isV6 seq data (h @ put_field co (put_be16 (segment_csum le inp isV6 (gso_protocol hdr) t data)) t @ data)"
proof -
  define c where "c = segment_csum le inp isV6 (gso_protocol hdr) t data"
  let ?t = "put_field co (put_be16 c) t"
  let ?pkt = "h @ ?t @ data"
  have b: "(if isV6 then 40 else 20) \<le> n" "n + 8 \<le> m" "co + 2 \<le> m - n" "6 \<le> co" "\<not> gso_tcp hdr \<Longrightarrow> m = n + 8" "gso_tcp hdr \<Longrightarrow> co = 16 \<and> n + 20 \<le> m"
    using frame n m co by (auto simp: gso_frame_def Let_def split: if_splits)
  have lt: "length ?t = m - n" using t(1) b by (simp add: store_simps)
  have hs: "slice j k ?pkt = slice j k h" if "k \<le> n" for j k using that h(1) by (simp add: slice_append_left)
  have ts: "slice (n + j) (n + k) ?pkt = slice j k t" if "k \<le> co" for j k
    using that h(1) lt t(1) b by (simp add: slice_append_right slice_append_left store_simps)
  have len: "length ?pkt = m + length data" "length ?pkt - n = m - n + length data" using h(1) lt b by simp_all
  have "checksumValid le ?pkt n (gso_protocol hdr) isV6"
    by (rule segment_valid [OF frame n m co h(1-3) t(1,3)]) (simp_all add: c_def segment_csum_def t(1))
  moreover have "drop m ?pkt = data" "take n ?pkt = h" using h(1) lt b by simp_all
  moreover have "slice n (n + 4) ?pkt = slice n (n + 4) inp" using ts [of 4 0] t(2) b by simp
  moreover have "gso_tcp hdr \<Longrightarrow> get_be32 (slice (n + 4) (n + 8) ?pkt) = seq" using ts [of 8 4] t(4) b by simp
  moreover have "\<not> gso_tcp hdr \<Longrightarrow> get_be16 (slice (n + 4) (n + 6) ?pkt) = of_nat (length ?pkt - n)"
    unfolding len(2) using ts [of 6 4] t(5) b by simp
  moreover have "if isV6 then get_be16 (slice 4 6 ?pkt) = of_nat (length ?pkt - n) \<and> slice 8 40 ?pkt = slice 8 40 inp
       else get_be16 (slice 2 4 ?pkt) = of_nat (length ?pkt) \<and> slice 12 20 ?pkt = slice 12 20 inp"
    unfolding len(1) using h b by (cases isV6) (simp_all add: hs)
  ultimately show ?thesis
    unfolding segment_ok_def Let_def n m c_def [symmetric] using len(1) h(5) by (auto split: if_splits)
qed

lemma gso_segment_ok:
  assumes frame: "gso_frame hdr inp isV6" and n: "unat (vh_csumStart hdr) = n" and m: "unat (vh_hdrLen hdr) = m"
    and co: "unat (vh_csumOffset hdr) = co"
    and z: "\<not> isV6 \<Longrightarrow> sum16 (slice 10 12 inp) = 0" "sum16 (slice (n + co) (n + (co + 2)) inp) = 0"
    and range: "next \<le> en" "en \<le> length inp" "m + (en - next) \<le> length out"
  shows "\<exists>pkt. gso_segment le inp hdr isV6 (gso_protocol hdr) seq i next en out = Some (pkt @ drop (m + (en - next)) out) \<and>
    segment_ok le hdr inp isV6 (seq + ucast (vh_gsoSize hdr * of_nat i)) (slice next en inp) pkt"
proof -
  define data where "data = slice next en inp"
  have dl: "length data = en - next" using range by (simp add: data_def)
  have b: "(if isV6 then 40 else 20) \<le> n" "n \<le> m" "m \<le> length inp" "co + 2 \<le> m - n" "m < 65536" "n + co < 65536" "8 \<le> m - n"
    using frame n m co by (auto simp: gso_frame_def Let_def split: if_splits)
  define o0 where "o0 = take n inp @ drop n out"
  have o0: "n \<le> length o0" "drop n o0 = drop n out" using b range by (simp_all add: o0_def)
  have o0s: "slice j k o0 = slice j k inp" if "k \<le> n" for j k
    using that b by (simp add: o0_def slice_append_left store_simps)
  have o0z: "\<not> isV6 \<Longrightarrow> sum16 (slice 10 12 o0) = 0" using z(1) b o0s by auto
  obtain h where h: "(if isV6 then store 4 (put_be16 (of_nat (m + length data - n))) o0 else set_ipv4_header le n i (m + length data) o0) = Some (h @ drop n out)"
    "length h = n" "\<not> isV6 \<Longrightarrow> slice 12 20 h = slice 12 20 o0" "isV6 \<Longrightarrow> slice 8 40 h = slice 8 40 o0"
    "isV6 \<Longrightarrow> get_be16 (slice 4 6 h) = of_nat (m + length data - n)"
    "\<not> isV6 \<Longrightarrow> get_be16 (slice 2 4 h) = of_nat (m + length data) \<and> checksum le h 0 = 0xffff"
    using ip_header [OF b(1) o0(1) o0z, of "m + length data" le i] unfolding o0(2) by blast
  define x where "x = h @ slice n m inp @ drop m out"
  have x: "m \<le> length x" "take n x = h" "drop m x = drop m out" "slice n (n + 4) x = slice n (n + 4) inp"
    "slice (n + co) (n + (co + 2)) x = slice (n + co) (n + (co + 2)) inp"
  proof -
    have "slice (n + j) (n + k) x = slice (n + j) (n + k) inp" if "n + k \<le> m" for j k
      using that h(2) b slice_slice [of n k m j inp] by (simp add: x_def slice_append_right slice_append_left)
    from this [of 4 0] this [of "co + 2" co] show "slice n (n + 4) x = slice n (n + 4) inp"
      "slice (n + co) (n + (co + 2)) x = slice (n + co) (n + (co + 2)) inp" using b by simp_all
  qed (use h(2) b range in \<open>simp_all add: x_def\<close>)
  obtain t where t: "(if gso_protocol hdr = IPPROTO_TCP then set_tcp_header hdr seq i (en = length inp) x
        else set_udp_header hdr (length data) x) = Some (h @ t @ drop m out)" "length t = m - n"
    "slice 0 4 t = slice n (n + 4) x" "slice co (co + 2) t = slice (n + co) (n + (co + 2)) x"
    "gso_tcp hdr \<Longrightarrow> get_be32 (slice 4 8 t) = seq + ucast (vh_gsoSize hdr * of_nat i)"
    "\<not> gso_tcp hdr \<Longrightarrow> get_be16 (slice 4 6 t) = of_nat (m - n + length data)"
    using transport_header [OF frame n m x(1), of seq i "en = length inp" "length data"] unfolding co x(2,3) by blast
  define pkt where "pkt = h @ put_field co (put_be16 (segment_csum le inp isV6 (gso_protocol hdr) t data)) t @ data"
  have ol: "m + length data \<le> length out" using range dl by simp
  have "gso_segment le inp hdr isV6 (gso_protocol hdr) seq i next en out = Some (pkt @ drop (m + length data) out)"
    unfolding pkt_def append_assoc
    by (rule gso_segment_shape [OF b(1-4,6) n m co data_def dl ol h(1) [unfolded o0_def] h(2) t(1) [unfolded x_def] t(2)])
  moreover have "segment_ok le hdr inp isV6 (seq + ucast (vh_gsoSize hdr * of_nat i)) data pkt"
    unfolding pkt_def using h(3,4) o0s b t(3,4) x(4,5) z(2)
    by (intro segment_parts_ok [OF frame n m co h(2)] h(5,6) t(2,5,6)) (auto split: if_splits)
  ultimately show ?thesis unfolding data_def [symmetric] dl by blast
qed

subsection \<open>All segments\<close>

function chunks :: "nat \<Rightarrow> 'a list \<Rightarrow> 'a list list" where
  "chunks k xs = (if k = 0 \<or> xs = [] then [] else take k xs # chunks k (drop k xs))"
  by pat_completeness auto

termination
  by (relation "measure (\<lambda>(_, xs). length xs)") auto

declare chunks.simps [simp del]

lemma chunks_Nil [simp]: "chunks k [] = []"
  by (subst chunks.simps) simp

lemma chunks_Cons: "0 < k \<Longrightarrow> xs \<noteq> [] \<Longrightarrow> chunks k xs = take k xs # chunks k (drop k xs)"
  by (subst chunks.simps) simp

lemma concat_chunks: "0 < k \<Longrightarrow> concat (chunks k xs) = xs"
proof (induction k xs rule: chunks.induct)
  case (1 k xs)
  then show ?case by (cases "xs = []") (simp_all add: chunks_Cons)
qed

definition segments_ok :: "bool \<Rightarrow> virtioNetHdr \<Rightarrow> bytes \<Rightarrow> bool \<Rightarrow> u32 \<Rightarrow> nat \<Rightarrow> nat \<Rightarrow> bytes list \<Rightarrow> bytes list \<Rightarrow> nat list \<Rightarrow> bool" where
  "segments_ok le hdr inp isV6 seq outOffset i datas outs sizes =
     (length datas \<le> length outs \<and> i + length datas \<le> length sizes \<and>
      (\<forall>j < length datas. sizes ! (i + j) = unat (vh_hdrLen hdr) + length (datas ! j) \<and>
         segment_ok le hdr inp isV6 (seq + ucast (vh_gsoSize hdr * of_nat (i + j))) (datas ! j)
           (slice outOffset (outOffset + sizes ! (i + j)) (outs ! j))))"

lemma segments_ok_Cons:
  assumes "segments_ok le hdr inp isV6 seq off (Suc i) ds os sizes" "sizes ! i = unat (vh_hdrLen hdr) + length d" "i < length sizes"
    "segment_ok le hdr inp isV6 (seq + ucast (vh_gsoSize hdr * of_nat i)) d (slice off (off + sizes ! i) ob)"
  shows "segments_ok le hdr inp isV6 seq off i (d # ds) (ob # os) sizes"
  unfolding segments_ok_def
proof (intro conjI allI impI)
  fix j assume "j < length (d # ds)"
  then show "sizes ! (i + j) = unat (vh_hdrLen hdr) + length ((d # ds) ! j)"
    and "segment_ok le hdr inp isV6 (seq + ucast (vh_gsoSize hdr * of_nat (i + j))) ((d # ds) ! j)
           (slice off (off + sizes ! (i + j)) ((ob # os) ! j))"
    using assms by (cases j; auto simp: segments_ok_def simp del: of_nat_Suc)+
qed (use assms in \<open>auto simp: segments_ok_def\<close>)

lemma gso_loop_ok:
  assumes frame: "gso_frame hdr inp isV6" and n: "unat (vh_csumStart hdr) = n" and m: "unat (vh_hdrLen hdr) = m"
    and co: "unat (vh_csumOffset hdr) = co"
    and z: "\<not> isV6 \<Longrightarrow> sum16 (slice 10 12 inp) = 0" "sum16 (slice (n + co) (n + (co + 2)) inp) = 0"
    and room: "\<forall>ob\<in>set outs. off + m + unat (vh_gsoSize hdr) \<le> length ob"
    and many: "length (chunks (unat (vh_gsoSize hdr)) (drop start inp)) \<le> length outs" "i + length outs \<le> length sizes"
  shows "\<exists>outs' sizes'. gso_loop le inp hdr isV6 (gso_protocol hdr) seq off i start outs sizes =
      Some (int (i + length (chunks (unat (vh_gsoSize hdr)) (drop start inp))), None, outs', sizes') \<and>
    segments_ok le hdr inp isV6 seq off i (chunks (unat (vh_gsoSize hdr)) (drop start inp)) outs' sizes' \<and>
    length sizes' = length sizes \<and> (\<forall>j < i. sizes' ! j = sizes ! j)"
  using room many
proof (induction outs arbitrary: i start sizes)
  case Nil
  have g: "0 < unat (vh_gsoSize hdr)" using frame by (auto simp: gso_frame_def Let_def unat_gt_0)
  have "\<not> start < length inp" using Nil chunks_Cons [OF g, of "drop start inp"] by auto
  then show ?case using Nil by (subst gso_loop.simps) (simp add: segments_ok_def)
next
  case (Cons ob os)
  define g where "g = unat (vh_gsoSize hdr)"
  have g: "0 < g" using frame by (auto simp: g_def gso_frame_def Let_def unat_gt_0)
  show ?case
  proof (cases "start < length inp")
    case False
    then show ?thesis using Cons.prems by (subst gso_loop.simps) (simp add: segments_ok_def)
  next
    case True
    define en where "en = min (start + g) (length inp)"
    have en: "start \<le> en" "en \<le> length inp" "en - start \<le> g" "slice start en inp = take g (drop start inp)"
      using True by (auto simp: en_def slice_def min_def)
    have ch: "chunks g (drop start inp) = slice start en inp # chunks g (drop (start + g) inp)"
      using True g by (simp add: chunks_Cons en(4) add.commute)
    have ob: "off + m + g \<le> length ob" using Cons.prems(1) by (simp add: g_def)
    have fits: "m + (en - start) \<le> length (drop off ob)" using ob en(3) by simp
    obtain pkt where pkt: "gso_segment le inp hdr isV6 (gso_protocol hdr) seq i start en (drop off ob) = Some (pkt @ drop (m + (en - start)) (drop off ob))"
      "segment_ok le hdr inp isV6 (seq + ucast (vh_gsoSize hdr * of_nat i)) (slice start en inp) pkt"
      using gso_segment_ok [OF frame n m co z en(1,2) fits, of le seq i] by blast
    have sl: "length (slice start en inp) = en - start" using en(1,2) by simp
    then have lp: "length pkt = m + (en - start)" using pkt(2) unfolding segment_ok_def Let_def m by metis
    define sz where "sz = sizes[i := m + (en - start)]"
    obtain os' sizes' where rec: "gso_loop le inp hdr isV6 (gso_protocol hdr) seq off (i + 1) (start + g) os sz =
        Some (int (i + 1 + length (chunks g (drop (start + g) inp))), None, os', sizes')"
      "segments_ok le hdr inp isV6 seq off (i + 1) (chunks g (drop (start + g) inp)) os' sizes'"
      "length sizes' = length sz" "\<forall>j < i + 1. sizes' ! j = sz ! j"
      using Cons.IH [of "start + g" "i + 1" sz] Cons.prems ch by (auto simp: g_def sz_def)
    define ob' where "ob' = take off ob @ pkt @ drop (m + (en - start)) (drop off ob)"
    have "gso_loop le inp hdr isV6 (gso_protocol hdr) seq off i start (ob # os) sizes =
        Some (int (i + 1 + length (chunks g (drop (start + g) inp))), None, ob' # os', sizes')"
      using True Cons.prems(3) ob pkt(1) rec(1) unfolding g_def [symmetric] m [symmetric] sz_def en_def
      by (subst gso_loop.simps) (simp add: Let_def ob'_def g_def en_def m)
    moreover have i: "i < length sizes'" "sizes' ! i = m + (en - start)" using rec(3,4) Cons.prems(3) by (simp_all add: sz_def)
    moreover have "slice off (off + sizes' ! i) ob' = pkt"
      using ob lp i by (simp add: ob'_def slice_def)
    then have "segments_ok le hdr inp isV6 seq off i (slice start en inp # chunks g (drop (start + g) inp)) (ob' # os') sizes'"
      using rec(2) i pkt(2) sl by (intro segments_ok_Cons) (simp_all only: m Suc_eq_plus1)
    ultimately show ?thesis
      unfolding g_def [symmetric] ch using rec(3,4) by (auto simp: sz_def)
  qed
qed

subsection \<open>Reading a large packet\<close>

lemma native16_roundtrip: "get_native16 le (put_native16 le w @ r) = w" "length (put_native16 le w) = 2"
  using unat_word_bounds(1) [of w] by (simp_all add: get_native16_def put_native16_def get_put_le get_put_be)

lemma hdr_roundtrip: "hdr_decode le (hdr_bytes le v @ r) = Inr v" "length (hdr_bytes le v) = virtioNetHdrLen"
  by (simp_all add: hdr_decode_def hdr_bytes_def native16_roundtrip virtioNetHdrLen_def)

lemma unat_csum_at:
  assumes "gso_frame hdr inp isV6"
  shows "unat (vh_csumStart hdr + vh_csumOffset hdr) = unat (vh_csumStart hdr) + unat (vh_csumOffset hdr)"
    "unat (vh_csumStart hdr + 4) = unat (vh_csumStart hdr) + 4"
  using assms unat_add_small [of "vh_csumStart hdr" 4]
  by (auto simp: gso_frame_def Let_def unat_word_ariths split: if_splits)

text \<open>The packet with the checksums cleared that the segments are cut from.\<close>

definition cleared :: "virtioNetHdr \<Rightarrow> bool \<Rightarrow> bytes \<Rightarrow> bytes" where
  "cleared hdr isV6 inp =
     put_field (unat (vh_csumStart hdr) + unat (vh_csumOffset hdr)) [0, 0] (if isV6 then inp else put_field 10 [0, 0] inp)"

lemma cleared_facts:
  assumes "gso_frame hdr inp isV6" and "n = unat (vh_csumStart hdr)" "co = unat (vh_csumOffset hdr)" "m = unat (vh_hdrLen hdr)"
  shows "length (cleared hdr isV6 inp) = length inp" "drop m (cleared hdr isV6 inp) = drop m inp"
    "slice (n + co) (n + (co + 2)) (cleared hdr isV6 inp) = [0, 0]"
    "\<not> isV6 \<Longrightarrow> slice 10 12 (cleared hdr isV6 inp) = [0, 0]" "\<not> isV6 \<Longrightarrow> slice 12 20 (cleared hdr isV6 inp) = slice 12 20 inp"
    "isV6 \<Longrightarrow> slice 8 40 (cleared hdr isV6 inp) = slice 8 40 inp" "slice n (n + 4) (cleared hdr isV6 inp) = slice n (n + 4) inp"
    "gso_tcp hdr \<Longrightarrow> slice (n + 4) (n + 8) (cleared hdr isV6 inp) = slice (n + 4) (n + 8) inp"
  using assms by (auto simp: gso_frame_def Let_def cleared_def store_simps split: if_splits)

lemma gsoSplit_loop:
  assumes "gso_frame hdr inp isV6"
  shows "gsoSplit le inp hdr outs sizes off isV6 =
    gso_loop le (cleared hdr isV6 inp) hdr isV6 (gso_protocol hdr)
      (if gso_tcp hdr then get_be32 (slice (unat (vh_csumStart hdr) + 4) (unat (vh_csumStart hdr) + 8) inp) else 0)
      off 0 (unat (vh_hdrLen hdr)) outs sizes"
proof -
  let ?n = "unat (vh_csumStart hdr)" and ?co = "unat (vh_csumOffset hdr)"
  have b: "20 \<le> ?n" "?n + ?co + 2 \<le> length inp" "gso_tcp hdr \<Longrightarrow> ?n + 8 \<le> length inp"
    using assms by (auto simp: gso_frame_def Let_def split: if_splits)
  have s1: "(if isV6 then Some inp else store 10 [0, 0] inp) = Some (if isV6 then inp else put_field 10 [0, 0] inp)"
    using b by (simp add: store_def)
  have s2: "store (?n + ?co) [0, 0] (if isV6 then inp else put_field 10 [0, 0] inp) = Some (cleared hdr isV6 inp)"
    using b by (auto simp: store_def cleared_def length_put_field)
  have s3: "load (?n + 4) (?n + 4 + 4) (cleared hdr isV6 inp) = Some (slice (?n + 4) (?n + 8) inp)" if "gso_tcp hdr"
    using cleared_facts(1,8) [OF assms refl refl refl] b that by (simp add: load_def add.commute [of 8])
  show ?thesis
    unfolding gsoSplit_def Let_def unat_csum_at [OF assms] gso_tcp_def [symmetric] gso_protocol_def [symmetric]
    by (cases "gso_tcp hdr") (simp_all only: s1 s2 s3 Option.bind.simps if_True if_False option.map)
qed

lemma segment_ok_cleared:
  assumes "gso_frame hdr inp isV6"
  shows "segment_ok le hdr (cleared hdr isV6 inp) isV6 seq d pkt = segment_ok le hdr inp isV6 seq d pkt"
  using cleared_facts [OF assms refl refl refl] by (simp add: segment_ok_def Let_def)

lemma length_chunks_bound: "0 < k \<Longrightarrow> j < length (chunks k xs) \<Longrightarrow> j * k < length xs"
proof (induction k xs arbitrary: j rule: chunks.induct)
  case (1 k xs)
  then have ne: "xs \<noteq> []" by auto
  show ?case
  proof (cases j)
    case 0
    then show ?thesis using ne by simp
  next
    case (Suc j')
    then have "j' * k < length (drop k xs)" using 1 ne by (intro "1.IH") (auto simp: chunks_Cons)
    then show ?thesis using Suc by simp
  qed
qed

lemma ucast_product: "unat (g :: u16) * j < 65536 \<Longrightarrow> ucast (g * of_nat j) = (of_nat (j * unat g) :: u32)"
proof -
  assume a: "unat g * j < 65536"
  have "g * of_nat j = of_nat (unat g * j)" by simp
  then have "unat (g * of_nat j) = unat g * j" using a by (simp add: unat_of_nat_id del: of_nat_mult)
  then have "(of_nat (unat (g * of_nat j)) :: u32) = of_nat (j * unat g)" by (simp add: mult.commute)
  then show ?thesis by simp
qed

lemma segment_ok_seq: "\<not> gso_tcp hdr \<Longrightarrow> segment_ok le hdr inp isV6 s d pkt = segment_ok le hdr inp isV6 s' d pkt"
  by (simp add: segment_ok_def Let_def)

text \<open>C7: A large TCP or UDP packet that the kernel delivers behind a virtio header is cut into packets
  whose payloads, in order, are its payload: each is complete, carries the addresses, the ports and a
  transport checksum that verifies, over IPv4 also a header checksum that verifies, the length fields of
  its own size and, over TCP, the sequence number of its first byte. No buffer is indexed out of range.\<close>

theorem handleVirtioRead_splits:
  assumes "vh_gsoType hdr0 = GSO_TCPV4 \<or> vh_gsoType hdr0 = GSO_TCPV6 \<or> vh_gsoType hdr0 = GSO_UDP_L4"
    and "virtio_version hdr0 (drop_bit 4 (inp ! 0)) = None" and "virtio_hdrLen hdr0 inp = Inr hdr"
    and "isV6 = (drop_bit 4 (inp ! 0) = 6)" and "gso_frame hdr inp isV6"
    and "datas = chunks (unat (vh_gsoSize hdr)) (drop (unat (vh_hdrLen hdr)) inp)"
    and "\<forall>ob\<in>set bufs. offset + unat (vh_hdrLen hdr) + unat (vh_gsoSize hdr) \<le> length ob"
    and "length datas \<le> length bufs" and "length bufs \<le> length sizes"
  shows "\<exists>outs sizes'. handleVirtioRead le (hdr_bytes le hdr0 @ inp) bufs sizes offset = Some (int (length datas), None, outs, sizes') \<and>
    concat datas = drop (unat (vh_hdrLen hdr)) inp \<and>
    (\<forall>j < length datas. segment_ok le hdr inp isV6
       (if gso_tcp hdr then get_be32 (slice (unat (vh_csumStart hdr) + 4) (unat (vh_csumStart hdr) + 8) inp) + of_nat (j * unat (vh_gsoSize hdr)) else 0)
       (datas ! j) (slice offset (offset + sizes' ! j) (outs ! j)))"
proof -
  let ?seq = "if gso_tcp hdr then get_be32 (slice (unat (vh_csumStart hdr) + 4) (unat (vh_csumStart hdr) + 8) inp) else 0"
  note frame = assms(5)
  have len: "inp \<noteq> []" "0 < unat (vh_gsoSize hdr)" using frame by (auto simp: gso_frame_def Let_def unat_gt_0 split: if_splits)
  have bounds: "virtio_bounds hdr inp = None"
    using frame unat_csum_at(1) [OF frame] by (auto simp: virtio_bounds_def gso_frame_def Let_def word_less_nat_alt split: if_splits)
  have "handleVirtioRead le (hdr_bytes le hdr0 @ inp) bufs sizes offset = gsoSplit le inp hdr bufs sizes offset isV6"
    using assms(1-4) len bounds hdr_roundtrip(1) [of le hdr0 inp] hdr_roundtrip(2) [of le hdr0]
    by (simp add: handleVirtioRead_def) (auto simp: GSO_NONE_def GSO_TCPV4_def GSO_TCPV6_def GSO_UDP_L4_def)
  moreover have frame': "gso_frame hdr (cleared hdr isV6 inp) isV6"
    using frame cleared_facts(1) [OF frame refl refl refl] by (simp add: gso_frame_def Let_def)
  have ch: "chunks (unat (vh_gsoSize hdr)) (drop (unat (vh_hdrLen hdr)) (cleared hdr isV6 inp)) = datas"
    using assms(6) cleared_facts(2) [OF frame refl refl refl] by simp
  obtain outs sizes' where r: "gso_loop le (cleared hdr isV6 inp) hdr isV6 (gso_protocol hdr) ?seq offset 0 (unat (vh_hdrLen hdr)) bufs sizes =
      Some (int (length datas), None, outs, sizes')"
    "segments_ok le hdr (cleared hdr isV6 inp) isV6 ?seq offset 0 datas outs sizes'"
    using gso_loop_ok [OF frame' refl refl refl, where outs = bufs and off = offset and start = "unat (vh_hdrLen hdr)" and i = 0 and sizes = sizes and le = le and seq = ?seq] cleared_facts(3,4) [OF frame refl refl refl] assms(7-9)
    unfolding ch by auto
  moreover have ucast_step: "ucast (vh_gsoSize hdr * of_nat j) = (of_nat (j * unat (vh_gsoSize hdr)) :: u32)" if "j < length datas" for j
  proof -
    have "j * unat (vh_gsoSize hdr) < 65536"
      using length_chunks_bound [OF len(2)] that assms(6) frame by (fastforce simp: gso_frame_def Let_def)
    then show ?thesis by (intro ucast_product) (simp add: mult.commute)
  qed
  moreover have "segment_ok le hdr inp isV6 (if gso_tcp hdr then get_be32 (slice (unat (vh_csumStart hdr) + 4) (unat (vh_csumStart hdr) + 8) inp) + of_nat (j * unat (vh_gsoSize hdr)) else 0)
      (datas ! j) (slice offset (offset + sizes' ! j) (outs ! j))" if j: "j < length datas" for j
  proof -
    have "segment_ok le hdr inp isV6 (?seq + ucast (vh_gsoSize hdr * of_nat j)) (datas ! j) (slice offset (offset + sizes' ! j) (outs ! j))"
      using r(2) j unfolding segments_ok_def segment_ok_cleared [OF frame] add_0 by blast
    then show ?thesis
      unfolding ucast_step [OF j] by (cases "gso_tcp hdr") (simp, rule segment_ok_seq [THEN iffD1], simp_all)
  qed
  ultimately show ?thesis using gsoSplit_loop [OF frame, of le bufs sizes offset] concat_chunks [OF len(2)] assms(6) by auto
qed

definition sample_gso :: virtioNetHdr where
  "sample_gso = \<lparr>vh_flags = 1, vh_gsoType = 5, vh_hdrLen = 28, vh_gsoSize = 2, vh_csumStart = 20, vh_csumOffset = 6\<rparr>"

definition sample_datagrams :: bytes where
  "sample_datagrams = 0x45 # replicate 11 0 @ [10, 0, 0, 1, 10, 0, 0, 2, 0, 53, 0, 54] @ replicate 4 0 @ [7, 8, 9]"

theorem handleVirtioRead_splits_witness:
  "\<exists>outs sizes'. handleVirtioRead True (hdr_bytes True sample_gso @ sample_datagrams) [replicate 64 0, replicate 64 0] [0, 0] 16 =
      Some (2, None, outs, sizes') \<and>
    segment_ok True sample_gso sample_datagrams False 0 [7, 8] (slice 16 (16 + sizes' ! 0) (outs ! 0)) \<and>
    segment_ok True sample_gso sample_datagrams False 0 [9] (slice 16 (16 + sizes' ! 1) (outs ! 1))"
proof -
  have len: "length sample_datagrams = 31" by (simp add: sample_datagrams_def)
  have nibble: "drop_bit 4 (sample_datagrams ! 0) = 4" by (simp add: sample_datagrams_def)
  have ch: "chunks 2 (drop 28 sample_datagrams) = [[7, 8], [9]]"
    by (simp add: sample_datagrams_def chunks_Cons)
  have "\<exists>outs sizes'. handleVirtioRead True (hdr_bytes True sample_gso @ sample_datagrams) [replicate 64 0, replicate 64 0] [0, 0] 16 =
      Some (int (length [[7, 8], [9 :: byte]]), None, outs, sizes') \<and>
    concat [[7, 8], [9]] = drop (unat (vh_hdrLen sample_gso)) sample_datagrams \<and>
    (\<forall>j < length [[7, 8], [9 :: byte]]. segment_ok True sample_gso sample_datagrams False
       (if gso_tcp sample_gso then get_be32 (slice (unat (vh_csumStart sample_gso) + 4) (unat (vh_csumStart sample_gso) + 8) sample_datagrams) +
          of_nat (j * unat (vh_gsoSize sample_gso)) else 0)
       ([[7, 8], [9]] ! j) (slice 16 (16 + sizes' ! j) (outs ! j)))"
    by (rule handleVirtioRead_splits)
      (simp_all add: nibble ch len virtio_version_def virtio_hdrLen_def gso_frame_def gso_tcp_def sample_gso_def offload_consts)
  moreover have "\<not> gso_tcp sample_gso" by (simp add: gso_tcp_def sample_gso_def offload_consts)
  ultimately show ?thesis by (auto simp: All_less_Suc)
qed

end
