(* ===== verification/NatProbe.thy ===== *)
theory NatProbe
  imports GoNet
begin

text \<open>
  NAT characterization (src/orchestrate/natprobe): the wire format, the responder that X runs on two
  ports, the probe that Y sends from one socket to each of them, and the class that follows from the
  two observed addresses.

  A probe talks to a socket and a clock. What they do in one attempt is an \<open>attempt\<close>: the nonce that
  the random source delivers, whether the write and the deadline fail, and what \<open>ReadFrom\<close> returns
  until the clock passes the deadline. The model computes with any such script.
\<close>

subsection \<open>Wire format (wire.go)\<close>

datatype probe_error =
    NotAResponse
  | TruncatedV4
  | TruncatedV6
  | UnknownProbeFamily byte
  | ProbeRandom
  | ProbeIO string
  | NoProbeResponse
  | BothProbesFailed probe_error probe_error

definition reqMagic :: bytes where
  "reqMagic = [0x4e, 0x50, 0x52, 0x31]"

definition respMagic :: bytes where
  "respMagic = [0x4e, 0x50, 0x53, 0x31]"

definition nonceSize :: nat where
  "nonceSize = 8"

definition encodeRequest :: "u64 \<Rightarrow> bytes" where
  "encodeRequest nonce = reqMagic @ put_be64 nonce"

definition decodeRequest :: "bytes \<Rightarrow> u64 option" where
  "decodeRequest b =
     (if length b < 4 + nonceSize \<or> take 4 b \<noteq> reqMagic then None
      else Some (get_be64 (slice 4 (4 + nonceSize) b)))"

definition encodeResponse :: "u64 \<Rightarrow> addrport \<Rightarrow> bytes" where
  "encodeResponse nonce observed =
     respMagic @ put_be64 nonce @
     (case ap_addr observed of V4 a \<Rightarrow> 4 # a | a \<Rightarrow> 6 # As16 a) @ put_be16 (ap_port observed)"

definition decodeResponse :: "bytes \<Rightarrow> probe_error + u64 \<times> addrport" where
  "decodeResponse b =
     (if length b < 4 + nonceSize + 1 \<or> take 4 b \<noteq> respMagic then Inl NotAResponse
      else
      let nonce = get_be64 (slice 4 (4 + nonceSize) b);
          rest = drop (4 + nonceSize) b;
          family = rest ! 0;
          rest = drop 1 rest
      in if family = 4 then
           if length rest < 4 + 2 then Inl TruncatedV4
           else Inr (nonce, \<lparr>ap_addr = V4 (take 4 rest), ap_port = get_be16 (drop 4 rest)\<rparr>)
         else if family = 6 then
           if length rest < 16 + 2 then Inl TruncatedV6
           else Inr (nonce, \<lparr>ap_addr = V6 (take 16 rest) [], ap_port = get_be16 (drop 16 rest)\<rparr>)
         else Inl (UnknownProbeFamily family))"

subsection \<open>The responder (responder.go)\<close>

text \<open>
  One turn of \<open>Serve\<close>: a datagram read into a buffer of 1500 bytes from a UDP address, and the
  answer written back, if any. \<open>resolve\<close> is the hook of \<open>NewResponder\<close>, the identity in production.
\<close>

definition Serve_step :: "(addrport \<Rightarrow> addrport) \<Rightarrow> bytes \<Rightarrow> addrport \<Rightarrow> bytes option" where
  "Serve_step resolve datagram from =
     (case decodeRequest (take 1500 datagram) of
        None \<Rightarrow> None
      | Some nonce \<Rightarrow>
          let observed = \<lparr>ap_addr = Unmap (ap_addr from), ap_port = ap_port from\<rparr>
          in Some (encodeResponse nonce (resolve observed)))"

subsection \<open>The probe (natprobe.go, types.go)\<close>

datatype probe_read = Datagram bytes | ReadError string

record attempt =
  at_nonce :: "u64 option"
  at_write :: "string option"
  at_deadline :: "string option"
  at_reads :: "probe_read list"

text \<open>The inner loop: what was read in turn, into a buffer of 64 bytes, until the deadline.\<close>

datatype wait = Observed addrport | WaitError probe_error | DeadlinePassed

fun probe_wait :: "u64 \<Rightarrow> probe_read list \<Rightarrow> wait" where
  "probe_wait nonce [] = DeadlinePassed"
| "probe_wait nonce (ReadError e # rs) = WaitError (ProbeIO e)"
| "probe_wait nonce (Datagram b # rs) =
     (case decodeResponse (take 64 b) of
        Inl _ \<Rightarrow> probe_wait nonce rs
      | Inr (gotNonce, observed) \<Rightarrow> if gotNonce \<noteq> nonce then probe_wait nonce rs else Observed observed)"

fun probe_attempts :: "(nat \<Rightarrow> attempt) \<Rightarrow> nat \<Rightarrow> nat \<Rightarrow> probe_error option \<Rightarrow> probe_error + addrport" where
  "probe_attempts w attempt 0 lastErr = Inl (case lastErr of None \<Rightarrow> NoProbeResponse | Some e \<Rightarrow> e)"
| "probe_attempts w attempt (Suc left) lastErr =
     (case at_nonce (w attempt) of
        None \<Rightarrow> Inl ProbeRandom
      | Some nonce \<Rightarrow>
          (case at_write (w attempt) of
             Some e \<Rightarrow> probe_attempts w (attempt + 1) left (Some (ProbeIO e))
           | None \<Rightarrow>
               (case at_deadline (w attempt) of
                  Some e \<Rightarrow> Inl (ProbeIO e)
                | None \<Rightarrow>
                    (case probe_wait nonce (at_reads (w attempt)) of
                       Observed a \<Rightarrow> Inr a
                     | WaitError e \<Rightarrow> probe_attempts w (attempt + 1) left (Some e)
                     | DeadlinePassed \<Rightarrow> probe_attempts w (attempt + 1) left lastErr))))"

definition probeOnce :: "(nat \<Rightarrow> attempt) \<Rightarrow> int \<Rightarrow> probe_error + addrport" where
  "probeOnce w retries = probe_attempts w 0 (nat (retries + 1)) None"

datatype Class = Unknown | Cone | Symmetric

definition Class_String :: "Class \<Rightarrow> string" where
  "Class_String c = (case c of Cone \<Rightarrow> ''cone'' | Symmetric \<Rightarrow> ''symmetric'' | Unknown \<Rightarrow> ''unknown'')"

record Result =
  res_Class :: Class
  res_ExternalAddr :: addrport

definition zero_addrport :: addrport where
  "zero_addrport = \<lparr>ap_addr = ZeroAddr, ap_port = 0\<rparr>"

definition DefaultRetries :: int where
  "DefaultRetries = 2"

text \<open>\<open>wA\<close> and \<open>wB\<close> are what happens to the probes of the two ports, in the order they are sent.\<close>

definition Characterize :: "(nat \<Rightarrow> attempt) \<Rightarrow> (nat \<Rightarrow> attempt) \<Rightarrow> int \<Rightarrow> Result \<times> probe_error option" where
  "Characterize wA wB retries =
     (case probeOnce wA retries of
        Inl errA \<Rightarrow>
          (case probeOnce wB retries of
             Inl errB \<Rightarrow> (\<lparr>res_Class = Unknown, res_ExternalAddr = zero_addrport\<rparr>, Some (BothProbesFailed errA errB))
           | Inr mappingB \<Rightarrow> (\<lparr>res_Class = Unknown, res_ExternalAddr = zero_addrport\<rparr>, None))
      | Inr mappingA \<Rightarrow>
          (case probeOnce wB retries of
             Inl errB \<Rightarrow> (\<lparr>res_Class = Unknown, res_ExternalAddr = zero_addrport\<rparr>, None)
           | Inr mappingB \<Rightarrow>
               if mappingA = mappingB then (\<lparr>res_Class = Cone, res_ExternalAddr = mappingA\<rparr>, None)
               else (\<lparr>res_Class = Symmetric, res_ExternalAddr = zero_addrport\<rparr>, None)))"

subsection \<open>Round trips\<close>

definition plain_addr :: "addr \<Rightarrow> bool" where
  "plain_addr a = (case a of ZeroAddr \<Rightarrow> False | V4 b \<Rightarrow> length b = 4 | V6 b z \<Rightarrow> length b = 16 \<and> z = [])"

lemma decode_encode_request: "decodeRequest (encodeRequest nonce @ r) = Some nonce"
  by (simp add: decodeRequest_def encodeRequest_def reqMagic_def nonceSize_def slice_def)

lemma decode_encode_response:
  "plain_addr (ap_addr a) \<Longrightarrow> decodeResponse (encodeResponse nonce a @ r) = Inr (nonce, a)"
  by (cases a; cases "ap_addr a")
    (auto simp: plain_addr_def decodeResponse_def encodeResponse_def respMagic_def nonceSize_def slice_def Let_def)

lemma length_encodeResponse: "plain_addr (ap_addr a) \<Longrightarrow> length (encodeResponse nonce a) \<le> 64"
  by (cases "ap_addr a") (auto simp: plain_addr_def encodeResponse_def respMagic_def)

lemma plain_Unmap: "plain_addr a \<Longrightarrow> plain_addr (Unmap a)"
  by (cases a) (auto simp: plain_addr_def)

subsection \<open>What a characterization shows\<close>

text \<open>
  A datagram that is not the answer to \<open>nonce\<close>; an attempt that gets no answer; an attempt that gets,
  after other datagrams, what the responder sent back on the request it saw coming from \<open>from\<close>.
\<close>

definition stray :: "u64 \<Rightarrow> bytes \<Rightarrow> bool" where
  "stray nonce b = (case decodeResponse (take 64 b) of Inl _ \<Rightarrow> True | Inr (n, _) \<Rightarrow> n \<noteq> nonce)"

definition silent :: "attempt \<Rightarrow> bool" where
  "silent a =
     (case at_nonce a of
        None \<Rightarrow> False
      | Some nonce \<Rightarrow> at_write a \<noteq> None \<or>
          at_deadline a = None \<and> list_all (\<lambda>r. case r of ReadError _ \<Rightarrow> True | Datagram b \<Rightarrow> stray nonce b) (at_reads a))"

definition answered :: "addrport \<Rightarrow> attempt \<Rightarrow> bool" where
  "answered from a =
     (case at_nonce a of
        None \<Rightarrow> False
      | Some nonce \<Rightarrow> at_write a = None \<and> at_deadline a = None \<and>
          (\<exists>strays response rest. at_reads a = map Datagram strays @ Datagram response # rest \<and>
             list_all (stray nonce) strays \<and> Serve_step (\<lambda>a. a) (encodeRequest nonce) from = Some response))"

definition reached :: "addrport \<Rightarrow> (nat \<Rightarrow> attempt) \<Rightarrow> int \<Rightarrow> bool" where
  "reached from w retries = (\<exists>k. int k \<le> retries \<and> (\<forall>j < k. silent (w j)) \<and> answered from (w k))"

lemma probe_wait_stray: "list_all (stray nonce) bs \<Longrightarrow> probe_wait nonce (map Datagram bs @ rs) = probe_wait nonce rs"
  by (induction bs) (auto simp: stray_def split: sum.splits)

lemma probe_wait_silent:
  "list_all (\<lambda>r. case r of ReadError _ \<Rightarrow> True | Datagram b \<Rightarrow> stray nonce b) rs \<Longrightarrow>
     probe_wait nonce rs = DeadlinePassed \<or> (\<exists>e. probe_wait nonce rs = WaitError e)"
  by (induction nonce rs rule: probe_wait.induct) (auto simp: stray_def split: sum.splits)

lemma probe_wait_Observed:
  "probe_wait nonce rs = Observed a \<Longrightarrow> \<exists>b. Datagram b \<in> set rs \<and> decodeResponse (take 64 b) = Inr (nonce, a)"
proof (induction nonce rs rule: probe_wait.induct)
  case (3 nonce b rs)
  show ?case
  proof (cases "\<exists>x. decodeResponse (take 64 b) = Inr (nonce, x)")
    case True
    then show ?thesis using "3.prems" by auto
  next
    case False
    then have "probe_wait nonce rs = Observed a" using "3.prems" by (auto split: sum.splits if_splits)
    then show ?thesis using "3.IH" False by (cases "decodeResponse (take 64 b)") fastforce+
  qed
qed simp_all

lemma probe_attempts_silent:
  assumes "silent (w i)"
  shows "\<exists>e. probe_attempts w i (Suc n) lastErr = probe_attempts w (i + 1) n e"
proof -
  obtain nonce where n: "at_nonce (w i) = Some nonce" using assms by (auto simp: silent_def split: option.splits)
  show ?thesis
  proof (cases "at_write (w i)")
    case None
    then have d: "at_deadline (w i) = None" and s: "list_all (\<lambda>r. case r of ReadError _ \<Rightarrow> True | Datagram b \<Rightarrow> stray nonce b) (at_reads (w i))"
      using assms n by (auto simp: silent_def)
    from probe_wait_silent [OF s] show ?thesis using n None d by auto
  qed (use n in auto)
qed

lemma probe_attempts_skip: "\<forall>j < k. silent (w (i + j)) \<Longrightarrow> \<exists>e. probe_attempts w i (k + n) lastErr = probe_attempts w (i + k) n e"
proof (induction k arbitrary: i lastErr)
  case 0
  then show ?case by auto
next
  case (Suc k)
  obtain e where e: "probe_attempts w i (Suc (k + n)) lastErr = probe_attempts w (i + 1) (k + n) e"
    using probe_attempts_silent [of w i "k + n" lastErr] Suc.prems by (metis add.right_neutral zero_less_Suc)
  have "\<forall>j < k. silent (w (i + 1 + j))" using Suc.prems by (metis Suc_less_eq add.assoc add_Suc_right plus_1_eq_Suc add.commute)
  from Suc.IH [OF this, of e] e show ?case by simp
qed

lemma probe_answered:
  assumes "answered from (w i)" "plain_addr (ap_addr from)"
  shows "probe_attempts w i (Suc n) lastErr = Inr \<lparr>ap_addr = Unmap (ap_addr from), ap_port = ap_port from\<rparr>"
proof -
  let ?o = "\<lparr>ap_addr = Unmap (ap_addr from), ap_port = ap_port from\<rparr>"
  obtain nonce strays response rest where a: "at_nonce (w i) = Some nonce" "at_write (w i) = None" "at_deadline (w i) = None"
    "at_reads (w i) = map Datagram strays @ Datagram response # rest" "list_all (stray nonce) strays"
    "Serve_step (\<lambda>a. a) (encodeRequest nonce) from = Some response"
    using assms(1) by (auto simp: answered_def split: option.splits)
  have o: "plain_addr (ap_addr ?o)" using plain_Unmap [OF assms(2)] by simp
  have "take 1500 (encodeRequest nonce) = encodeRequest nonce" by (simp add: encodeRequest_def reqMagic_def)
  then have "response = encodeResponse nonce ?o"
    using a(6) decode_encode_request [of nonce "[]"] by (simp add: Serve_step_def Let_def)
  then have "decodeResponse (take 64 response) = Inr (nonce, ?o)"
    using decode_encode_response [OF o, of nonce "[]"] length_encodeResponse [OF o, of nonce] by simp
  then show ?thesis using a by (simp add: probe_wait_stray)
qed

lemma probeOnce_reached:
  assumes "reached from w retries" "plain_addr (ap_addr from)"
  shows "probeOnce w retries = Inr \<lparr>ap_addr = Unmap (ap_addr from), ap_port = ap_port from\<rparr>"
proof -
  obtain k where k: "int k \<le> retries" "\<forall>j < k. silent (w j)" "answered from (w k)" using assms(1) by (auto simp: reached_def)
  then obtain n where n: "nat (retries + 1) = k + Suc n" by (metis add.commute add_Suc_right int_nat_eq le_Suc_ex nat_int nat_mono Suc_nat_eq_nat_zadd1 of_nat_0_le_iff order_trans)
  obtain e where "probe_attempts w 0 (k + Suc n) None = probe_attempts w k (Suc n) e"
    using probe_attempts_skip [of k w 0 "Suc n" None] k(2) by auto
  then show ?thesis using probe_answered [of "from" w k, OF k(3) assms(2)] by (simp only: probeOnce_def n)
qed

text \<open>C36: When X's two responders each answer one of Y's probes, in whatever attempt and after whatever
  other datagrams, Y's characterization is right: the NAT is a cone exactly if the responders saw Y at
  the same address, and that address, in its plain form, is the one reported.\<close>

theorem Characterize_classifies:
  assumes "reached fromA wA retries" "reached fromB wB retries" "plain_addr (ap_addr fromA)" "plain_addr (ap_addr fromB)"
  shows "Characterize wA wB retries =
    (if Unmap (ap_addr fromA) = Unmap (ap_addr fromB) \<and> ap_port fromA = ap_port fromB
     then (\<lparr>res_Class = Cone, res_ExternalAddr = \<lparr>ap_addr = Unmap (ap_addr fromA), ap_port = ap_port fromA\<rparr>\<rparr>, None)
     else (\<lparr>res_Class = Symmetric, res_ExternalAddr = zero_addrport\<rparr>, None))"
  using probeOnce_reached [OF assms(1,3)] probeOnce_reached [OF assms(2,4)] by (simp add: Characterize_def)

lemma probe_attempts_nonce:
  "probe_attempts w i n lastErr = Inr a \<Longrightarrow>
     \<exists>j b nonce. at_nonce (w j) = Some nonce \<and> Datagram b \<in> set (at_reads (w j)) \<and> decodeResponse (take 64 b) = Inr (nonce, a)"
proof (induction w i n lastErr rule: probe_attempts.induct)
  case (2 w i left lastErr)
  then show ?case by (auto split: option.splits wait.splits dest: probe_wait_Observed) (use probe_wait_Observed in blast)
qed simp

text \<open>C37: Whatever datagrams reach the socket, a NAT is classified as a cone only on two answers that
  carry the nonces of the probes and report one address, the address returned.\<close>

theorem Characterize_Cone_needs_nonces:
  assumes "Characterize wA wB retries = (r, e)" "res_Class r = Cone"
  shows "\<exists>iA bA nA iB bB nB. at_nonce (wA iA) = Some nA \<and> Datagram bA \<in> set (at_reads (wA iA)) \<and>
    decodeResponse (take 64 bA) = Inr (nA, res_ExternalAddr r) \<and>
    at_nonce (wB iB) = Some nB \<and> Datagram bB \<in> set (at_reads (wB iB)) \<and>
    decodeResponse (take 64 bB) = Inr (nB, res_ExternalAddr r)"
  using assms probe_attempts_nonce [of wA 0 "nat (retries + 1)" None] probe_attempts_nonce [of wB 0 "nat (retries + 1)" None]
  by (auto simp: Characterize_def probeOnce_def split: sum.splits if_splits) metis

subsection \<open>Examples\<close>

text \<open>A first attempt that stays unanswered, and a second one answered after a stray datagram.\<close>

definition sample_probe :: "addrport \<Rightarrow> nat \<Rightarrow> attempt" where
  "sample_probe from j =
     \<lparr>at_nonce = Some (of_nat j), at_write = None, at_deadline = None,
      at_reads = (if j = 1 then [Datagram [1, 2, 3], Datagram (encodeResponse 1 from)] else [])\<rparr>"

definition sample_from :: "u16 \<Rightarrow> addrport" where
  "sample_from port = \<lparr>ap_addr = V4 [203, 0, 113, 7], ap_port = port\<rparr>"

lemma sample_reached: "reached (sample_from port) (sample_probe (sample_from port)) DefaultRetries"
  unfolding reached_def
proof (intro exI conjI allI impI)
  show "int 1 \<le> DefaultRetries" by (simp add: DefaultRetries_def)
  show "silent (sample_probe (sample_from port) j)" if "j < 1" for j
    using that by (simp add: silent_def sample_probe_def)
  have "Serve_step (\<lambda>a. a) (encodeRequest 1) (sample_from port) = Some (encodeResponse 1 (sample_from port))"
    using decode_encode_request [of 1 "[]"]
    by (simp add: Serve_step_def sample_from_def Let_def encodeRequest_def reqMagic_def)
  moreover have "stray 1 [1, 2, 3]" by (simp add: stray_def decodeResponse_def nonceSize_def)
  ultimately show "answered (sample_from port) (sample_probe (sample_from port) 1)"
    by (auto simp: answered_def sample_probe_def intro!: exI [of _ "[[1, 2, 3]]"])
qed

lemma sample_from_plain: "plain_addr (ap_addr (sample_from port))"
  by (simp add: sample_from_def plain_addr_def)

theorem Characterize_classifies_witness:
  "Characterize (sample_probe (sample_from 4000)) (sample_probe (sample_from 4000)) DefaultRetries =
     (\<lparr>res_Class = Cone, res_ExternalAddr = sample_from 4000\<rparr>, None) \<and>
   Characterize (sample_probe (sample_from 4000)) (sample_probe (sample_from 4001)) DefaultRetries =
     (\<lparr>res_Class = Symmetric, res_ExternalAddr = zero_addrport\<rparr>, None)"
  using Characterize_classifies [OF sample_reached sample_reached sample_from_plain sample_from_plain, of 4000 4000]
    Characterize_classifies [OF sample_reached sample_reached sample_from_plain sample_from_plain, of 4000 4001]
  by (simp add: sample_from_def)

theorem Characterize_Cone_needs_nonces_witness:
  "\<exists>iA bA nA. at_nonce (sample_probe (sample_from 4000) iA) = Some nA \<and>
     Datagram bA \<in> set (at_reads (sample_probe (sample_from 4000) iA)) \<and>
     decodeResponse (take 64 bA) = Inr (nA, sample_from 4000)"
proof -
  have "Characterize (sample_probe (sample_from 4000)) (sample_probe (sample_from 4000)) DefaultRetries =
     (\<lparr>res_Class = Cone, res_ExternalAddr = sample_from 4000\<rparr>, None)"
    using probeOnce_reached [OF sample_reached sample_from_plain, of 4000] by (simp add: Characterize_def sample_from_def)
  from Characterize_Cone_needs_nonces [OF this] show ?thesis by auto
qed

end
