(* ===== verification/Spec2Isabelle.thy ===== *)
theory Spec2Isabelle
  imports
    Replay Ratelimiter Tai64n ControlNoise RoutingTable NoiseTypes NoiseAgreement IndexRuns Nonces
    Closing Routing Transport Retries Offload NatProbe
begin

text \<open>
  Verification of \<^emph>\<open>starlingwg-go\<close>, a userspace WireGuard in Go with the AmneziaWG obfuscation and
  an orchestration layer for two connection modes.

  \<^bold>\<open>The program.\<close> Package \<open>device\<close> is the tunnel: it reads IP packets from a tunnel interface
  (package \<open>tun\<close>), finds the peer that owns the destination address (\<open>allowedips.go\<close>), runs the Noise
  handshake with it (\<open>noise-protocol.go\<close>, with cookies, rate limiting and TAI64N timestamps against
  floods and replays), encrypts the packets under numbered nonces (\<open>send.go\<close>), disguises them with
  paddings, header ranges, junk packets and header protection, and sends them through a bind (package
  \<open>conn\<close>). Inbound (\<open>receive.go\<close>) it classifies, decrypts, checks the counter against a sliding
  window (package \<open>replay\<close>) and the source address against the allowed addresses, and writes to the
  interface. Timers (\<open>timers.go\<close>) retransmit, expire and keep alive; \<open>uapi.go\<close> is the text protocol that
  configures a device. Package \<open>orchestrate\<close> runs the tunnel between a public peer X and a peer Y behind
  a NAT: a control channel (\<open>orchestrate/control\<close>) with its own Noise handshake negotiates the mode.

  \<^bold>\<open>Vocabulary.\<close> \<open>GoPrelude\<close> has Go's integers at their width, byte slices and \<open>encoding/binary\<close>;
  \<open>GoStrings\<close>, \<open>GoNet\<close>, \<open>Netip\<close> and \<open>Base64\<close> have the parts of the standard library that the code uses;
  \<open>Runs\<close> has sequences of calls with the interfaces \<open>step_invariant\<close>, \<open>step_refinement\<close> and
  \<open>guarded_refinement\<close>. \<open>Crypto\<close> has the primitives of golang.org/x/crypto as the fields of a record,
  a parameter of every definition that calls them; \<open>crypto_ok\<close> states what their documentation
  promises (Diffie-Hellman commutes, what is sealed opens, lengths) and \<open>demo_crypto\<close> satisfies it.

  \<^bold>\<open>Small components.\<close>
  \<^item> \<open>Replay\<close> (\<open>replay/replay.go\<close>): the bit ring and \<open>ValidateCounter\<close>; it refines the abstract sliding
    window, and no counter is accepted twice.
  \<^item> \<open>Ratelimiter\<close> (\<open>ratelimiter/ratelimiter.go\<close>): \<open>Allow\<close> and the garbage collector refine one token
    bucket per address; the packets let through in any run are bounded.
  \<^item> \<open>Tai64n\<close> (\<open>tai64n/tai64n.go\<close>): comparing stamps compares times up to the whitened bits.
  \<^item> \<open>AddrBits\<close>, \<open>AllowedIPs\<close>, \<open>RoutingTable\<close> (\<open>device/allowedips.go\<close>): the two compressed tries with their
    per-peer entry lists refine a map from prefixes to peers with longest-prefix lookup.
  \<^item> \<open>NoiseTypes\<close>, \<open>NoiseHelpers\<close>, \<open>Messages\<close>, \<open>Cookie\<close>, \<open>Obf\<close>: key types and header ranges, key derivation,
    wire messages, the cookie mechanism and the obfuscation chains, with their round trips.
  \<^item> \<open>Checksum\<close>, \<open>PacketFields\<close>, \<open>Offload\<close> (\<open>tun/checksum.go\<close>, \<open>tun/offload_linux.go\<close>,
    \<open>tun/tun_linux.go\<close>): the Internet checksum equals its definition in RFC 1071, and a large packet of
    the kernel is cut into complete packets whose checksums verify.

  \<^bold>\<open>The device.\<close> \<open>DeviceState\<close> has its structs as records: peers and keypairs are numbered objects, queues
  are lists, and \<open>Env\<close> is what the world supplies (clock, random bytes, results of the bind). The
  operations are state transformers with the names of the source: \<open>NoiseProtocol\<close> (handshake, index
  table, key rotation), \<open>Timers\<close> and \<open>Expiry\<close>, \<open>PeerOps\<close>, \<open>Framing\<close> (padding, header protection,
  classification), \<open>Send\<close>, \<open>Receive\<close>, \<open>Lifecycle\<close> and \<open>Uapi\<close>. A routine that loops over a queue is given
  as the step that handles one item. \<open>device_run\<close> is an arbitrary sequence of these steps from
  \<open>NewDevice\<close> on, each in a world of its own: all interleavings of the goroutines at the granularity of
  their critical sections.

  \<^bold>\<open>What is shown of the device.\<close> \<open>NoiseAgreement\<close>: a handshake between two devices ends in matching
  keys. \<open>Transport\<close>: a handshake message is recognised, and a packet that goes in at one end of a
  session comes out at the other. \<open>Invariance\<close> and \<open>Ownership\<close> are the interface of an invariant
  (\<open>traffic_effects\<close>, \<open>traffic_invariant\<close>, \<open>owner_invariant\<close>, \<open>device_invariant\<close>): what the elementary
  effects must keep so that every step keeps it; \<open>DeviceLemmas\<close> and \<open>Frame\<close> say what the steps leave
  alone. Its interpretations give, for every reachable state: \<open>IndexInvariant\<close> and \<open>IndexRuns\<close>, the
  index table has one entry per handshake and keypair; \<open>Peers\<close>, keys and peers correspond, the
  obfuscation parameters stay consistent, and routes lead to present peers only; \<open>Nonces\<close>, no nonce is
  queued twice or used again; \<open>Closing\<close>, a closed device stays closed; \<open>Routing\<close>, what is written to
  the tunnel comes from the peer that owns the source address. \<open>Retries\<close>: retransmission ends.

  \<^bold>\<open>The control channel.\<close> \<open>ControlMessages\<close> (\<open>messages.go\<close>) encodes and decodes every message;
  \<open>ControlConn\<close> (\<open>codec.go\<close>) delivers them in order; \<open>ControlNoise\<close> (\<open>noise.go\<close>, \<open>control.go\<close>) shows that the
  handshake agrees and that a replayed initiation is refused.


  \<^bold>\<open>Bounds.\<close> Loops of the source are recursive functions with termination proofs. Fuel occurs where
  the source loops until the world cooperates: drawing a free index (\<open>d_starved\<close> marks the runs whose
  worlds do not supply one, and nothing is claimed of them beyond it). Counters, lengths and indices keep their width.

  \<^bold>\<open>Not modelled.\<close> Mutexes, goroutine creation and memory pools, which do not change what a step
  computes; logging. The operating system: opening interfaces and sockets (\<open>tun_*.go\<close> besides the offload,
  \<open>bind_windows.go\<close>, \<open>conn/winrio\<close>, \<open>sticky_linux.go\<close>, \<open>rwcancel\<close>, \<open>ipc\<close> besides the conversation), the
  commands (\<open>main*.go\<close>, \<open>orchestrate/cmd\<close>), and the network stack of \<open>tun/netstack\<close>, which is gVisor's.
  The state is advanced by whole critical sections: data races below that granularity are not covered.
\<close>

end
